(* ===== verification/Edn_Prelude.thy ===== *)
theory Edn_Prelude
  imports Main "HOL-Library.Word"
begin

text \<open>
  Shared vocabulary of the development: the C integer conversions the sources rely on,
  the faults a C++ statement can run into, the results of system calls, byte memories
  with block reads and writes, and the lemma collections the component theories fill.

  Conventions. A C \<open>int\<close> is a HOL \<open>int\<close> with the 32-bit wrap written out
  (\<open>wrap32\<close>) where the value can leave its range; a \<open>size_t\<close> is a \<open>nat\<close> below \<open>2 ^ 64\<close>
  with \<open>add64\<close> and \<open>sub64\<close> wrapping; bit masks are \<open>32 word\<close>s. A statement that can go
  wrong returns \<open>fault + 'a\<close>.
\<close>

named_theorems edn_defs "definitions that a component's proofs unfold"
named_theorems edn_cint "C integer conversions inside their range"

type_synonym u8 = "8 word"
type_synonym u32 = "32 word"

section \<open>Faults and system call results\<close>

text \<open>
  What a C++ statement does when it does not return: the undefined behaviours and aborts the
  sources can reach. \<open>Diverges\<close> is a loop that repeats its state, \<open>Out_of_fuel\<close> and
  \<open>Script_end\<close> bound a run of the model (its fuel or the environment's answers are used up).
\<close>

datatype fault =
    Null_deref
  | Assert_failed
  | Bad_iterator
  | Bad_function_call
  | Enqueue_on_stopped
  | Out_of_bounds
  | Dangling
  | Diverges
  | Out_of_fuel
  | Script_end

datatype errno =
    EAGAIN | EINTR | EINPROGRESS | EEXIST | EBADF | ENOENT | EOTHER int

datatype sysret = Ret int | Err errno

definition is_inr :: "'a + 'b \<Rightarrow> bool" where
  "is_inr x = (case x of Inl _ \<Rightarrow> False | Inr _ \<Rightarrow> True)"

lemma is_inr_simps [simp]: "is_inr (Inr v) = True" "is_inr (Inl e) = False"
  by (simp_all add: is_inr_def)

lemma is_inrE: "is_inr x \<Longrightarrow> (\<And>v. x = Inr v \<Longrightarrow> P) \<Longrightarrow> P"
  by (cases x) auto

section \<open>C integers\<close>

text \<open>Conversion to \<open>int\<close>: the value modulo \<open>2 ^ 32\<close>, read in two's complement.\<close>

definition wrap32 :: "int \<Rightarrow> int" where
  "wrap32 x = (x + 2147483648) mod 4294967296 - 2147483648"

lemma wrap32_id [simp, edn_cint]: "- 2147483648 \<le> x \<Longrightarrow> x < 2147483648 \<Longrightarrow> wrap32 x = x"
  by (simp add: wrap32_def)

lemma wrap32_bounds: "- 2147483648 \<le> wrap32 x \<and> wrap32 x < 2147483648"
  by (simp add: wrap32_def)

lemma wrap32_idem [simp]: "wrap32 (wrap32 x) = wrap32 x"
  using wrap32_bounds [of x] by simp

lemma wrap32_cong: "x mod 4294967296 = y mod 4294967296 \<Longrightarrow> wrap32 x = wrap32 y"
  by (simp add: wrap32_def) (metis mod_add_left_eq)

lemma wrap32_add_mod: "wrap32 (wrap32 x + y) = wrap32 (x + y)"
proof (rule wrap32_cong)
  have "wrap32 x mod 4294967296 = x mod 4294967296"
    unfolding wrap32_def by (simp add: mod_diff_left_eq)
  then show "(wrap32 x + y) mod 4294967296 = (x + y) mod 4294967296"
    by (metis mod_add_left_eq)
qed

text \<open>\<open>size_t\<close> arithmetic.\<close>

abbreviation size_max :: nat where "size_max \<equiv> 18446744073709551616"

definition add64 :: "nat \<Rightarrow> nat \<Rightarrow> nat" where
  "add64 a b = (a + b) mod size_max"

definition sub64 :: "nat \<Rightarrow> nat \<Rightarrow> nat" where
  "sub64 a b = (a + (size_max - b mod size_max)) mod size_max"

lemma add64_small [simp, edn_cint]: "a + b < size_max \<Longrightarrow> add64 a b = a + b"
  by (simp add: add64_def)

lemma sub64_le [simp, edn_cint]: "b \<le> a \<Longrightarrow> a < size_max \<Longrightarrow> sub64 a b = a - b"
proof -
  assume h: "b \<le> a" "a < size_max"
  then have "a + (size_max - b mod size_max) = (a - b) + size_max" by simp
  then have "sub64 a b = ((a - b) + size_max) mod size_max" by (simp only: sub64_def)
  also have "\<dots> = a - b" using h by (simp only: mod_add_self2) simp
  finally show ?thesis .
qed

lemma sub64_self [simp]: "a < size_max \<Longrightarrow> sub64 a a = 0"
  by simp

lemma sub64_wrap: "a < b \<Longrightarrow> b < size_max \<Longrightarrow> sub64 a b = size_max - (b - a)"
  by (simp add: sub64_def)

lemma add64_less: "add64 a b < size_max" and sub64_less: "sub64 a b < size_max"
  by (simp_all add: add64_def sub64_def)

text \<open>The implicit conversions between \<open>int\<close> and \<open>size_t\<close>.\<close>

definition int_of_size :: "nat \<Rightarrow> int" where
  "int_of_size n = wrap32 (int n)"

definition size_of_int :: "int \<Rightarrow> nat" where
  "size_of_int i = nat (i mod 18446744073709551616)"

lemma int_of_size_small [simp, edn_cint]: "n < 2147483648 \<Longrightarrow> int_of_size n = int n"
  by (simp add: int_of_size_def)

lemma size_of_int_nonneg [simp, edn_cint]:
  "0 \<le> i \<Longrightarrow> i < 18446744073709551616 \<Longrightarrow> size_of_int i = nat i"
  by (simp add: size_of_int_def)

lemma size_of_int_minus_one: "size_of_int (- 1) = size_max - 1"
  by (simp add: size_of_int_def)

text \<open>Both conversions as residues, for values outside the small range.\<close>

lemma int_size_of_int: "int (size_of_int i) = i mod 18446744073709551616"
  by (simp add: size_of_int_def)

lemma int_sub64: "int (sub64 a b) = (int a - int b) mod 18446744073709551616"
proof -
  have "int (sub64 a b) = (int a + (18446744073709551616 - int b mod 18446744073709551616))
      mod 18446744073709551616"
    by (simp add: sub64_def of_nat_mod of_nat_diff add_diff_eq)
  also have "\<dots> = (int a - int b mod 18446744073709551616 + 18446744073709551616)
      mod 18446744073709551616"
    by (simp add: algebra_simps)
  also have "\<dots> = (int a - int b) mod 18446744073709551616"
    by (simp only: mod_add_self2 mod_diff_right_eq)
  finally show ?thesis .
qed

section \<open>Byte memories\<close>

definition read_bytes :: "(nat \<Rightarrow> u8) \<Rightarrow> nat \<Rightarrow> nat \<Rightarrow> u8 list" where
  "read_bytes m a n = map m [a ..< a + n]"

definition write_bytes :: "(nat \<Rightarrow> u8) \<Rightarrow> nat \<Rightarrow> u8 list \<Rightarrow> (nat \<Rightarrow> u8)" where
  "write_bytes m a d = (\<lambda>i. if a \<le> i \<and> i < a + length d then d ! (i - a) else m i)"

lemma length_read_bytes [simp]: "length (read_bytes m a n) = n"
  by (simp add: read_bytes_def)

lemma read_bytes_0 [simp]: "read_bytes m a 0 = []"
  by (simp add: read_bytes_def)

lemma nth_read_bytes [simp]: "i < n \<Longrightarrow> read_bytes m a n ! i = m (a + i)"
  by (simp add: read_bytes_def)

lemma read_bytes_add: "read_bytes m a (k + n) = read_bytes m a k @ read_bytes m (a + k) n"
  by (rule nth_equalityI) (auto simp: nth_append)

lemma read_bytes_take: "k \<le> n \<Longrightarrow> take k (read_bytes m a n) = read_bytes m a k"
  by (rule nth_equalityI) auto

lemma read_bytes_drop: "k \<le> n \<Longrightarrow> drop k (read_bytes m a n) = read_bytes m (a + k) (n - k)"
  by (rule nth_equalityI) (auto simp: add.assoc)

lemma read_write_same [simp]: "read_bytes (write_bytes m a d) a (length d) = d"
  by (rule nth_equalityI) (auto simp: write_bytes_def)

lemma read_write_disjoint:
  "b + n \<le> a \<or> a + length d \<le> b \<Longrightarrow> read_bytes (write_bytes m a d) b n = read_bytes m b n"
  by (rule nth_equalityI) (auto simp: write_bytes_def)

text \<open>Reading a longer block over a write: the bytes written, then what was there.\<close>

lemma read_write_prefix:
  "read_bytes (write_bytes m a d) a (length d + n) = d @ read_bytes m (a + length d) n"
  by (simp add: read_bytes_add read_write_disjoint)

lemma read_write_suffix:
  "read_bytes (write_bytes m (a + k) d) a (k + length d) = read_bytes m a k @ d"
  by (simp add: read_bytes_add read_write_disjoint)

end
