(* ===== verification/Edn_Define.thy ===== *)
theory Edn_Define
  imports Edn_Prelude
begin

text \<open>
  Constants and small utilities: the codes of \<open>edn.h\<close>, the defaults of \<open>edn_define.h\<close>, the
  configuration of \<open>edn_config.h\<close>, and \<open>EdnUtils\<close> (\<open>utils/edn_utils.cpp\<close>): the event id
  counter, the millisecond clock, which is narrowed to a 32-bit \<open>int\<close>, and the time stamp of
  the log lines. \<open>gettimeofday\<close> and \<open>localtime\<close> are libc: their results are arguments.
\<close>

section \<open>Codes and defaults\<close>

definition EDN_OK :: int where [simp]: "EDN_OK = 0"
definition EDN_ERR_PARAMS_INVALID :: int where [simp]: "EDN_ERR_PARAMS_INVALID = - 1"
definition EDN_ERR_SOCK_ERROR :: int where [simp]: "EDN_ERR_SOCK_ERROR = - 2"
definition EDN_ERR_TIMEOUT :: int where [simp]: "EDN_ERR_TIMEOUT = - 3"
definition EDN_ERR_SYS_ERROR :: int where [simp]: "EDN_ERR_SYS_ERROR = - 4"
definition EDN_ERR_BUFFER_NOT_ENOUGH :: int where [simp]: "EDN_ERR_BUFFER_NOT_ENOUGH = - 5"
definition EDN_ERROR_CONNECT_UNAVAILABLE :: int where
  [simp]: "EDN_ERROR_CONNECT_UNAVAILABLE = - 6"

definition INVALID_FD :: int where [simp]: "INVALID_FD = - 1"
definition DEFAULT_IVP4_ADDR :: string where [simp]: "DEFAULT_IVP4_ADDR = ''0.0.0.0''"
definition DEFAULT_IVP6_ADDR :: string where [simp]: "DEFAULT_IVP6_ADDR = ''::''"

record edn_config =
  switchs :: nat
  max_event_num :: int
  work_thread_num :: int
  buffer_len :: int
  min_buffer_node_len :: int
  write_high_water_mark :: int
  write_low_water_mark :: int
  read_high_water_mark :: int
  read_low_water_mark :: int

definition default_config :: edn_config where
  "default_config =
     \<lparr>switchs = 0, max_event_num = 1024, work_thread_num = 8,
      buffer_len = 4 * 1024 * 20, min_buffer_node_len = 4096,
      write_high_water_mark = 4096 * 16, write_low_water_mark = 4096,
      read_high_water_mark = 4096, read_low_water_mark = 4096\<rparr>"

text \<open>\<open>struct EdnError\<close>: the library's code, the \<open>errno\<close>, a message.\<close>

record edn_error =
  edn_code :: int
  sys_code :: int
  errmsg :: string

section \<open>Event ids\<close>

text \<open>\<open>EdnUtils::GetUUID\<close>: the static counter is incremented and returned.\<close>

definition GetUUID :: "int \<Rightarrow> int \<times> int" where
  "GetUUID s_uuid = (let s' = wrap32 (s_uuid + 1) in (s', s'))"

fun uuids :: "nat \<Rightarrow> int \<Rightarrow> int list" where
  "uuids 0 s = []"
| "uuids (Suc n) s = (case GetUUID s of (u, s') \<Rightarrow> u # uuids n s')"

lemma uuids_eq: "0 \<le> s \<Longrightarrow> s + int n < 2147483648 \<Longrightarrow> uuids n s = map (\<lambda>i. s + 1 + int i) [0 ..< n]"
proof (induction n arbitrary: s)
  case (Suc n)
  have "uuids (Suc n) s = (s + 1) # uuids n (s + 1)"
    using Suc.prems by (simp add: GetUUID_def Let_def)
  also have "uuids n (s + 1) = map (\<lambda>i. s + 1 + 1 + int i) [0 ..< n]"
    using Suc.prems by (intro Suc.IH) auto
  also have "(s + 1) # \<dots> = map (\<lambda>i. s + 1 + int i) [0 ..< Suc n]"
    by (simp add: upt_conv_Cons map_Suc_upt [symmetric] del: upt_Suc)
  finally show ?case .
qed simp

lemma uuids_distinct:
  assumes "0 \<le> s" "s + int n < 2147483648"
  shows "distinct (uuids n s)"
  unfolding uuids_eq [OF assms] by (simp add: distinct_map inj_on_def)

section \<open>The clock\<close>

text \<open>
  \<open>EdnUtils::GetCurrentTime\<close>: milliseconds since the epoch, computed in 64 bits and narrowed
  to \<open>int\<close> by the return type.
\<close>

definition GetCurrentTime :: "int \<Rightarrow> int \<Rightarrow> int" where
  "GetCurrentTime tv_sec tv_usec = wrap32 (tv_sec * 1000 + tv_usec div 1000)"

text \<open>The clock as an instant in real milliseconds, before and after narrowing.\<close>

definition clock_at :: "int \<Rightarrow> int" where
  "clock_at ms = GetCurrentTime (ms div 1000) ((ms mod 1000) * 1000)"

lemma clock_at_eq: "clock_at ms = wrap32 ms"
proof -
  have "(ms div 1000) * 1000 + ms mod 1000 = ms" by simp
  then show ?thesis by (simp add: clock_at_def GetCurrentTime_def)
qed

section \<open>Decimal numbers and time stamps\<close>

definition digit :: "nat \<Rightarrow> char" where
  "digit d = char_of (48 + d)"

fun dec :: "nat \<Rightarrow> string" where
  "dec n = (if n < 10 then [digit n] else dec (n div 10) @ [digit (n mod 10)])"

declare dec.simps [simp del]

definition dec_int :: "int \<Rightarrow> string" where
  "dec_int i = (if i < 0 then CHR ''-'' # dec (nat (- i)) else dec (nat i))"

text \<open>The conversion \<open>%0wd\<close> of \<open>printf\<close>.\<close>

definition fmt0 :: "nat \<Rightarrow> int \<Rightarrow> string" where
  "fmt0 w i =
     (if i < 0 then CHR ''-'' # (let s = dec (nat (- i)) in replicate (w - 1 - length s) CHR ''0'' @ s)
      else (let s = dec (nat i) in replicate (w - length s) CHR ''0'' @ s))"

text \<open>\<open>snprintf\<close> into a buffer of \<open>n\<close> bytes keeps at most \<open>n - 1\<close> characters.\<close>

definition snprintf_result :: "nat \<Rightarrow> string \<Rightarrow> string" where
  "snprintf_result n s = take (n - 1) s"

record tm =
  tm_year :: int
  tm_mon :: int
  tm_mday :: int
  tm_hour :: int
  tm_min :: int
  tm_sec :: int

definition GetTimeStamp :: "tm \<Rightarrow> int \<Rightarrow> string" where
  "GetTimeStamp t tv_usec =
     snprintf_result 64
       (fmt0 4 (tm_year t + 1900) @ ''-'' @ fmt0 2 (tm_mon t + 1) @ ''-'' @ fmt0 2 (tm_mday t) @
        '' '' @ fmt0 2 (tm_hour t) @ '':'' @ fmt0 2 (tm_min t) @ '':'' @ fmt0 2 (tm_sec t) @
        ''.'' @ fmt0 3 (tv_usec div 1000))"

lemma length_dec_le: "0 < k \<Longrightarrow> n < 10 ^ k \<Longrightarrow> length (dec n) \<le> k"
proof (induction n arbitrary: k rule: dec.induct)
  case (1 n)
  show ?case
  proof (cases "n < 10")
    case True
    then show ?thesis using "1.prems" by (subst dec.simps) simp
  next
    case False
    obtain j where k: "k = Suc j" using "1.prems" by (cases k) auto
    have "0 < j" using False "1.prems" k by (cases j) auto
    moreover have "n div 10 < 10 ^ j" using "1.prems" k by simp
    ultimately have "length (dec (n div 10)) \<le> j" using "1.IH" False by blast
    then show ?thesis using False k by (subst dec.simps) simp
  qed
qed

lemma dec_nonempty [simp]: "dec n \<noteq> []"
  by (subst dec.simps) simp

lemma length_fmt0: "0 \<le> i \<Longrightarrow> i < 10 ^ w \<Longrightarrow> 0 < w \<Longrightarrow> length (fmt0 w i) = w"
  using length_dec_le [of w "nat i"]
  by (simp add: fmt0_def Let_def nat_less_iff)

end
