(* ===== verification/Edn_Log.thy ===== *)
theory Edn_Log
  imports Edn_Define
begin

text \<open>
  The logger (\<open>utils/edn_log.h\<close>, \<open>utils/edn_log.cpp\<close>): a level, a sink, and two buffers of
  \<open>MAX_LOG_LEN\<close> bytes in which a line is put together. A rendered format string (what \<open>vsnprintf\<close>
  makes of a format and its arguments) is a parameter; the time stamp is \<open>GetTimeStamp\<close>.
\<close>

definition MAX_LOG_LEN :: nat where [simp]: "MAX_LOG_LEN = 1024"

datatype log_sink = Sink_Print | Sink_user nat

record edn_logger =
  log_cb :: "log_sink option"
  log_level :: int

definition EdnLogger :: edn_logger where
  "EdnLogger = \<lparr>log_cb = Some Sink_Print, log_level = 0\<rparr>"

definition SetLogCb :: "log_sink option \<Rightarrow> edn_logger \<Rightarrow> edn_logger" where
  "SetLogCb cb l = l\<lparr>log_cb := cb\<rparr>"

definition SetLogLevel :: "int \<Rightarrow> edn_logger \<Rightarrow> edn_logger" where
  "SetLogLevel lv l = l\<lparr>log_level := lv\<rparr>"

definition GetLevelStr :: "int \<Rightarrow> string" where
  "GetLevelStr lv =
     (if lv = 0 then ''DEBUG'' else if lv = 1 then ''INFO'' else if lv = 2 then ''WARN''
      else if lv = 3 then ''ERROR'' else ''UNKNOWN'')"

text \<open>The line \<open>Log\<close> passes on, and to whom; \<open>None\<close> when the level or a null sink filters it.\<close>

definition log_line :: "string \<Rightarrow> int \<Rightarrow> string \<Rightarrow> int \<Rightarrow> string \<Rightarrow> string \<Rightarrow> string" where
  "log_line stamp lv file line func message =
     ''['' @ stamp @ '']['' @ file @ '':'' @ dec_int line @ '']['' @ func @ '']['' @ GetLevelStr lv @ ''] '' @ message
       @ [CHR 0x0A]"

definition Log :: "string \<Rightarrow> int \<Rightarrow> string \<Rightarrow> int \<Rightarrow> string \<Rightarrow> string \<Rightarrow> edn_logger \<Rightarrow> (log_sink \<times> string) option" where
  "Log stamp lv file line func rendered l =
     (case log_cb l of
        None \<Rightarrow> None
      | Some sink \<Rightarrow>
          if log_level l \<le> lv then
            let message = snprintf_result MAX_LOG_LEN rendered
            in Some (sink, snprintf_result MAX_LOG_LEN (log_line stamp lv file line func message))
          else None)"

text \<open>\<open>Print\<close>: the return value and what reaches the standard output.\<close>

definition print_error_msg :: string where
  "print_error_msg = ''Error: Buffer overflow or formatting failed!'' @ [CHR 0x0A]"

definition Print :: "string \<Rightarrow> int \<times> string" where
  "Print rendered =
     (if 0 < length rendered \<and> length rendered < MAX_LOG_LEN then (int (length rendered), rendered)
      else (- 1, print_error_msg))"

lemma length_snprintf_result: "0 < n \<Longrightarrow> length (snprintf_result n s) < n"
  by (simp add: snprintf_result_def)

lemma snprintf_result_id: "length s < n \<Longrightarrow> snprintf_result n s = s"
  by (simp add: snprintf_result_def)

lemma Log_Some:
  "Log stamp lv file line func rendered l = Some (sink, s) \<longleftrightarrow>
     log_cb l = Some sink \<and> log_level l \<le> lv
     \<and> s = snprintf_result MAX_LOG_LEN (log_line stamp lv file line func (snprintf_result MAX_LOG_LEN rendered))"
  by (auto simp: Log_def Let_def split: option.splits)

text \<open>C40: Every line the logger emits fits the buffer and is accepted by the default sink: \<open>Print\<close> writes
  it unchanged and its error branch is never taken. A line is emitted exactly when a sink is set and the
  level is at or above the logger's.\<close>

theorem log_line_printed:
  "(Log stamp lv file line func rendered l \<noteq> None) = (log_cb l \<noteq> None \<and> log_level l \<le> lv)
   \<and> (\<forall>sink s. Log stamp lv file line func rendered l = Some (sink, s) \<longrightarrow> Print s = (int (length s), s))"
proof -
  have "0 < length (snprintf_result MAX_LOG_LEN (log_line stamp lv file line func m))" for m
    by (simp add: snprintf_result_def log_line_def)
  moreover have "length (snprintf_result MAX_LOG_LEN s) < MAX_LOG_LEN" for s
    by (simp add: length_snprintf_result)
  ultimately show ?thesis
    by (auto simp: Log_Some Print_def simp del: MAX_LOG_LEN_def)
qed

theorem log_line_printed_witness:
  "\<exists>s. Log ''T'' 3 ''f'' 7 ''g'' ''boom'' EdnLogger = Some (Sink_Print, s) \<and> Print s = (int (length s), s)"
proof -
  obtain s where s: "Log ''T'' 3 ''f'' 7 ''g'' ''boom'' EdnLogger = Some (Sink_Print, s)"
    by (simp add: Log_def EdnLogger_def Let_def)
  with log_line_printed [of "''T''" 3 "''f''" 7 "''g''" "''boom''" EdnLogger] show ?thesis by blast
qed

end
