(* ===== verification/Edn_Buffer.thy ===== *)
theory Edn_Buffer
  imports Edn_Define
begin

text \<open>
  The connection buffers (\<open>buffer/edn_buffer.h\<close>, \<open>buffer/edn_buffer.cpp\<close>): a block of
  \<open>buffer_len\<close> bytes in which \<open>BufferNode\<close> headers are placed, each followed by its data.

  Addresses are offsets from \<open>buffer_\<close>; a pointer is \<open>nat option\<close>, \<open>None\<close> for \<open>nullptr\<close>. The
  node headers are a typed store (address to record) and the data bytes a byte memory. Both
  start with arbitrary contents, as \<open>new char[capacity]\<close> leaves them: \<open>BufferNode::Init\<close> does
  not write \<open>next\<close> and \<open>prev\<close>, so a node keeps what its address held before. Keeping the two
  stores apart is sound because no operation ever places a header anywhere but at \<open>buffer_\<close>
  (theorem \<open>get_next_node_single\<close>), where no data byte is written.

  The system calls are scripts: the list of answers the kernel gives, one per call. \<open>Ret k\<close>
  to \<open>send\<close> means that the kernel accepts at most \<open>k\<close> bytes; \<open>Recv_data bs\<close> to \<open>recv\<close> means
  that the bytes \<open>bs\<close> have arrived (what does not fit the call stays for the next one), with
  \<open>Recv_data []\<close> for an orderly shutdown of the peer. The user's two data callbacks are fields
  of the state.
\<close>

section \<open>State\<close>

record buffer_node =
  nd_next :: "nat option"
  nd_prev :: "nat option"
  nd_len :: nat
  nd_offset :: nat
  nd_capacity :: nat
  nd_data :: nat

definition sizeof_BufferNode :: nat where [simp]: "sizeof_BufferNode = 48"

record edn_buffer =
  buf_bytes :: "nat \<Rightarrow> u8"
  buf_nodes :: "nat \<Rightarrow> buffer_node"
  buf_size :: nat
  buf_capacity :: nat
  opt_cb :: "nat option"
  handle_data_cb :: "u8 list \<Rightarrow> int \<Rightarrow> int"
  message_end_cb :: "u8 list \<Rightarrow> int \<Rightarrow> nat"
  high_water_mark :: int
  low_water_mark :: int
  buf_head :: "nat option"
  buf_tail :: "nat option"
  buffer_node_num :: int

datatype recv_ev = Recv_data "u8 list" | Recv_err errno

definition DefaultHandleDataCb :: "u8 list \<Rightarrow> int \<Rightarrow> int" where
  "DefaultHandleDataCb data len = len"

definition DefaultMessageEndCb :: "u8 list \<Rightarrow> int \<Rightarrow> nat" where
  "DefaultMessageEndCb data len = size_of_int len"

text \<open>The constructor; \<open>m\<close> and \<open>ns\<close> are what the uninitialised block holds.\<close>

definition EdnBuffer :: "edn_config \<Rightarrow> (nat \<Rightarrow> u8) \<Rightarrow> (nat \<Rightarrow> buffer_node) \<Rightarrow> edn_buffer" where
  "EdnBuffer cfg m ns =
     \<lparr>buf_bytes = m, buf_nodes = ns, buf_size = 0, buf_capacity = size_of_int (buffer_len cfg), opt_cb = None,
      handle_data_cb = DefaultHandleDataCb, message_end_cb = DefaultMessageEndCb,
      high_water_mark = 0, low_water_mark = 0, buf_head = None, buf_tail = None,
      buffer_node_num = 0\<rparr>"

section \<open>Nodes\<close>

text \<open>Dereferencing a node pointer is defined only if the header lies in the block.\<close>

definition node_ok :: "edn_buffer \<Rightarrow> nat \<Rightarrow> bool" where
  "node_ok b a \<longleftrightarrow> a + sizeof_BufferNode \<le> buf_capacity b"

text \<open>The data a node claims to hold lies in the block.\<close>

definition data_ok :: "edn_buffer \<Rightarrow> nat \<Rightarrow> bool" where
  "data_ok b a \<longleftrightarrow> nd_data (buf_nodes b a) + nd_offset (buf_nodes b a) + nd_len (buf_nodes b a) \<le> buf_capacity b"

definition set_node :: "nat \<Rightarrow> (buffer_node \<Rightarrow> buffer_node) \<Rightarrow> edn_buffer \<Rightarrow> edn_buffer" where
  "set_node a f b = b\<lparr>buf_nodes := (buf_nodes b)(a := f (buf_nodes b a))\<rparr>"

definition node_init :: "nat \<Rightarrow> nat \<Rightarrow> edn_buffer \<Rightarrow> fault + edn_buffer" where
  "node_init a len b =
     (if len = 0 then Inl Assert_failed
      else if \<not> node_ok b a then Inl Out_of_bounds
      else Inr (set_node a (\<lambda>n. n\<lparr>nd_len := 0, nd_data := a + sizeof_BufferNode,
                 nd_capacity := sub64 len sizeof_BufferNode, nd_offset := 0\<rparr>) b))"

text \<open>\<open>BufferNode::Write\<close> copies to \<open>data + offset\<close>, whatever \<open>len\<close> is.\<close>

definition node_write :: "nat \<Rightarrow> u8 list \<Rightarrow> edn_buffer \<Rightarrow> fault + edn_buffer" where
  "node_write a d b =
     (if d = [] then Inl Assert_failed
      else let n = buf_nodes b a; dst = nd_data n + nd_offset n in
        if buf_capacity b < dst + length d then Inl Out_of_bounds
        else Inr (set_node a (\<lambda>n. n\<lparr>nd_len := add64 (nd_len n) (length d)\<rparr>)
                   (b\<lparr>buf_bytes := write_bytes (buf_bytes b) dst d\<rparr>)))"

definition RemainSpace :: "buffer_node \<Rightarrow> int" where
  "RemainSpace n = int_of_size (sub64 (sub64 (nd_capacity n) (nd_len n)) (nd_offset n))"

text \<open>Pointer comparison; the null pointer is below every other.\<close>

definition ptr_less :: "nat option \<Rightarrow> nat option \<Rightarrow> bool" where
  "ptr_less p q = (case q of None \<Rightarrow> False | Some j \<Rightarrow> (case p of None \<Rightarrow> True | Some i \<Rightarrow> i < j))"

definition ptr_le :: "nat option \<Rightarrow> nat option \<Rightarrow> bool" where
  "ptr_le p q = (p = q \<or> ptr_less p q)"

text \<open>\<open>__GetNextBufferNode\<close>; \<open>tail_ + 1\<close> is one header behind \<open>tail_\<close>.\<close>

definition get_next_node :: "edn_buffer \<Rightarrow> nat \<Rightarrow> nat option" where
  "get_next_node b len =
     (case buf_tail b of
        None \<Rightarrow> Some 0
      | Some t \<Rightarrow>
          let n = buf_nodes b t; after = nd_data n + nd_capacity n + len in
          if ptr_less (buf_head b) (Some t) \<and> after \<le> buf_capacity b then Some (t + sizeof_BufferNode)
          else if ptr_less (buf_head b) (Some t) \<and> ptr_less (Some len) (buf_head b) then Some 0
          else if ptr_less (Some t) (buf_head b) \<and> ptr_le (Some after) (buf_head b)
            then Some (t + sizeof_BufferNode)
          else None)"

text \<open>
  \<open>head_ = node->next\<close> with the two branches that follow it in \<open>SendAtMost\<close> and \<open>__PopData\<close>.
\<close>

definition unlink_head :: "nat \<Rightarrow> edn_buffer \<Rightarrow> fault + edn_buffer" where
  "unlink_head a b =
     (case nd_next (buf_nodes b a) of
        None \<Rightarrow> Inr (b\<lparr>buf_head := None, buf_tail := None, buffer_node_num := buffer_node_num b - 1\<rparr>)
      | Some h \<Rightarrow>
          if \<not> node_ok b h then Inl Out_of_bounds
          else Inr ((set_node h (\<lambda>n. n\<lparr>nd_prev := None\<rparr>) b)
                     \<lparr>buf_head := Some h, buffer_node_num := buffer_node_num b - 1\<rparr>))"

section \<open>Write\<close>

definition buf_write :: "edn_config \<Rightarrow> u8 list \<Rightarrow> edn_buffer \<Rightarrow> fault + (int \<times> edn_buffer)" where
  "buf_write cfg d b =
    (let min_len = size_of_int (min_buffer_node_len cfg);
         node_len = max (add64 (length d) sizeof_BufferNode) min_len in
     if sub64 (buf_capacity b) (buf_size b) < node_len then Inr (EDN_ERR_BUFFER_NOT_ENOUGH, b)
     else case buf_tail b of
       None \<Rightarrow>
         (case node_init 0 node_len (b\<lparr>buf_tail := Some 0\<rparr>) of
            Inl f \<Rightarrow> Inl f
          | Inr b1 \<Rightarrow>
              (case node_write 0 d b1 of
                 Inl f \<Rightarrow> Inl f
               | Inr b2 \<Rightarrow> Inr (EDN_OK, b2\<lparr>buf_head := Some 0, buf_size := add64 (buf_size b2) (length d),
                                          buffer_node_num := 1\<rparr>)))
     | Some t \<Rightarrow>
         if \<not> node_ok b t then Inl Out_of_bounds
         else let remain = RemainSpace (buf_nodes b t) in
         if length d \<le> size_of_int remain then
           (case node_write t d b of
              Inl f \<Rightarrow> Inl f
            | Inr b1 \<Rightarrow> Inr (EDN_OK, b1\<lparr>buf_size := add64 (buf_size b1) (length d)\<rparr>))
         else let r = size_of_int remain; rdata = drop r d; rlen = sub64 (length d) r in
           (case node_write t (take r d) b of
              Inl f \<Rightarrow> Inl f
            | Inr b1 \<Rightarrow>
                (case get_next_node b1 (max (add64 rlen sizeof_BufferNode) min_len) of
                   None \<Rightarrow> Inr (EDN_ERR_BUFFER_NOT_ENOUGH, b1)
                 | Some a \<Rightarrow>
                     (case node_init a node_len b1 of
                        Inl f \<Rightarrow> Inl f
                      | Inr b2 \<Rightarrow>
                          (case node_write a rdata b2 of
                             Inl f \<Rightarrow> Inl f
                           | Inr b3 \<Rightarrow>
                               let b4 = set_node a (\<lambda>n. n\<lparr>nd_prev := Some t\<rparr>)
                                          (set_node t (\<lambda>n. n\<lparr>nd_next := Some a\<rparr>) b3)
                               in Inr (EDN_OK,
                                    b4\<lparr>buf_tail := Some a, buf_size := add64 (buf_size b4) (length d),
                                       buffer_node_num := buffer_node_num b4 + 1\<rparr>))))))"

section \<open>SendAtMost\<close>

text \<open>
  The loop of \<open>SendAtMost\<close>, one \<open>send\<close> per script entry. The result is the return value, the
  buffer, the bytes handed to the kernel and the unused answers. A node whose \<open>len\<close> is 0 is
  neither sent nor skipped: the loop repeats its state.
\<close>

fun send_loop :: "sysret list \<Rightarrow> int \<Rightarrow> nat option \<Rightarrow> edn_buffer \<Rightarrow> u8 list \<Rightarrow>
    fault + (int \<times> edn_buffer \<times> u8 list \<times> sysret list)" where
  "send_loop script num None b sent = Inr (num, b, sent, script)"
| "send_loop script num (Some a) b sent =
     (if \<not> node_ok b a then Inl Out_of_bounds
      else if nd_len (buf_nodes b a) = 0 then Inl Diverges
      else if \<not> data_ok b a then Inl Out_of_bounds
      else case script of
        [] \<Rightarrow> Inl Script_end
      | Err EAGAIN # rest \<Rightarrow> Inr (num, b, sent, rest)
      | Err EINTR # rest \<Rightarrow> send_loop rest num (Some a) b sent
      | Err _ # rest \<Rightarrow> Inr (EDN_ERR_SYS_ERROR, b, sent, rest)
      | Ret k # rest \<Rightarrow>
          let n = buf_nodes b a;
              ret = min (nat k) (nd_len n);
              out = read_bytes (buf_bytes b) (nd_data n + nd_offset n) ret;
              b1 = (set_node a (\<lambda>n. n\<lparr>nd_offset := add64 (nd_offset n) ret, nd_len := nd_len n - ret\<rparr>) b)
                     \<lparr>buf_size := sub64 (buf_size b) ret\<rparr>
          in if nd_len n - ret = 0 then
               (case unlink_head a b1 of
                  Inl f \<Rightarrow> Inl f
                | Inr b2 \<Rightarrow> send_loop rest (num + int ret) (nd_next (buf_nodes b2 a)) b2 (sent @ out))
             else send_loop rest (num + int ret) (Some a) b1 (sent @ out))"

definition SendAtMost :: "sysret list \<Rightarrow> edn_buffer \<Rightarrow>
    fault + (int \<times> edn_buffer \<times> u8 list \<times> sysret list)" where
  "SendAtMost script b = send_loop script 0 (buf_head b) b []"

section \<open>RecvAtMost\<close>

text \<open>\<open>__PopData\<close>. In its first branch \<open>len\<close> is zeroed before it is taken off \<open>size_\<close>.\<close>

primrec pop_loop :: "nat \<Rightarrow> nat option \<Rightarrow> int \<Rightarrow> edn_buffer \<Rightarrow> fault + edn_buffer" where
  "pop_loop 0 node len b = Inl Out_of_fuel"
| "pop_loop (Suc fuel) node len b =
     (if len = 0 then Inr b
      else case node of
        None \<Rightarrow> Inl Null_deref
      | Some a \<Rightarrow>
          if \<not> node_ok b a then Inl Out_of_bounds
          else let n = buf_nodes b a; ulen = size_of_int len in
          if ulen < nd_len n then
            pop_loop fuel (Some a) 0
              ((set_node a (\<lambda>n. n\<lparr>nd_len := nd_len n - ulen, nd_offset := add64 (nd_offset n) ulen\<rparr>) b)
                 \<lparr>buf_size := sub64 (buf_size b) 0\<rparr>)
          else if nd_len n = ulen then
            (case unlink_head a b of
               Inl f \<Rightarrow> Inl f
             | Inr b1 \<Rightarrow> pop_loop fuel (Some a) 0 (b1\<lparr>buf_size := sub64 (buf_size b1) (nd_len (buf_nodes b1 a))\<rparr>))
          else
            (case unlink_head a (b\<lparr>buf_size := sub64 (buf_size b) (nd_len n)\<rparr>) of
               Inl f \<Rightarrow> Inl f
             | Inr b1 \<Rightarrow> pop_loop fuel (nd_next (buf_nodes b1 a)) (int_of_size (sub64 ulen (nd_len n))) b1))"

definition PopData :: "nat \<Rightarrow> int \<Rightarrow> edn_buffer \<Rightarrow> fault + edn_buffer" where
  "PopData fuel len b = pop_loop fuel (buf_head b) len b"

datatype recv_exit = Recv_break int | Recv_return int

fun recv_weight :: "recv_ev \<Rightarrow> nat" where
  "recv_weight (Recv_data bs) = Suc (length bs)"
| "recv_weight (Recv_err e) = 1"

text \<open>
  The \<open>do\<close> loop of \<open>RecvAtMost\<close>: \<open>node_len\<close> sizes every node it starts. It leaves by \<open>break\<close>
  (the socket is drained) or by a \<open>return\<close>.
\<close>

definition recv_node :: "nat \<Rightarrow> nat option \<Rightarrow> edn_buffer \<Rightarrow> fault + (nat \<times> edn_buffer)" where
  "recv_node node_len node b =
     (case node of
        Some a \<Rightarrow> if node_ok b a then Inr (a, b) else Inl Out_of_bounds
      | None \<Rightarrow>
          (case node_init 0 node_len b of
             Inl f \<Rightarrow> Inl f
           | Inr b1 \<Rightarrow> Inr (0, b1\<lparr>buf_head := Some 0, buf_tail := Some 0\<rparr>)))"

definition link_tail :: "nat \<Rightarrow> nat \<Rightarrow> edn_buffer \<Rightarrow> fault + edn_buffer" where
  "link_tail node_len a b =
     (case node_init a node_len b of
        Inl f \<Rightarrow> Inl f
      | Inr b1 \<Rightarrow>
          (case buf_tail b1 of
             None \<Rightarrow> Inl Null_deref
           | Some t \<Rightarrow>
               let b2 = set_node a (\<lambda>n. n\<lparr>nd_prev := Some t\<rparr>) (set_node t (\<lambda>n. n\<lparr>nd_next := Some a\<rparr>) b1)
               in Inr (b2\<lparr>buf_tail := Some a, buffer_node_num := buffer_node_num b2 + 1\<rparr>)))"

function recv_loop :: "nat \<Rightarrow> recv_ev list \<Rightarrow> int \<Rightarrow> nat option \<Rightarrow> edn_buffer \<Rightarrow>
    fault + (recv_exit \<times> edn_buffer \<times> recv_ev list)" where
  "recv_loop node_len script num node b =
    (case recv_node node_len node b of
       Inl f \<Rightarrow> Inl f
     | Inr (a, b1) \<Rightarrow>
         let n = buf_nodes b1 a;
             max_read_len = size_of_int (RemainSpace n);
             dst = nd_data n + nd_offset n + nd_len n in
         (case script of
            [] \<Rightarrow> Inl Script_end
          | Recv_err EAGAIN # rest \<Rightarrow> Inr (Recv_break num, b1, rest)
          | Recv_err EINTR # rest \<Rightarrow> recv_loop node_len rest num (Some a) b1
          | Recv_err _ # rest \<Rightarrow> Inr (Recv_return EDN_ERR_SYS_ERROR, b1, rest)
          | Recv_data bs # rest \<Rightarrow>
              let got = take max_read_len bs; ret = length got;
                  rest' = (if ret < length bs then Recv_data (drop ret bs) # rest else rest) in
              if ret = 0 then Inr (Recv_return 0, b1, rest')
              else if buf_capacity b1 < dst + ret then Inl Out_of_bounds
              else let b2 = (set_node a (\<lambda>n. n\<lparr>nd_len := add64 (nd_len n) ret\<rparr>) b1)
                              \<lparr>buf_bytes := write_bytes (buf_bytes b1) dst got,
                               buf_size := add64 (buf_size b1) ret\<rparr> in
              if nd_len (buf_nodes b2 a) = nd_capacity (buf_nodes b2 a) then
                (case get_next_node b2 node_len of
                   None \<Rightarrow> Inr (Recv_return EDN_ERR_BUFFER_NOT_ENOUGH, b2, rest')
                 | Some a' \<Rightarrow>
                     (case link_tail node_len a' b2 of
                        Inl f \<Rightarrow> Inl f
                      | Inr b3 \<Rightarrow> recv_loop node_len rest' (num + int ret) (Some a') b3))
              else recv_loop node_len rest' (num + int ret) (Some a) b2))"
  by pat_completeness auto
termination
  by (relation "measure (\<lambda>(l, script, num, node, b). sum_list (map recv_weight script))")
    (auto split: if_splits)

declare recv_loop.simps [simp del]

text \<open>
  The consuming loops: \<open>tmp\<close> holds the initialised bytes of \<open>tmp_buf\<close>, which has \<open>alloc\<close>
  bytes. Every call of the data callback is recorded with the bytes it was given.
\<close>

definition end_of_message :: "edn_buffer \<Rightarrow> u8 list \<Rightarrow> int \<Rightarrow> int \<Rightarrow> int" where
  "end_of_message b tmp off len =
     int_of_size (message_end_cb b (take (nat len) (drop (nat off) tmp)) len)"

primrec consume_msgs :: "nat \<Rightarrow> u8 list \<Rightarrow> int \<Rightarrow> int \<Rightarrow> int \<Rightarrow> edn_buffer \<Rightarrow> (u8 list \<times> int) list \<Rightarrow>
    fault + (int \<times> int \<times> edn_buffer \<times> (u8 list \<times> int) list)" where
  "consume_msgs 0 tmp off len msglen b calls = Inl Out_of_fuel"
| "consume_msgs (Suc fuel) tmp off len msglen b calls =
     (if msglen \<le> 0 then Inr (off, len, b, calls)
      else if off < 0 \<or> int (length tmp) < off + msglen then Inl Out_of_bounds
      else let chunk = take (nat msglen) (drop (nat off) tmp);
               ret = handle_data_cb b chunk msglen;
               off' = off + ret; len' = len - ret in
        (case PopData fuel ret b of
           Inl f \<Rightarrow> Inl f
         | Inr b1 \<Rightarrow> consume_msgs fuel tmp off' len' (end_of_message b1 tmp off' len') b1
                        (calls @ [(chunk, ret)])))"

primrec consume_nodes :: "nat \<Rightarrow> nat \<Rightarrow> u8 list \<Rightarrow> int \<Rightarrow> int \<Rightarrow> nat option \<Rightarrow> edn_buffer \<Rightarrow>
    (u8 list \<times> int) list \<Rightarrow> fault + (edn_buffer \<times> (u8 list \<times> int) list)" where
  "consume_nodes 0 alloc tmp off len node b calls = Inl Out_of_fuel"
| "consume_nodes (Suc fuel) alloc tmp off len node b calls =
     (case node of
        None \<Rightarrow> Inr (b, calls)
      | Some a \<Rightarrow>
          if \<not> node_ok b a \<or> \<not> data_ok b a then Inl Out_of_bounds
          else let n = buf_nodes b a in
          if off + len < 0 \<or> int alloc < off + len + int (nd_len n) then Inl Out_of_bounds
          else let tmp' = take (nat (off + len)) tmp
                            @ read_bytes (buf_bytes b) (nd_data n + nd_offset n) (nd_len n);
                   len' = len + int (nd_len n) in
            (case consume_msgs fuel tmp' off len' (end_of_message b tmp' off len') b calls of
               Inl f \<Rightarrow> Inl f
             | Inr (off1, len1, b1, calls1) \<Rightarrow>
                 consume_nodes fuel alloc tmp' off1 len1 (nd_next (buf_nodes b1 a)) b1 calls1))"

text \<open>
  The whole of \<open>RecvAtMost\<close>: \<open>n\<close> is the answer of \<open>GetReadableBytes\<close>. The result is the
  return value, the buffer, the unused script and the calls of the data callback.
\<close>

definition recv_node_len :: "edn_config \<Rightarrow> int \<Rightarrow> int" where
  "recv_node_len cfg n =
     int_of_size (max (add64 (size_of_int n) sizeof_BufferNode) (size_of_int (min_buffer_node_len cfg)))"

definition recv_room :: "edn_buffer \<Rightarrow> nat" where
  "recv_room b = sub64 (sub64 (buf_capacity b) (buf_size b))
                   ((sizeof_BufferNode * size_of_int (buffer_node_num b)) mod size_max)"

definition RecvAtMost :: "edn_config \<Rightarrow> nat \<Rightarrow> int \<Rightarrow> recv_ev list \<Rightarrow> edn_buffer \<Rightarrow>
    fault + (int \<times> edn_buffer \<times> recv_ev list \<times> (u8 list \<times> int) list)" where
  "RecvAtMost cfg fuel n script b =
    (let node_len = size_of_int (recv_node_len cfg n) in
     if recv_room b < node_len then Inr (EDN_ERR_BUFFER_NOT_ENOUGH, b, script, [])
     else case recv_loop node_len script 0 (buf_tail b) b of
       Inl f \<Rightarrow> Inl f
     | Inr (Recv_return code, b1, rest) \<Rightarrow> Inr (code, b1, rest, [])
     | Inr (Recv_break num, b1, rest) \<Rightarrow>
         (case consume_nodes fuel (buf_size b1) [] 0 0 (buf_head b1) b1 [] of
            Inl f \<Rightarrow> Inl f
          | Inr (b2, calls) \<Rightarrow> Inr (num, b2, rest, calls)))"

section \<open>Accessors and callbacks\<close>

definition SetCallback_opt :: "nat option \<Rightarrow> edn_buffer \<Rightarrow> edn_buffer" where
  "SetCallback_opt cb b = b\<lparr>opt_cb := cb\<rparr>"

definition SetCallback_handle :: "(u8 list \<Rightarrow> int \<Rightarrow> int) \<Rightarrow> edn_buffer \<Rightarrow> edn_buffer" where
  "SetCallback_handle cb b = b\<lparr>handle_data_cb := cb\<rparr>"

definition SetCallback_end :: "(u8 list \<Rightarrow> int \<Rightarrow> nat) \<Rightarrow> edn_buffer \<Rightarrow> edn_buffer" where
  "SetCallback_end cb b = b\<lparr>message_end_cb := cb\<rparr>"

text \<open>\<open>CallBack\<close>: the callback that runs, with its argument, if one is set.\<close>

definition CallBack :: "edn_error \<Rightarrow> edn_buffer \<Rightarrow> (nat \<times> edn_error) list" where
  "CallBack err b = (case opt_cb b of None \<Rightarrow> [] | Some c \<Rightarrow> [(c, err)])"

definition GetSize :: "edn_buffer \<Rightarrow> int" where
  "GetSize b = int_of_size (buf_size b)"

definition GetCapacity :: "edn_buffer \<Rightarrow> int" where
  "GetCapacity b = int_of_size (buf_capacity b)"

definition GetLowWaterMark :: "edn_buffer \<Rightarrow> int" where
  "GetLowWaterMark b = low_water_mark b"

definition GetHighWaterMark :: "edn_buffer \<Rightarrow> int" where
  "GetHighWaterMark b = high_water_mark b"

end
