(* ===== verification/Edn_Buffer_Send.thy ===== *)
theory Edn_Buffer_Send
  imports Edn_Buffer
begin

text \<open>
  The sending side of \<open>EdnBuffer\<close>: the single-node invariant, what \<open>Write\<close> does to the
  content, and \<open>SendAtMost\<close> as a transmitter of a prefix of the content.
\<close>

section \<open>The single-node invariant\<close>

definition wf_config :: "edn_config \<Rightarrow> bool" where
  "wf_config cfg \<longleftrightarrow> 48 < min_buffer_node_len cfg \<and> min_buffer_node_len cfg \<le> buffer_len cfg
     \<and> buffer_len cfg < 1073741824"

definition node_wf :: "nat \<Rightarrow> buffer_node \<Rightarrow> bool" where
  "node_wf cap n \<longleftrightarrow> nd_data n = 48 \<and> nd_len n + nd_offset n \<le> nd_capacity n
     \<and> nd_capacity n + 48 \<le> cap"

definition buf_inv :: "edn_buffer \<Rightarrow> bool" where
  "buf_inv b \<longleftrightarrow> 48 < buf_capacity b \<and> buf_capacity b < 1073741824
     \<and> nd_next (buf_nodes b 0) = None
     \<and> (buf_head b = None \<and> buf_tail b = None
        \<or> buf_head b = Some 0 \<and> buf_tail b = Some 0 \<and> node_wf (buf_capacity b) (buf_nodes b 0))"

text \<open>The bytes a buffer holds, as its reader sees them.\<close>

definition content :: "edn_buffer \<Rightarrow> u8 list" where
  "content b = (case buf_head b of
       None \<Rightarrow> []
     | Some a \<Rightarrow> let n = buf_nodes b a in read_bytes (buf_bytes b) (nd_data n + nd_offset n) (nd_len n))"

text \<open>No node waits in an output buffer with nothing to send.\<close>

definition out_inv :: "edn_buffer \<Rightarrow> bool" where
  "out_inv b \<longleftrightarrow> buf_inv b \<and> (buf_head b \<noteq> None \<longrightarrow> content b \<noteq> [])"

definition accounted :: "edn_buffer \<Rightarrow> bool" where
  "accounted b \<longleftrightarrow> buf_size b = length (content b)"

lemma default_config_wf [simp]: "wf_config default_config"
  by (simp add: wf_config_def default_config_def)

lemma wf_configD:
  assumes "wf_config cfg"
  shows "48 < size_of_int (min_buffer_node_len cfg)"
    "size_of_int (min_buffer_node_len cfg) \<le> size_of_int (buffer_len cfg)"
    "size_of_int (buffer_len cfg) < 1073741824"
  using assms by (auto simp: wf_config_def)

lemma content_None: "buf_head b = None \<Longrightarrow> content b = []"
  by (simp add: content_def)

lemma content_Some:
  "buf_head b = Some a \<Longrightarrow>
     content b = read_bytes (buf_bytes b) (nd_data (buf_nodes b a) + nd_offset (buf_nodes b a))
                   (nd_len (buf_nodes b a))"
  by (simp add: content_def Let_def)

lemma buf_inv_tail: "buf_inv b \<Longrightarrow> buf_tail b = buf_head b"
  by (auto simp: buf_inv_def)

lemma buf_inv_cases:
  assumes "buf_inv b"
  obtains (empty) "buf_head b = None" "buf_tail b = None"
  | (node) "buf_head b = Some 0" "buf_tail b = Some 0" "node_wf (buf_capacity b) (buf_nodes b 0)"
  using assms by (auto simp: buf_inv_def)

lemma buf_inv_cap: "buf_inv b \<Longrightarrow> 48 < buf_capacity b" "buf_inv b \<Longrightarrow> buf_capacity b < 1073741824"
  by (auto simp: buf_inv_def)

lemma buf_inv_next: "buf_inv b \<Longrightarrow> nd_next (buf_nodes b 0) = None"
  by (auto simp: buf_inv_def)

lemma node_ok_0: "buf_inv b \<Longrightarrow> node_ok b 0"
  by (simp add: buf_inv_def node_ok_def)

lemma length_content_0: "buf_inv b \<Longrightarrow> buf_head b = Some 0 \<Longrightarrow> length (content b) = nd_len (buf_nodes b 0)"
  by (simp add: content_Some)

lemma content_at_0:
  "buf_inv b \<Longrightarrow> buf_head b = Some 0 \<Longrightarrow>
     content b = read_bytes (buf_bytes b) (48 + nd_offset (buf_nodes b 0)) (nd_len (buf_nodes b 0))"
  by (auto simp: content_Some buf_inv_def node_wf_def)

lemma set_node_sel [simp]:
  "buf_nodes (set_node a f b) = (buf_nodes b)(a := f (buf_nodes b a))"
  "buf_bytes (set_node a f b) = buf_bytes b" "buf_size (set_node a f b) = buf_size b"
  "buf_capacity (set_node a f b) = buf_capacity b" "buf_head (set_node a f b) = buf_head b"
  "buf_tail (set_node a f b) = buf_tail b" "buffer_node_num (set_node a f b) = buffer_node_num b"
  "opt_cb (set_node a f b) = opt_cb b" "handle_data_cb (set_node a f b) = handle_data_cb b"
  "message_end_cb (set_node a f b) = message_end_cb b"
  "low_water_mark (set_node a f b) = low_water_mark b"
  by (simp_all add: set_node_def)

lemma node_ok_set_node [simp]: "node_ok (set_node a f b) i = node_ok b i"
  by (simp add: node_ok_def)

lemma node_ok_upd [simp]:
  "node_ok (b\<lparr>buf_size := s\<rparr>) i = node_ok b i" "node_ok (b\<lparr>buf_tail := t\<rparr>) i = node_ok b i"
  "node_ok (b\<lparr>buf_head := t\<rparr>) i = node_ok b i" "node_ok (b\<lparr>buf_bytes := m\<rparr>) i = node_ok b i"
  "node_ok (b\<lparr>buffer_node_num := k\<rparr>) i = node_ok b i"
  by (simp_all add: node_ok_def)

section \<open>Nodes are never chained\<close>

lemma get_next_node_single:
  "buf_head b = Some t \<Longrightarrow> buf_tail b = Some t \<Longrightarrow> get_next_node b len = None"
  by (simp add: get_next_node_def ptr_less_def)

lemma unlink_head_single:
  "nd_next (buf_nodes b a) = None \<Longrightarrow>
     unlink_head a b = Inr (b\<lparr>buf_head := None, buf_tail := None,
                              buffer_node_num := buffer_node_num b - 1\<rparr>)"
  by (simp add: unlink_head_def)

lemma EdnBuffer_inv:
  "wf_config cfg \<Longrightarrow> nd_next (ns 0) = None \<Longrightarrow>
     out_inv (EdnBuffer cfg m ns) \<and> accounted (EdnBuffer cfg m ns)"
  using wf_configD [of cfg]
  by (auto simp: out_inv_def buf_inv_def EdnBuffer_def accounted_def content_def)

section \<open>Write\<close>

lemma RemainSpace_wf:
  assumes "node_wf cap n" "cap < 1073741824"
  shows "RemainSpace n = int (nd_capacity n - nd_len n - nd_offset n)"
    "size_of_int (RemainSpace n) = nd_capacity n - nd_len n - nd_offset n"
  using assms by (auto simp: RemainSpace_def node_wf_def)

text \<open>The first write: a node is started at \<open>buffer_\<close> and holds exactly the data.\<close>

lemma buf_write_first:
  assumes "wf_config cfg" "buf_inv b" "buf_head b = None" "d \<noteq> []" "length d < 2147483648"
    and nl: "nl = max (length d + 48) (size_of_int (min_buffer_node_len cfg))"
    and fits: "nl \<le> buf_capacity b - buf_size b" "buf_size b \<le> buf_capacity b"
  shows "\<exists>b'. buf_write cfg d b = Inr (EDN_OK, b') \<and> buf_inv b' \<and> content b' = d
      \<and> buf_head b' = Some 0 \<and> buf_size b' = buf_size b + length d
      \<and> nd_capacity (buf_nodes b' 0) = nl - 48 \<and> nd_offset (buf_nodes b' 0) = 0
      \<and> buffer_node_num b' = 1
      \<and> buf_bytes b' = write_bytes (buf_bytes b) 48 d"
proof -
  note w = wf_configD [OF assms(1)]
  have cap: "48 < buf_capacity b" "buf_capacity b < 1073741824"
    using assms(2) by (auto dest: buf_inv_cap)
  have tail: "buf_tail b = None" using assms(2,3) by (simp add: buf_inv_tail)
  have nl_le: "nl \<le> buf_capacity b" "48 < nl" using fits nl w by auto
  have m: "max (add64 (length d) sizeof_BufferNode) (size_of_int (min_buffer_node_len cfg)) = nl"
    using nl assms(5) by simp
  have len: "length d + 48 \<le> nl" using nl by simp
  show ?thesis
    using assms(2,3,4) nl_le len cap fits tail
    unfolding buf_write_def Let_def m
    by (auto simp: node_init_def node_write_def node_ok_def Let_def buf_inv_def node_wf_def
        content_Some read_bytes_def [symmetric])
qed

text \<open>An append that fits the node: the bytes go over the unsent ones.\<close>

lemma buf_write_append:
  assumes "wf_config cfg" "buf_inv b" "buf_head b = Some 0" "d \<noteq> []" "length d < 2147483648"
    and room: "max (length d + 48) (size_of_int (min_buffer_node_len cfg)) \<le> sub64 (buf_capacity b) (buf_size b)"
    and fits: "nd_len (buf_nodes b 0) + nd_offset (buf_nodes b 0) + length d \<le> nd_capacity (buf_nodes b 0)"
  shows "\<exists>b'. buf_write cfg d b = Inr (EDN_OK, b') \<and> buf_inv b'
      \<and> content b' = d @ drop (length d)
           (content b @ read_bytes (buf_bytes b)
              (48 + nd_offset (buf_nodes b 0) + nd_len (buf_nodes b 0)) (length d))
      \<and> buf_head b' = Some 0 \<and> buf_size b' = add64 (buf_size b) (length d)"
proof -
  let ?n = "buf_nodes b 0"
  have cap: "48 < buf_capacity b" "buf_capacity b < 1073741824"
    using assms(2) by (auto dest: buf_inv_cap)
  have tail: "buf_tail b = Some 0" using assms(2,3) by (simp add: buf_inv_tail)
  have wf: "node_wf (buf_capacity b) ?n" using assms(2,3) by (auto simp: buf_inv_def)
  note rs = RemainSpace_wf [OF wf cap(2)]
  have data: "nd_data ?n = 48" using wf by (simp add: node_wf_def)
  let ?b' = "(set_node 0 (\<lambda>n. n\<lparr>nd_len := nd_len n + length d\<rparr>)
       (b\<lparr>buf_bytes := write_bytes (buf_bytes b) (48 + nd_offset ?n) d\<rparr>))
         \<lparr>buf_size := add64 (buf_size b) (length d)\<rparr>"
  have "buf_write cfg d b = Inr (EDN_OK, ?b')"
    using assms(2-5) room fits tail wf cap
    by (auto simp: buf_write_def Let_def node_ok_def rs node_write_def data node_wf_def set_node_def)
  moreover have "buf_inv ?b'"
    using assms(2,3) fits by (auto simp: buf_inv_def node_wf_def)
  moreover have "content ?b' = d @ drop (length d)
           (content b @ read_bytes (buf_bytes b) (48 + nd_offset ?n + nd_len ?n) (length d))"
  proof -
    have "content ?b' = read_bytes (write_bytes (buf_bytes b) (48 + nd_offset ?n) d)
            (48 + nd_offset ?n) (length d + nd_len ?n)"
      using assms(3) data by (simp add: content_Some add.commute)
    also have "\<dots> = d @ read_bytes (buf_bytes b) (48 + nd_offset ?n + length d) (nd_len ?n)"
      by (simp only: read_write_prefix)
    also have "read_bytes (buf_bytes b) (48 + nd_offset ?n + length d) (nd_len ?n) =
        drop (length d) (read_bytes (buf_bytes b) (48 + nd_offset ?n) (nd_len ?n + length d))"
      by (simp add: read_bytes_drop)
    also have "read_bytes (buf_bytes b) (48 + nd_offset ?n) (nd_len ?n + length d) =
        content b @ read_bytes (buf_bytes b) (48 + nd_offset ?n + nd_len ?n) (length d)"
      using assms(2,3) by (simp add: read_bytes_add content_at_0)
    finally show ?thesis .
  qed
  ultimately show ?thesis using assms(3) by auto
qed

text \<open>
  A write larger than the room left in the node: the room is filled, no second node is found,
  and the error is returned without undoing the copy or counting it in \<open>size_\<close>. With no room
  left the assertion of \<open>BufferNode::Write\<close> fails.
\<close>

lemma buf_write_overflow:
  assumes "wf_config cfg" "buf_inv b" "buf_head b = Some 0" "length d < 2147483648"
    and room: "max (length d + 48) (size_of_int (min_buffer_node_len cfg)) \<le> sub64 (buf_capacity b) (buf_size b)"
    and r: "r = nd_capacity (buf_nodes b 0) - nd_len (buf_nodes b 0) - nd_offset (buf_nodes b 0)"
    and big: "r < length d"
  shows "r = 0 \<Longrightarrow> buf_write cfg d b = Inl Assert_failed"
    and "0 < r \<Longrightarrow> \<exists>b'. buf_write cfg d b = Inr (EDN_ERR_BUFFER_NOT_ENOUGH, b') \<and> buf_inv b'
      \<and> buf_head b' = Some 0 \<and> buf_size b' = buf_size b
      \<and> length (content b') = length (content b) + r
      \<and> buf_nodes b' = (buf_nodes b)(0 := (buf_nodes b 0)\<lparr>nd_len := nd_len (buf_nodes b 0) + r\<rparr>)
      \<and> buf_capacity b' = buf_capacity b"
proof -
  let ?n = "buf_nodes b 0"
  have cap: "48 < buf_capacity b" "buf_capacity b < 1073741824"
    using assms(2) by (auto dest: buf_inv_cap)
  have tail: "buf_tail b = Some 0" using assms(2,3) by (simp add: buf_inv_tail)
  have wf: "node_wf (buf_capacity b) ?n" using assms(2,3) by (auto simp: buf_inv_def)
  note rs = RemainSpace_wf [OF wf cap(2), folded r]
  have data: "nd_data ?n = 48" using wf by (simp add: node_wf_def)
  have le: "r + nd_len ?n + nd_offset ?n \<le> nd_capacity ?n" "nd_capacity ?n + 48 \<le> buf_capacity b"
    using wf r by (auto simp: node_wf_def)
  show "buf_write cfg d b = Inl Assert_failed" if "r = 0"
    using that assms(2-4) room big tail
    by (auto simp: buf_write_def Let_def node_ok_def rs node_write_def buf_inv_def)
  show "\<exists>b'. buf_write cfg d b = Inr (EDN_ERR_BUFFER_NOT_ENOUGH, b') \<and> buf_inv b'
      \<and> buf_head b' = Some 0 \<and> buf_size b' = buf_size b
      \<and> length (content b') = length (content b) + r
      \<and> buf_nodes b' = (buf_nodes b)(0 := (buf_nodes b 0)\<lparr>nd_len := nd_len (buf_nodes b 0) + r\<rparr>)
      \<and> buf_capacity b' = buf_capacity b" if "0 < r"
  proof -
    let ?b' = "set_node 0 (\<lambda>n. n\<lparr>nd_len := nd_len n + r\<rparr>)
         (b\<lparr>buf_bytes := write_bytes (buf_bytes b) (48 + nd_offset ?n) (take r d)\<rparr>)"
    have w: "node_write 0 (take r d) b = Inr ?b'"
      using that le cap big by (auto simp: node_write_def data Let_def set_node_def)
    have g: "get_next_node ?b' l = None" for l
      by (rule get_next_node_single [where t = 0]) (simp_all add: assms(3) tail)
    have guard: "\<not> sub64 (buf_capacity b) (buf_size b) <
        max (add64 (length d) sizeof_BufferNode) (size_of_int (min_buffer_node_len cfg))"
      using room assms(4) by (simp add: not_less)
    have big': "\<not> length d \<le> r" using big by simp
    have "buf_write cfg d b = Inr (EDN_ERR_BUFFER_NOT_ENOUGH, ?b')"
      unfolding buf_write_def Let_def if_not_P [OF guard] tail option.case rs(2) if_not_P [OF big']
      using node_ok_0 [OF assms(2)] by (simp add: w g)
    moreover have "buf_inv ?b'"
      using assms(2,3) le by (auto simp: buf_inv_def node_wf_def)
    ultimately show ?thesis using assms(3) by (simp add: content_Some set_node_def)
  qed
qed

text \<open>The guard of \<open>Write\<close>: no room for the data and a header.\<close>

lemma buf_write_no_room:
  "sub64 (buf_capacity b) (buf_size b) <
     max (add64 (length d) sizeof_BufferNode) (size_of_int (min_buffer_node_len cfg)) \<Longrightarrow>
   buf_write cfg d b = Inr (EDN_ERR_BUFFER_NOT_ENOUGH, b)"
  by (simp add: buf_write_def Let_def)

text \<open>Every call of \<open>Write\<close> on a well-formed buffer is one of these cases.\<close>

lemma buf_write_cases:
  assumes "wf_config cfg" "buf_inv b" "d \<noteq> []" "length d < 2147483648"
    and "buf_size b \<le> buf_capacity b"
  obtains (no_room) "buf_write cfg d b = Inr (EDN_ERR_BUFFER_NOT_ENOUGH, b)"
  | (first) b' where "buf_head b = None" "buf_write cfg d b = Inr (EDN_OK, b')" "buf_inv b'"
      "content b' = d" "buf_head b' = Some 0" "buf_size b' = buf_size b + length d"
  | (append) b' where "buf_head b = Some 0" "buf_write cfg d b = Inr (EDN_OK, b')" "buf_inv b'"
      "buf_head b' = Some 0" "content b' = d @ drop (length d)
           (content b @ read_bytes (buf_bytes b)
              (48 + nd_offset (buf_nodes b 0) + nd_len (buf_nodes b 0)) (length d))"
      "buf_size b' = buf_size b + length d"
  | (full) "buf_head b = Some 0" "buf_write cfg d b = Inl Assert_failed"
  | (partial) b' where "buf_head b = Some 0" "buf_write cfg d b = Inr (EDN_ERR_BUFFER_NOT_ENOUGH, b')"
      "buf_inv b'" "buf_head b' = Some 0" "buf_size b' = buf_size b"
      "length (content b) < length (content b')"
proof -
  let ?nl = "max (length d + 48) (size_of_int (min_buffer_node_len cfg))"
  let ?n = "buf_nodes b 0"
  let ?r = "nd_capacity ?n - nd_len ?n - nd_offset ?n"
  have cap: "buf_capacity b < 1073741824" using assms(2) by (auto dest: buf_inv_cap)
  have s: "sub64 (buf_capacity b) (buf_size b) = buf_capacity b - buf_size b"
    using assms(5) cap by simp
  show thesis
  proof (cases "?nl \<le> buf_capacity b - buf_size b")
    case False
    then show thesis
      using assms(4) by (intro no_room buf_write_no_room) (auto simp: s not_le less_max_iff_disj)
  next
    case room: True
    note room' = room [folded s]
    from assms(2) show thesis
    proof (cases rule: buf_inv_cases)
      case empty
      with buf_write_first [OF assms(1,2) _ assms(3,4) refl room assms(5)] show thesis
        by (auto intro: first)
    next
      case node
      show thesis
      proof (cases "?r < length d")
        case True
        show thesis
        proof (cases "?r = 0")
          case r0: True
          from buf_write_overflow(1) [OF assms(1,2) node(1) assms(4) room' refl True r0] show thesis
            by (intro full node(1))
        next
          case False
          then have "0 < ?r" by simp
          from buf_write_overflow(2) [OF assms(1,2) node(1) assms(4) room' refl True this]
          obtain b' where b': "buf_write cfg d b = Inr (EDN_ERR_BUFFER_NOT_ENOUGH, b')" "buf_inv b'"
              "buf_head b' = Some 0" "buf_size b' = buf_size b"
              "length (content b') = length (content b) + ?r" by blast
          moreover have "length (content b) < length (content b')" using b'(5) \<open>0 < ?r\<close> by linarith
          ultimately show thesis by (intro partial [OF node(1)])
        qed
      next
        case False
        then have "nd_len ?n + nd_offset ?n + length d \<le> nd_capacity ?n"
          using node(3) by (auto simp: node_wf_def)
        moreover have "add64 (buf_size b) (length d) = buf_size b + length d"
          using assms(4,5) cap by (intro add64_small) simp
        ultimately show thesis
          using buf_write_append [OF assms(1,2) node(1) assms(3,4) room'] append [OF node(1)]
          by (elim exE conjE meta_impE) auto
      qed
    qed
  qed
qed

section \<open>SendAtMost\<close>

definition send_ok :: "edn_buffer \<Rightarrow> nat \<Rightarrow> bool" where
  "send_ok b a \<longleftrightarrow> node_ok b a \<and> data_ok b a"

lemma data_ok_0: "buf_inv b \<Longrightarrow> buf_head b = Some 0 \<Longrightarrow> data_ok b 0"
  by (auto simp: data_ok_def buf_inv_def node_wf_def)

lemma send_ok_0: "buf_inv b \<Longrightarrow> buf_head b = Some 0 \<Longrightarrow> send_ok b 0"
  by (simp add: send_ok_def node_ok_0 data_ok_0)

text \<open>One iteration of the loop, by the answer of \<open>send\<close>.\<close>

lemma send_loop_step:
  assumes "send_ok b a" "nd_len (buf_nodes b a) \<noteq> 0"
  shows "send_loop [] num (Some a) b sent = Inl Script_end"
    and "send_loop (Err EAGAIN # rest) num (Some a) b sent = Inr (num, b, sent, rest)"
    and "send_loop (Err EINTR # rest) num (Some a) b sent = send_loop rest num (Some a) b sent"
    and "e \<noteq> EAGAIN \<Longrightarrow> e \<noteq> EINTR \<Longrightarrow>
           send_loop (Err e # rest) num (Some a) b sent = Inr (EDN_ERR_SYS_ERROR, b, sent, rest)"
    and "ret = min (nat k) (nd_len (buf_nodes b a)) \<Longrightarrow>
         out = read_bytes (buf_bytes b) (nd_data (buf_nodes b a) + nd_offset (buf_nodes b a)) ret \<Longrightarrow>
         b1 = (set_node a (\<lambda>n. n\<lparr>nd_offset := add64 (nd_offset n) ret, nd_len := nd_len n - ret\<rparr>) b)
                \<lparr>buf_size := sub64 (buf_size b) ret\<rparr> \<Longrightarrow>
         send_loop (Ret k # rest) num (Some a) b sent =
          (if nd_len (buf_nodes b a) - ret = 0 then
             (case unlink_head a b1 of
                Inl f \<Rightarrow> Inl f
              | Inr b2 \<Rightarrow> send_loop rest (num + int ret) (nd_next (buf_nodes b2 a)) b2 (sent @ out))
           else send_loop rest (num + int ret) (Some a) b1 (sent @ out))"
  using assms by (auto simp: send_ok_def Let_def split: errno.split)

declare send_loop.simps(2) [simp del]

lemma send_loop_spec:
  assumes "buf_inv b" "buf_head b = Some 0" "content b \<noteq> []"
    and "send_loop script num (Some 0) b sent = Inr (ret, b', out, rest)"
  shows "\<exists>new. out = sent @ new \<and> new @ content b' = content b \<and> out_inv b'
      \<and> (ret = EDN_ERR_SYS_ERROR \<or> ret = num + int (length new))
      \<and> (length (content b) \<le> buf_size b \<and> buf_size b < size_max
           \<longrightarrow> buf_size b' = buf_size b - length new)"
  using assms
proof (induction script arbitrary: num b sent)
  case Nil
  then have "nd_len (buf_nodes b 0) \<noteq> 0" by (cases "nd_len (buf_nodes b 0)") (auto simp: content_Some)
  with Nil show ?case by (simp add: send_loop_step send_ok_0)
next
  case (Cons e script)
  let ?n = "buf_nodes b 0"
  have pos: "nd_len ?n \<noteq> 0" using Cons.prems(2,3) by (cases "nd_len ?n") (auto simp: content_Some)
  have inv: "out_inv b" using Cons.prems by (simp add: out_inv_def)
  show ?case
  proof (cases e)
    case (Err x)
    show ?thesis
    proof (cases "x = EINTR")
      case True
      with Err Cons pos show ?thesis by (simp add: send_ok_0 send_loop_step)
    next
      case False
      with Err Cons.prems pos inv show ?thesis
        by (cases "x = EAGAIN") (auto simp: send_ok_0 send_loop_step)
    qed
  next
    case (Ret k)
    define ret1 where "ret1 = min (nat k) (nd_len ?n)"
    define o1 where "o1 = read_bytes (buf_bytes b) (nd_data ?n + nd_offset ?n) ret1"
    define b1 where "b1 = (set_node 0 (\<lambda>n. n\<lparr>nd_offset := add64 (nd_offset n) ret1, nd_len := nd_len n - ret1\<rparr>) b)
                            \<lparr>buf_size := sub64 (buf_size b) ret1\<rparr>"
    have le: "ret1 \<le> nd_len ?n" by (simp add: ret1_def)
    have wf: "node_wf (buf_capacity b) ?n" and cap: "buf_capacity b < 1073741824"
      using Cons.prems by (auto simp: buf_inv_def)
    have inv1: "buf_inv b1"
      using Cons.prems(1,2) le wf by (auto simp: b1_def buf_inv_def node_wf_def)
    have head1: "buf_head b1 = Some 0" using Cons.prems by (simp add: b1_def)
    have split: "o1 @ content b1 = content b"
      using Cons.prems(2) head1 le wf cap read_bytes_add [of "buf_bytes b" _ ret1 "nd_len ?n - ret1"]
      by (simp add: o1_def content_Some b1_def node_wf_def add.assoc)
    have lo: "length o1 = ret1" by (simp add: o1_def)
    have size1: "length (content b) \<le> buf_size b \<and> buf_size b < size_max \<longrightarrow>
        buf_size b1 = buf_size b - ret1 \<and> length (content b1) \<le> buf_size b1 \<and> buf_size b1 < size_max"
    proof
      assume h: "length (content b) \<le> buf_size b \<and> buf_size b < size_max"
      have "length (content b) = ret1 + length (content b1)"
        using arg_cong [OF split, of length] lo by simp
      moreover from this h have "buf_size b1 = buf_size b - ret1" by (simp add: b1_def)
      ultimately show "buf_size b1 = buf_size b - ret1 \<and> length (content b1) \<le> buf_size b1
          \<and> buf_size b1 < size_max"
        using h by linarith
    qed
    have unf: "send_loop (e # script) num (Some 0) b sent =
        (if nd_len ?n - ret1 = 0 then
           (case unlink_head 0 b1 of Inl f \<Rightarrow> Inl f
            | Inr b2 \<Rightarrow> send_loop script (num + int ret1) (nd_next (buf_nodes b2 0)) b2 (sent @ o1))
         else send_loop script (num + int ret1) (Some 0) b1 (sent @ o1))"
      unfolding Ret by (rule send_loop_step(5) [OF send_ok_0 [OF Cons.prems(1,2)] pos ret1_def o1_def b1_def])
    show ?thesis
    proof (cases "nd_len ?n - ret1 = 0")
      case True
      have u: "unlink_head 0 b1 = Inr (b1\<lparr>buf_head := None, buf_tail := None,
                 buffer_node_num := buffer_node_num b1 - 1\<rparr>)"
        by (rule unlink_head_single) (rule buf_inv_next [OF inv1])
      have "content b1 = []" using head1 True by (simp add: content_Some b1_def)
      moreover have "out_inv b'" "content b' = []" "buf_size b' = buf_size b1"
          "out = sent @ o1" "ret = num + int ret1"
        using Cons.prems(4) True u inv1 buf_inv_next [OF inv1]
        by (auto simp: unf out_inv_def buf_inv_def content_None)
      ultimately show ?thesis using split size1 lo by auto
    next
      case False
      have "length (content b1) = nd_len ?n - ret1" using head1 by (simp add: content_Some b1_def)
      with False have "content b1 \<noteq> []" by auto
      with Cons.IH [OF inv1 head1, of "num + int ret1" "sent @ o1"] Cons.prems(4) False
      obtain new where new: "out = (sent @ o1) @ new" "new @ content b' = content b1" "out_inv b'"
          "ret = EDN_ERR_SYS_ERROR \<or> ret = num + int ret1 + int (length new)"
          "length (content b1) \<le> buf_size b1 \<and> buf_size b1 < size_max
             \<longrightarrow> buf_size b' = buf_size b1 - length new"
        by (auto simp: unf)
      show ?thesis
        using new split size1 lo by (intro exI [of _ "o1 @ new"]) auto
    qed
  qed
qed

text \<open>The only way \<open>SendAtMost\<close> does not return is that the kernel is asked once more than scripted.\<close>

definition productive :: "sysret \<Rightarrow> bool" where
  "productive r = (case r of Ret k \<Rightarrow> 0 < k | Err e \<Rightarrow> e \<noteq> EINTR)"

lemma productive_simps [simp]: "productive (Ret k) = (0 < k)" "productive (Err e) = (e \<noteq> EINTR)"
  by (simp_all add: productive_def)

lemma send_loop_returns:
  assumes "buf_inv b" "buf_head b = Some 0" "content b \<noteq> []"
    and "length (content b) \<le> length (filter productive script)"
  shows "is_inr (send_loop script num (Some 0) b sent)"
  using assms
proof (induction script arbitrary: num b sent)
  case Nil
  then show ?case by simp
next
  case (Cons e script)
  let ?n = "buf_nodes b 0"
  have pos: "nd_len ?n \<noteq> 0" using Cons.prems(2,3) by (cases "nd_len ?n") (auto simp: content_Some)
  note ok = send_ok_0 [OF Cons.prems(1,2)]
  show ?case
  proof (cases e)
    case (Err x)
    show ?thesis
    proof (cases "x = EINTR")
      case True
      have "is_inr (send_loop script num (Some 0) b sent)"
        using Cons.prems Err True by (intro Cons.IH) auto
      then show ?thesis using Err True by (simp add: send_loop_step [OF ok pos])
    next
      case False
      with Err show ?thesis by (cases "x = EAGAIN") (auto simp: send_loop_step [OF ok pos])
    qed
  next
    case (Ret k)
    define ret1 where "ret1 = min (nat k) (nd_len ?n)"
    define o1 where "o1 = read_bytes (buf_bytes b) (nd_data ?n + nd_offset ?n) ret1"
    define b1 where "b1 = (set_node 0 (\<lambda>n. n\<lparr>nd_offset := add64 (nd_offset n) ret1, nd_len := nd_len n - ret1\<rparr>) b)
                            \<lparr>buf_size := sub64 (buf_size b) ret1\<rparr>"
    have le: "ret1 \<le> nd_len ?n" by (simp add: ret1_def)
    have wf: "node_wf (buf_capacity b) ?n" and cap: "buf_capacity b < 1073741824"
      using Cons.prems by (auto simp: buf_inv_def)
    have inv1: "buf_inv b1"
      using Cons.prems(1,2) le wf by (auto simp: b1_def buf_inv_def node_wf_def)
    have head1: "buf_head b1 = Some 0" using Cons.prems by (simp add: b1_def)
    note unf = send_loop_step(5) [OF ok pos ret1_def o1_def b1_def, of script num sent]
    show ?thesis
    proof (cases "nd_len ?n - ret1 = 0")
      case True
      have "unlink_head 0 b1 = Inr (b1\<lparr>buf_head := None, buf_tail := None,
                 buffer_node_num := buffer_node_num b1 - 1\<rparr>)"
        by (rule unlink_head_single) (rule buf_inv_next [OF inv1])
      then show ?thesis using Ret True buf_inv_next [OF inv1] by (simp add: unf)
    next
      case False
      have len1: "length (content b1) = nd_len ?n - ret1" using head1 by (simp add: content_Some b1_def)
      have len0: "length (content b) = nd_len ?n" using Cons.prems by (simp add: content_Some)
      have "nd_len ?n - ret1 \<le> length (filter productive script)"
      proof (cases "0 < k")
        case True
        then have "0 < ret1" using pos by (simp add: ret1_def)
        then show ?thesis using Cons.prems(4) Ret True len0 by simp
      next
        case False
        then show ?thesis using Cons.prems(4) Ret len0 by simp
      qed
      with len1 False have "is_inr (send_loop script (num + int ret1) (Some 0) b1 (sent @ o1))"
        by (intro Cons.IH inv1 head1) auto
      then show ?thesis using Ret False by (simp add: unf)
    qed
  qed
qed

lemma SendAtMost_None: "buf_head b = None \<Longrightarrow> SendAtMost script b = Inr (0, b, [], script)"
  by (simp add: SendAtMost_def)

lemma SendAtMost_spec:
  assumes "out_inv b" "SendAtMost script b = Inr (ret, b', out, rest)"
  shows "out @ content b' = content b" "out_inv b'"
    "ret = EDN_ERR_SYS_ERROR \<or> ret = int (length out)"
    "length (content b) \<le> buf_size b \<Longrightarrow> buf_size b < size_max \<Longrightarrow> buf_size b' = buf_size b - length out"
proof -
  have inv: "buf_inv b" using assms(1) by (simp add: out_inv_def)
  have "out @ content b' = content b \<and> out_inv b' \<and> (ret = EDN_ERR_SYS_ERROR \<or> ret = int (length out))
     \<and> (length (content b) \<le> buf_size b \<and> buf_size b < size_max \<longrightarrow> buf_size b' = buf_size b - length out)"
    using inv
  proof (cases rule: buf_inv_cases)
    case empty
    with assms show ?thesis by (auto simp: SendAtMost_None)
  next
    case node
    with assms have "content b \<noteq> []" by (simp add: out_inv_def)
    with send_loop_spec [OF inv node(1) this, of script 0 "[]" ret b' out rest] assms(2) node(1)
    show ?thesis by (auto simp: SendAtMost_def)
  qed
  then show "out @ content b' = content b" "out_inv b'"
    "ret = EDN_ERR_SYS_ERROR \<or> ret = int (length out)"
    "length (content b) \<le> buf_size b \<Longrightarrow> buf_size b < size_max \<Longrightarrow> buf_size b' = buf_size b - length out"
    by blast+
qed

lemma SendAtMost_returns:
  assumes "out_inv b" "length (content b) \<le> length (filter productive script)"
  shows "is_inr (SendAtMost script b)"
proof -
  have inv: "buf_inv b" using assms(1) by (simp add: out_inv_def)
  from inv show ?thesis
  proof (cases rule: buf_inv_cases)
    case empty
    then show ?thesis by (simp add: SendAtMost_None)
  next
    case node
    with assms send_loop_returns [OF inv node(1)] show ?thesis
      by (auto simp: SendAtMost_def out_inv_def)
  qed
qed

end
