(* ===== verification/Edn_Buffer_Recv.thy ===== *)
theory Edn_Buffer_Recv
  imports Edn_Buffer_Send
begin

text \<open>
  The receiving side of \<open>EdnBuffer\<close>: what the \<open>recv\<close> loop adds to the content, what the
  consuming loop takes from it, and the three ways the accounting goes wrong (a filled node,
  the drift of \<open>size_\<close>, the drift of \<open>buffer_node_num_\<close>).
\<close>

section \<open>The byte stream\<close>

fun recv_bytes :: "recv_ev \<Rightarrow> u8 list" where
  "recv_bytes (Recv_data bs) = bs"
| "recv_bytes (Recv_err e) = []"

definition stream :: "recv_ev list \<Rightarrow> u8 list" where
  "stream script = concat (map recv_bytes script)"

lemma stream_simps [simp]:
  "stream [] = []" "stream (Recv_data bs # es) = bs @ stream es" "stream (Recv_err e # es) = stream es"
  by (simp_all add: stream_def)

text \<open>The bytes a handler call took off the front of its chunk.\<close>

definition consumed :: "(u8 list \<times> int) list \<Rightarrow> u8 list" where
  "consumed calls = concat (map (\<lambda>(c, r). take (nat r) c) calls)"

lemma consumed_simps [simp]:
  "consumed [] = []" "consumed (calls @ [(c, r)]) = consumed calls @ take (nat r) c"
  by (simp_all add: consumed_def)

section \<open>The recv loop\<close>

text \<open>One iteration on a started node, by the answer of \<open>recv\<close>.\<close>

lemma recv_loop_step:
  assumes "buf_inv b" "buf_head b = Some 0"
  defines "n \<equiv> buf_nodes b 0"
  defines "room \<equiv> nd_capacity n - nd_len n - nd_offset n"
  shows "recv_loop l [] num (Some 0) b = Inl Script_end"
    and "recv_loop l (Recv_err EAGAIN # rest) num (Some 0) b = Inr (Recv_break num, b, rest)"
    and "recv_loop l (Recv_err EINTR # rest) num (Some 0) b = recv_loop l rest num (Some 0) b"
    and "e \<noteq> EAGAIN \<Longrightarrow> e \<noteq> EINTR \<Longrightarrow>
         recv_loop l (Recv_err e # rest) num (Some 0) b = Inr (Recv_return EDN_ERR_SYS_ERROR, b, rest)"
    and "room = 0 \<Longrightarrow> bs \<noteq> [] \<Longrightarrow>
         recv_loop l (Recv_data bs # rest) num (Some 0) b = Inr (Recv_return 0, b, Recv_data bs # rest)"
    and "recv_loop l (Recv_data [] # rest) num (Some 0) b = Inr (Recv_return 0, b, rest)"
    and "got = take room bs \<Longrightarrow> got \<noteq> [] \<Longrightarrow>
         rest' = (if length got < length bs then Recv_data (drop (length got) bs) # rest else rest) \<Longrightarrow>
         b2 = (set_node 0 (\<lambda>n. n\<lparr>nd_len := nd_len n + length got\<rparr>) b)
                \<lparr>buf_bytes := write_bytes (buf_bytes b) (48 + nd_offset n + nd_len n) got,
                 buf_size := add64 (buf_size b) (length got)\<rparr> \<Longrightarrow>
         recv_loop l (Recv_data bs # rest) num (Some 0) b =
          (if nd_len n + length got = nd_capacity n
           then Inr (Recv_return EDN_ERR_BUFFER_NOT_ENOUGH, b2, rest')
           else recv_loop l rest' (num + int (length got)) (Some 0) b2)"
proof -
  have cap: "buf_capacity b < 1073741824" using assms(1) by (auto dest: buf_inv_cap)
  have wf: "node_wf (buf_capacity b) n" using assms(1,2) by (auto simp: buf_inv_def n_def)
  have tail: "buf_tail b = Some 0" using assms(1,2) by (simp add: buf_inv_tail)
  note rs = RemainSpace_wf(2) [OF wf cap, folded room_def]
  have data: "nd_data n = 48" using wf by (simp add: node_wf_def)
  have rn: "recv_node l (Some 0) b = Inr (0, b)"
    using assms(1) by (simp add: recv_node_def node_ok_0)
  note unf = recv_loop.simps [of l _ num "Some 0" b, unfolded rn sum.case prod.case Let_def,
      folded n_def, unfolded rs data]
  show "recv_loop l [] num (Some 0) b = Inl Script_end"
    "recv_loop l (Recv_err EAGAIN # rest) num (Some 0) b = Inr (Recv_break num, b, rest)"
    "recv_loop l (Recv_err EINTR # rest) num (Some 0) b = recv_loop l rest num (Some 0) b"
    "e \<noteq> EAGAIN \<Longrightarrow> e \<noteq> EINTR \<Longrightarrow>
         recv_loop l (Recv_err e # rest) num (Some 0) b = Inr (Recv_return EDN_ERR_SYS_ERROR, b, rest)"
    "room = 0 \<Longrightarrow> bs \<noteq> [] \<Longrightarrow>
         recv_loop l (Recv_data bs # rest) num (Some 0) b = Inr (Recv_return 0, b, Recv_data bs # rest)"
    "recv_loop l (Recv_data [] # rest) num (Some 0) b = Inr (Recv_return 0, b, rest)"
    by (subst unf; simp split: errno.split)+
  show "recv_loop l (Recv_data bs # rest) num (Some 0) b =
          (if nd_len n + length got = nd_capacity n
           then Inr (Recv_return EDN_ERR_BUFFER_NOT_ENOUGH, b2, rest')
           else recv_loop l rest' (num + int (length got)) (Some 0) b2)"
    if g: "got = take room bs" "got \<noteq> []"
      and r: "rest' = (if length got < length bs then Recv_data (drop (length got) bs) # rest else rest)"
      and b2: "b2 = (set_node 0 (\<lambda>n. n\<lparr>nd_len := nd_len n + length got\<rparr>) b)
                \<lparr>buf_bytes := write_bytes (buf_bytes b) (48 + nd_offset n + nd_len n) got,
                 buf_size := add64 (buf_size b) (length got)\<rparr>"
  proof -
    have le: "nd_len n + nd_offset n + length got \<le> nd_capacity n" "nd_capacity n + 48 \<le> buf_capacity b"
      using g wf by (auto simp: room_def node_wf_def)
    have a: "add64 (nd_len n) (length got) = nd_len n + length got"
      using le cap by simp
    have nb: "\<not> buf_capacity b < 48 + nd_offset n + nd_len n + length got" using le by simp
    have b2': "(set_node 0 (\<lambda>n. n\<lparr>nd_len := add64 (nd_len n) (length got)\<rparr>) b)
                \<lparr>buf_bytes := write_bytes (buf_bytes b) (48 + nd_offset n + nd_len n) got,
                 buf_size := add64 (buf_size b) (length got)\<rparr> = b2"
      unfolding b2 set_node_def using a by (simp add: n_def)
    have gn: "get_next_node b2 l = None"
      by (rule get_next_node_single [where t = 0]) (simp_all add: b2 assms(2) tail)
    have l0: "length got \<noteq> 0" using g(2) by simp
    have n2: "buf_nodes b2 0 = n\<lparr>nd_len := nd_len n + length got\<rparr>" by (simp add: b2 n_def)
    show ?thesis
      by (subst unf, unfold list.case recv_ev.case g(1) [symmetric] r [symmetric] if_not_P [OF l0]
            if_not_P [OF nb] b2' gn n2) simp
  qed
qed

lemma recv_node_start:
  assumes "buf_inv b" "buf_head b = None" "48 < l" "l \<le> buf_capacity b"
  shows "\<exists>b1. recv_loop l script num None b = recv_loop l script num (Some 0) b1
      \<and> buf_inv b1 \<and> buf_head b1 = Some 0 \<and> content b1 = [] \<and> buf_size b1 = buf_size b
      \<and> nd_len (buf_nodes b1 0) = 0 \<and> nd_offset (buf_nodes b1 0) = 0
      \<and> nd_capacity (buf_nodes b1 0) = l - 48
      \<and> buf_capacity b1 = buf_capacity b \<and> buffer_node_num b1 = buffer_node_num b
      \<and> handle_data_cb b1 = handle_data_cb b \<and> message_end_cb b1 = message_end_cb b"
proof -
  let ?b1 = "(set_node 0 (\<lambda>n. n\<lparr>nd_len := 0, nd_data := 48, nd_capacity := l - 48, nd_offset := 0\<rparr>) b)
               \<lparr>buf_head := Some 0, buf_tail := Some 0\<rparr>"
  have cap: "buf_capacity b < 1073741824" using assms(1) by (auto dest: buf_inv_cap)
  have "sub64 l 48 = l - 48" using assms(3,4) cap by (intro sub64_le) auto
  then have rn: "recv_node l None b = Inr (0, ?b1)"
    using assms cap by (simp add: recv_node_def node_init_def node_ok_0)
  have inv1: "buf_inv ?b1" using assms(1,3,4) by (auto simp: buf_inv_def node_wf_def)
  have rn1: "recv_node l (Some 0) ?b1 = Inr (0, ?b1)"
    unfolding recv_node_def option.case by (simp add: node_ok_0 [OF assms(1)])
  have "recv_loop l script num None b = recv_loop l script num (Some 0) ?b1"
    unfolding recv_loop.simps [of l script num None b] recv_loop.simps [of l script num "Some 0" ?b1] rn rn1 ..
  with inv1 show ?thesis by (intro exI [of _ ?b1]) (simp add: content_Some)
qed

lemma recv_loop_spec:
  assumes "buf_inv b" "buf_head b = Some 0"
    "buf_size b + (nd_capacity (buf_nodes b 0) - nd_len (buf_nodes b 0) - nd_offset (buf_nodes b 0)) < size_max"
    and "recv_loop l script num (Some 0) b = Inr (exit, b', rest)"
  shows "buf_inv b' \<and> buf_head b' = Some 0 \<and> content b @ stream script = content b' @ stream rest
      \<and> buf_size b' + length (content b) = buf_size b + length (content b')
      \<and> (\<forall>k. exit = Recv_break k \<longrightarrow> k = num + int (length (content b')) - int (length (content b)))
      \<and> buffer_node_num b' = buffer_node_num b \<and> buf_capacity b' = buf_capacity b
      \<and> handle_data_cb b' = handle_data_cb b \<and> message_end_cb b' = message_end_cb b
      \<and> nd_offset (buf_nodes b' 0) = nd_offset (buf_nodes b 0)
      \<and> nd_capacity (buf_nodes b' 0) = nd_capacity (buf_nodes b 0)"
  using assms
proof (induction "sum_list (map recv_weight script)" arbitrary: script num b rule: less_induct)
  case less
  note inv = less.prems(1) and head = less.prems(2)
  note step = recv_loop_step [OF inv head]
  let ?n = "buf_nodes b 0"
  let ?room = "nd_capacity ?n - nd_len ?n - nd_offset ?n"
  show ?case
  proof (cases script)
    case Nil
    with less.prems(4) show ?thesis by (simp add: step)
  next
    case (Cons e rest1)
    show ?thesis
    proof (cases e)
      case (Recv_err x)
      show ?thesis
      proof (cases "x = EINTR")
        case True
        have "recv_loop l rest1 num (Some 0) b = Inr (exit, b', rest)"
          using less.prems(4) Cons Recv_err True by (simp add: step)
        with less.hyps [of rest1 b num] less.prems show ?thesis
          using Cons Recv_err by simp
      next
        case False
        with less.prems Cons Recv_err show ?thesis
          by (cases "x = EAGAIN") (auto simp: step)
      qed
    next
      case (Recv_data bs)
      define got where "got = take ?room bs"
      show ?thesis
      proof (cases "got = []")
        case True
        then have "bs = [] \<or> ?room = 0" by (auto simp: got_def)
        with less.prems Cons Recv_data show ?thesis
          by (cases "bs = []") (auto simp: step)
      next
        case False
        define rest2 where "rest2 = (if length got < length bs then Recv_data (drop (length got) bs) # rest1 else rest1)"
        define b2 where "b2 = (set_node 0 (\<lambda>n. n\<lparr>nd_len := nd_len n + length got\<rparr>) b)
                \<lparr>buf_bytes := write_bytes (buf_bytes b) (48 + nd_offset ?n + nd_len ?n) got,
                 buf_size := add64 (buf_size b) (length got)\<rparr>"
        have wf: "node_wf (buf_capacity b) ?n" using inv head by (auto simp: buf_inv_def)
        have le: "nd_len ?n + nd_offset ?n + length got \<le> nd_capacity ?n" "nd_capacity ?n + 48 \<le> buf_capacity b"
          using wf by (auto simp: got_def node_wf_def)
        have inv2: "buf_inv b2" using inv head le by (auto simp: buf_inv_def b2_def node_wf_def)
        have head2: "buf_head b2 = Some 0" using head by (simp add: b2_def)
        have data: "nd_data ?n = 48" using wf by (simp add: node_wf_def)
        have cont2: "content b2 = content b @ got"
          using head head2 data
          by (simp add: content_Some b2_def read_write_suffix add.assoc [symmetric])
        have strm: "bs @ stream rest1 = got @ stream rest2"
        proof (cases "length got < length bs")
          case True
          then have "got @ drop (length got) bs = bs" by (simp add: got_def min_def split: if_splits)
          with True show ?thesis by (simp add: rest2_def)
        next
          case False
          then have "got = bs" by (simp add: got_def min_def split: if_splits)
          with False show ?thesis by (simp add: rest2_def)
        qed
        have size2: "buf_size b2 = buf_size b + length got"
          using less.prems(3) le by (simp add: b2_def)
        note unf = step(7) [OF got_def False rest2_def b2_def, of l num]
        have w: "sum_list (map recv_weight rest2) < sum_list (map recv_weight script)"
          using False Cons Recv_data by (auto simp: rest2_def intro!: diff_less)
        show ?thesis
        proof (cases "nd_len ?n + length got = nd_capacity ?n")
          case True
          with less.prems(4) Cons Recv_data unf have "exit = Recv_return EDN_ERR_BUFFER_NOT_ENOUGH"
            "b' = b2" "rest = rest2" by auto
          then show ?thesis
            using inv2 head2 cont2 strm size2 Cons Recv_data by (simp add: b2_def)
        next
          case F: False
          with less.prems(4) Cons Recv_data unf
          have r: "recv_loop l rest2 (num + int (length got)) (Some 0) b2 = Inr (exit, b', rest)" by simp
          have len: "length (content b) = nd_len ?n" using head by (simp add: content_Some)
          have room2: "buf_size b2 + (nd_capacity (buf_nodes b2 0) - nd_len (buf_nodes b2 0)
              - nd_offset (buf_nodes b2 0)) < size_max"
            using less.prems(3) le size2 by (simp add: b2_def)
          have "content b @ stream script = content b2 @ stream rest2"
            using cont2 strm Cons Recv_data by simp
          with less.hyps [OF w inv2 head2 room2 r] size2 cont2 show ?thesis
            by (auto simp: b2_def)
        qed
      qed
    qed
  qed
qed

text \<open>On a well-formed buffer the loop never leaves the block, whatever arrives.\<close>

lemma recv_loop_fault:
  assumes "buf_inv b" "buf_head b = Some 0" "recv_loop l script num (Some 0) b = Inl f"
  shows "f = Script_end"
  using assms
proof (induction "sum_list (map recv_weight script)" arbitrary: script num b rule: less_induct)
  case less
  note inv = less.prems(1) and head = less.prems(2)
  note step = recv_loop_step [OF inv head]
  let ?n = "buf_nodes b 0"
  let ?room = "nd_capacity ?n - nd_len ?n - nd_offset ?n"
  show ?case
  proof (cases script)
    case Nil
    with less.prems(3) show ?thesis by (simp add: step)
  next
    case (Cons e rest1)
    show ?thesis
    proof (cases e)
      case (Recv_err x)
      show ?thesis
      proof (cases "x = EINTR")
        case True
        with less.hyps [of rest1 b num] less.prems Cons Recv_err show ?thesis by (simp add: step)
      next
        case False
        with less.prems Cons Recv_err show ?thesis by (cases "x = EAGAIN") (auto simp: step)
      qed
    next
      case (Recv_data bs)
      define got where "got = take ?room bs"
      show ?thesis
      proof (cases "got = []")
        case True
        then have "bs = [] \<or> ?room = 0" by (auto simp: got_def)
        with less.prems Cons Recv_data show ?thesis by (cases "bs = []") (auto simp: step)
      next
        case False
        define rest2 where "rest2 = (if length got < length bs then Recv_data (drop (length got) bs) # rest1 else rest1)"
        define b2 where "b2 = (set_node 0 (\<lambda>n. n\<lparr>nd_len := nd_len n + length got\<rparr>) b)
                \<lparr>buf_bytes := write_bytes (buf_bytes b) (48 + nd_offset ?n + nd_len ?n) got,
                 buf_size := add64 (buf_size b) (length got)\<rparr>"
        have "nd_len ?n + nd_offset ?n + length got \<le> nd_capacity ?n"
          using inv head by (auto simp: got_def node_wf_def buf_inv_def)
        then have inv2: "buf_inv b2" using inv head by (auto simp: buf_inv_def b2_def node_wf_def)
        have head2: "buf_head b2 = Some 0" using head by (simp add: b2_def)
        have w: "sum_list (map recv_weight rest2) < sum_list (map recv_weight script)"
          using False Cons Recv_data by (auto simp: rest2_def intro!: diff_less)
        show ?thesis
          using less.hyps [OF w inv2 head2] less.prems(3) Cons Recv_data
            step(7) [OF got_def False rest2_def b2_def, of l num]
          by (auto split: if_splits)
      qed
    qed
  qed
qed

section \<open>PopData\<close>

text \<open>
  Popping less than the node holds moves the offset and leaves \<open>size_\<close> as it was; popping
  exactly what it holds drops the node and takes its length off \<open>size_\<close>.
\<close>

lemma PopData_part:
  assumes "buf_inv b" "buf_head b = Some 0" "0 < r" "r < int (nd_len (buf_nodes b 0))" "buf_size b < size_max"
  shows "PopData (Suc (Suc fuel)) r b =
     Inr (set_node 0 (\<lambda>n. n\<lparr>nd_len := nd_len n - nat r, nd_offset := nd_offset n + nat r\<rparr>) b)"
proof -
  let ?n = "buf_nodes b 0"
  have cap: "buf_capacity b < 1073741824" and wf: "node_wf (buf_capacity b) ?n"
    using assms(1,2) by (auto simp: buf_inv_def)
  have lt: "nat r < nd_len ?n" "r < 18446744073709551616"
    using assms(3,4) wf cap by (auto simp: node_wf_def)
  have a: "add64 (nd_offset ?n) (nat r) = nd_offset ?n + nat r"
    using lt wf cap by (intro add64_small) (auto simp: node_wf_def)
  show ?thesis
    using assms lt a by (simp add: PopData_def node_ok_0 Let_def set_node_def)
qed

lemma PopData_all:
  assumes "buf_inv b" "buf_head b = Some 0" "0 < r" "r = int (nd_len (buf_nodes b 0))"
  shows "PopData (Suc (Suc fuel)) r b =
     Inr (b\<lparr>buf_head := None, buf_tail := None, buffer_node_num := buffer_node_num b - 1,
            buf_size := sub64 (buf_size b) (nat r)\<rparr>)"
proof -
  let ?n = "buf_nodes b 0"
  have cap: "buf_capacity b < 1073741824" and wf: "node_wf (buf_capacity b) ?n"
    using assms(1,2) by (auto simp: buf_inv_def)
  have "r < 18446744073709551616" using assms(4) wf cap by (auto simp: node_wf_def)
  then show ?thesis
    using assms by (simp add: PopData_def node_ok_0 Let_def unlink_head_single buf_inv_next)
qed

text \<open>A handler that reports more than the node holds makes \<open>__PopData\<close> follow a null pointer.\<close>

lemma PopData_overrun:
  assumes "buf_inv b" "buf_head b = Some 0" "int (nd_len (buf_nodes b 0)) < r" "r < 2147483648"
  shows "PopData (Suc (Suc fuel)) r b = Inl Null_deref"
proof -
  let ?n = "buf_nodes b 0"
  let ?b = "b\<lparr>buf_size := sub64 (buf_size b) (nd_len ?n)\<rparr>"
  have u: "unlink_head 0 ?b = Inr (?b\<lparr>buf_head := None, buf_tail := None,
             buffer_node_num := buffer_node_num ?b - 1\<rparr>)"
    by (rule unlink_head_single) (simp add: buf_inv_next [OF assms(1)])
  have lt: "\<not> nat r < nd_len ?n" "nd_len ?n \<noteq> nat r" "sub64 (nat r) (nd_len ?n) = nat r - nd_len ?n"
    "0 < r" using assms(3,4) by auto
  have "int_of_size (nat r - nd_len ?n) = int (nat r - nd_len ?n)"
    using assms(4) by (intro int_of_size_small) linarith
  then have ne: "int_of_size (nat r - nd_len ?n) \<noteq> 0" using lt by simp
  show ?thesis
    using assms(2,4) lt ne
    by (simp add: PopData_def node_ok_0 [OF assms(1)] Let_def u buf_inv_next [OF assms(1)])
qed

section \<open>The consuming loops\<close>

text \<open>
  Callbacks that keep their contract: the framing callback reports at most what it was shown,
  the data callback takes at least one byte and at most what it was given.
\<close>

definition good_callbacks :: "edn_buffer \<Rightarrow> bool" where
  "good_callbacks b \<longleftrightarrow>
     (\<forall>data. message_end_cb b data (int (length data)) \<le> length data) \<and>
     (\<forall>chunk. chunk \<noteq> [] \<longrightarrow> 0 < handle_data_cb b chunk (int (length chunk))
        \<and> handle_data_cb b chunk (int (length chunk)) \<le> int (length chunk))"

text \<open>A handler call takes its bytes off the front of the content.\<close>

definition pop_post :: "edn_buffer \<Rightarrow> int \<Rightarrow> edn_buffer \<Rightarrow> bool" where
  "pop_post b r b1 \<longleftrightarrow> buf_inv b1 \<and> content b1 = drop (nat r) (content b)
     \<and> handle_data_cb b1 = handle_data_cb b \<and> message_end_cb b1 = message_end_cb b
     \<and> buf_capacity b1 = buf_capacity b
     \<and> (if r < int (length (content b))
        then buf_head b1 = Some 0 \<and> buf_size b1 = buf_size b \<and> buffer_node_num b1 = buffer_node_num b
        else buf_head b1 = None \<and> buf_size b1 = buf_size b - nat r
          \<and> buffer_node_num b1 = buffer_node_num b - 1)"

lemma pop_content:
  assumes "buf_inv b" "buf_head b = Some 0" "0 < r" "r \<le> int (length (content b))" "buf_size b < size_max"
    "length (content b) \<le> buf_size b"
  shows "\<exists>b1. PopData (Suc (Suc fuel)) r b = Inr b1 \<and> pop_post b r b1"
proof (cases "r < int (length (content b))")
  case True
  let ?n = "buf_nodes b 0"
  have len: "length (content b) = nd_len ?n" using assms(2) by (simp add: content_Some)
  let ?b1 = "set_node 0 (\<lambda>n. n\<lparr>nd_len := nd_len n - nat r, nd_offset := nd_offset n + nat r\<rparr>) b"
  have p: "PopData (Suc (Suc fuel)) r b = Inr ?b1"
    using assms True len by (intro PopData_part) auto
  have "buf_inv ?b1" using assms(1,2,3) True len by (auto simp: buf_inv_def node_wf_def)
  moreover have "content ?b1 = drop (nat r) (content b)"
    using assms(2,3) True len by (simp add: content_Some read_bytes_drop add.assoc)
  ultimately show ?thesis using p True assms(2) by (simp add: pop_post_def)
next
  case False
  have len: "length (content b) = nd_len (buf_nodes b 0)" using assms(2) by (simp add: content_Some)
  have r: "r = int (nd_len (buf_nodes b 0))" using False assms(4) len by simp
  have "buf_inv (b\<lparr>buf_head := None, buf_tail := None, buffer_node_num := buffer_node_num b - 1,
            buf_size := sub64 (buf_size b) (nat r)\<rparr>)"
    using assms(1) by (auto simp: buf_inv_def)
  with PopData_all [OF assms(1,2,3) r, of fuel] show ?thesis
    using False r len assms(5,6) by (simp add: pop_post_def content_None)
qed

text \<open>
  What a run of the consuming loops has done: the calls took a prefix of the content, what is
  left is not a complete message, and the accounting moved only if the node was emptied.
\<close>

definition consume_post :: "edn_buffer \<Rightarrow> (u8 list \<times> int) list \<Rightarrow> edn_buffer \<Rightarrow> bool" where
  "consume_post b calls b1 \<longleftrightarrow> buf_inv b1 \<and> content b = consumed calls @ content b1
     \<and> message_end_cb b (content b1) (int (length (content b1))) = 0
     \<and> buf_capacity b1 = buf_capacity b
     \<and> handle_data_cb b1 = handle_data_cb b \<and> message_end_cb b1 = message_end_cb b
     \<and> (calls \<noteq> [] \<longrightarrow> 0 < snd (last calls) \<and> snd (last calls) \<le> int (length (content b)))
     \<and> (if calls \<noteq> [] \<and> content b1 = []
        then buf_head b1 = None \<and> buf_size b1 = buf_size b - nat (snd (last calls))
          \<and> buffer_node_num b1 = buffer_node_num b - 1
        else buf_head b1 = buf_head b \<and> buf_size b1 = buf_size b \<and> buffer_node_num b1 = buffer_node_num b)"

lemma consume_post_done:
  "buf_inv b \<Longrightarrow> message_end_cb b (content b) (int (length (content b))) = 0 \<Longrightarrow> consume_post b [] b"
  by (simp add: consume_post_def)

lemma consume_post_call:
  assumes "pop_post b r b1" "consume_post b1 calls b2" "buf_head b = Some 0"
    "0 < r" "r \<le> int (length (content b))" "take (nat r) chunk = take (nat r) (content b)"
    and last: "content b1 = [] \<Longrightarrow> calls = []"
  shows "consume_post b ((chunk, r) # calls) b2"
proof -
  have "content b = take (nat r) (content b) @ consumed calls @ content b2"
    using assms(1,2) by (metis append_take_drop_id consume_post_def pop_post_def)
  then have all: "content b = consumed ((chunk, r) # calls) @ content b2"
    using assms(6) by (simp add: consumed_def)
  have cb: "handle_data_cb b1 = handle_data_cb b" "message_end_cb b1 = message_end_cb b"
    "buf_capacity b1 = buf_capacity b" using assms(1) by (auto simp: pop_post_def)
  have c2: "buf_inv b2" "message_end_cb b (content b2) (int (length (content b2))) = 0"
    "buf_capacity b2 = buf_capacity b" "handle_data_cb b2 = handle_data_cb b"
    "message_end_cb b2 = message_end_cb b"
    using assms(2) unfolding consume_post_def cb by blast+
  have acct: "if calls \<noteq> [] \<and> content b2 = []
        then buf_head b2 = None \<and> buf_size b2 = buf_size b1 - nat (snd (last calls))
          \<and> buffer_node_num b2 = buffer_node_num b1 - 1
        else buf_head b2 = buf_head b1 \<and> buf_size b2 = buf_size b1 \<and> buffer_node_num b2 = buffer_node_num b1"
    and c12: "content b1 = consumed calls @ content b2"
    and lst: "calls \<noteq> [] \<longrightarrow> 0 < snd (last calls) \<and> snd (last calls) \<le> int (length (content b1))"
    using assms(2) unfolding consume_post_def by blast+
  have "length (content b1) \<le> length (content b)" using assms(1) by (simp add: pop_post_def)
  with lst assms(4,5) have lst': "0 < snd (last ((chunk, r) # calls))
      \<and> snd (last ((chunk, r) # calls)) \<le> int (length (content b))" by auto
  have "if content b2 = []
        then buf_head b2 = None \<and> buf_size b2 = buf_size b - nat (snd (last ((chunk, r) # calls)))
          \<and> buffer_node_num b2 = buffer_node_num b - 1
        else buf_head b2 = buf_head b \<and> buf_size b2 = buf_size b \<and> buffer_node_num b2 = buffer_node_num b"
  proof (cases "r < int (length (content b))")
    case True
    then have "content b1 \<noteq> []" and s1: "buf_head b1 = Some 0" "buf_size b1 = buf_size b"
      "buffer_node_num b1 = buffer_node_num b"
      using assms(1,4) by (auto simp: pop_post_def)
    show ?thesis
    proof (cases "calls = []")
      case True
      then have "content b2 \<noteq> []" using c12 \<open>content b1 \<noteq> []\<close> by simp
      with True acct s1 assms(3) show ?thesis by simp
    next
      case False
      with acct s1 assms(3) show ?thesis by (cases "content b2 = []") simp_all
    qed
  next
    case False
    then have e1: "content b1 = []" using assms(1,5) by (simp add: pop_post_def)
    have "buf_head b1 = None" "buf_size b1 = buf_size b - nat r"
      "buffer_node_num b1 = buffer_node_num b - 1"
      using assms(1) False by (auto simp: pop_post_def)
    moreover have "calls = []" using last e1 by blast
    moreover have "content b2 = []" using c12 e1 by simp
    ultimately show ?thesis using acct by simp
  qed
  with c2 all lst' show ?thesis
    unfolding consume_post_def by (intro conjI) simp_all
qed

lemma end_of_message_eq:
  assumes "good_callbacks b" "content b = drop (nat off) tmp" "len = int (length (content b))"
    "length tmp < 2147483648"
  shows "end_of_message b tmp off len = int (message_end_cb b (content b) (int (length (content b))))"
    "message_end_cb b (content b) (int (length (content b))) \<le> length (content b)"
proof -
  show le: "message_end_cb b (content b) (int (length (content b))) \<le> length (content b)"
    using assms(1) by (simp add: good_callbacks_def)
  have "length (content b) < 2147483648" using assms(2,4) by simp
  then show "end_of_message b tmp off len = int (message_end_cb b (content b) (int (length (content b))))"
    using assms(2,3) le by (simp add: end_of_message_def)
qed

text \<open>The setting of the inner loop: \<open>tmp\<close> from \<open>off\<close> on is the content.\<close>

definition consuming :: "edn_buffer \<Rightarrow> u8 list \<Rightarrow> int \<Rightarrow> int \<Rightarrow> bool" where
  "consuming b tmp off len \<longleftrightarrow> buf_inv b \<and> good_callbacks b \<and> (content b \<noteq> [] \<longrightarrow> buf_head b = Some 0)
     \<and> content b = drop (nat off) tmp \<and> 0 \<le> off \<and> off \<le> int (length tmp)
     \<and> len = int (length (content b)) \<and> length (content b) \<le> buf_size b \<and> buf_size b < size_max
     \<and> length tmp < 2147483648"

lemma consuming_pop:
  assumes "consuming b tmp off len" "pop_post b r b1" "0 < r" "r \<le> len"
  shows "consuming b1 tmp (off + r) (len - r)"
proof -
  have "drop (nat r) (content b) = drop (nat (off + r)) tmp"
    using assms by (simp add: consuming_def nat_add_distrib add.commute)
  moreover have "off + r \<le> int (length tmp)"
    using assms by (auto simp: consuming_def)
  ultimately show ?thesis
    using assms by (auto simp: consuming_def pop_post_def good_callbacks_def split: if_splits)
qed

lemma consume_msgs_spec:
  assumes "consuming b tmp off len" "length (content b) + 2 < fuel"
  shows "\<exists>off1 len1 b1 calls1. consume_msgs fuel tmp off len (end_of_message b tmp off len) b calls
       = Inr (off1, len1, b1, calls @ calls1) \<and> consume_post b calls1 b1
       \<and> (content b = [] \<longrightarrow> calls1 = [])"
  using assms
proof (induction fuel arbitrary: off len b calls)
  case 0
  then show ?case by simp
next
  case (Suc fuel)
  let ?m = "end_of_message b tmp off len"
  have inv: "buf_inv b" "good_callbacks b" "content b = drop (nat off) tmp" "0 \<le> off"
    "off \<le> int (length tmp)" "len = int (length (content b))" "length (content b) \<le> buf_size b"
    "buf_size b < size_max" "length tmp < 2147483648"
    using Suc.prems(1) by (auto simp: consuming_def)
  note m = end_of_message_eq [OF inv(2,3,6,9)]
  show ?case
  proof (cases "?m \<le> 0")
    case True
    then have "consume_msgs (Suc fuel) tmp off len ?m b calls = Inr (off, len, b, calls @ [])" by simp
    moreover have "consume_post b [] b"
      using True m inv(1) by (intro consume_post_done) simp_all
    ultimately show ?thesis by blast
  next
    case False
    define chunk where "chunk = take (nat ?m) (drop (nat off) tmp)"
    have mle: "0 < ?m" "?m \<le> len" using False m inv(6) by auto
    have chunk: "chunk = take (nat ?m) (content b)" unfolding chunk_def inv(3) ..
    have "nat ?m \<le> length (content b)" using mle inv(6) by linarith
    then have lchunk: "length chunk = nat ?m" using chunk by simp
    define r where "r = handle_data_cb b chunk ?m"
    have ne: "chunk \<noteq> []" "content b \<noteq> []" using lchunk mle inv(6) by auto
    have r: "0 < r" "r \<le> ?m"
      using inv(2) ne lchunk mle by (auto simp: good_callbacks_def r_def dest: spec [of _ chunk])
    obtain f where fuel: "fuel = Suc (Suc f)"
      using Suc.prems(2) by (cases fuel; cases "fuel - 1") auto
    have head: "buf_head b = Some 0" using Suc.prems(1) ne by (simp add: consuming_def)
    have rl: "r \<le> int (length (content b))" using r mle inv(6) by simp
    obtain b1 where b1: "PopData fuel r b = Inr b1" "pop_post b r b1"
      using pop_content [OF inv(1) head r(1) rl inv(8,7), of f] fuel by blast
    have bnd: "\<not> (off < 0 \<or> int (length tmp) < off + ?m)" using inv(3-6) mle by auto
    have unf: "consume_msgs (Suc fuel) tmp off len ?m b calls =
       consume_msgs fuel tmp (off + r) (len - r) (end_of_message b1 tmp (off + r) (len - r)) b1
         (calls @ [(chunk, r)])"
      using False bnd b1(1) by (simp add: Let_def chunk_def r_def)
    have c1: "consuming b1 tmp (off + r) (len - r)"
      using r mle by (intro consuming_pop [OF Suc.prems(1) b1(2)]) simp_all
    have "length (content b1) + 2 < fuel"
      using b1(2) r rl Suc.prems(2) by (simp add: pop_post_def)
    from Suc.IH [OF c1 this, of "calls @ [(chunk, r)]"]
    obtain off1 len1 b2 calls1 where ih: "consume_msgs fuel tmp (off + r) (len - r)
        (end_of_message b1 tmp (off + r) (len - r)) b1 (calls @ [(chunk, r)])
        = Inr (off1, len1, b2, (calls @ [(chunk, r)]) @ calls1)"
      "consume_post b1 calls1 b2" "content b1 = [] \<longrightarrow> calls1 = []" by blast
    have "consume_post b ((chunk, r) # calls1) b2"
      using ih(3) chunk r by (intro consume_post_call [OF b1(2) ih(2) head r(1) rl]) (simp_all add: min_def)
    moreover have "consume_msgs (Suc fuel) tmp off len ?m b calls
        = Inr (off1, len1, b2, calls @ (chunk, r) # calls1)"
      using unf ih(1) by simp
    ultimately show ?thesis using ne by blast
  qed
qed

text \<open>The outer loop visits the one node there is.\<close>

lemma consume_nodes_spec:
  assumes "buf_inv b" "good_callbacks b" "buf_head b = Some 0" "length (content b) \<le> buf_size b"
    "buf_size b < size_max" "length (content b) + 4 < fuel"
  shows "\<exists>b1 calls. consume_nodes fuel (buf_size b) [] 0 0 (buf_head b) b [] = Inr (b1, calls)
     \<and> consume_post b calls b1"
proof -
  let ?n = "buf_nodes b 0"
  obtain f where fuel: "fuel = Suc (Suc f)" using assms(6) by (cases fuel; cases "fuel - 1") auto
  have cont: "content b = read_bytes (buf_bytes b) (nd_data ?n + nd_offset ?n) (nd_len ?n)"
    and len: "length (content b) = nd_len ?n" using assms(3) by (simp_all add: content_Some)
  have "length (content b) < 2147483648"
    using assms(1,3) len by (auto simp: buf_inv_def node_wf_def)
  then have "consuming b (content b) 0 (int (length (content b)))"
    using assms by (simp add: consuming_def)
  moreover have "length (content b) + 2 < Suc f" using assms(6) fuel by simp
  ultimately obtain off1 len1 b1 calls where
    c: "consume_msgs (Suc f) (content b) 0 (int (length (content b)))
        (end_of_message b (content b) 0 (int (length (content b)))) b [] = Inr (off1, len1, b1, calls)"
      "consume_post b calls b1"
    using consume_msgs_spec [of b "content b" 0 "int (length (content b))" "Suc f" "[]"] by auto
  have "nd_len ?n \<le> buf_size b" using assms(4) len by simp
  then have "consume_nodes (Suc (Suc f)) (buf_size b) [] 0 0 (Some 0) b [] =
      consume_nodes (Suc f) (buf_size b) (content b) off1 len1 (nd_next (buf_nodes b1 0)) b1 calls"
    using c(1) len
    by (subst consume_nodes.simps(2))
      (simp add: node_ok_0 [OF assms(1)] data_ok_0 [OF assms(1) assms(3)] Let_def cont [symmetric] del: consume_nodes.simps consume_msgs.simps)
  also have "nd_next (buf_nodes b1 0) = None"
    using c(2) unfolding consume_post_def by (blast intro: buf_inv_next)
  also have "consume_nodes (Suc f) (buf_size b) (content b) off1 len1 None b1 calls = Inr (b1, calls)"
    by simp
  finally have "consume_nodes fuel (buf_size b) [] 0 0 (buf_head b) b [] = Inr (b1, calls)"
    using fuel assms(3) by simp
  with c(2) show ?thesis by blast
qed

section \<open>RecvAtMost\<close>

text \<open>The room test on a buffer whose node count has not drifted, and the size of a node.\<close>

lemma recv_node_len_eq:
  assumes "wf_config cfg" "- 1 \<le> n" "n < 1073741824"
  shows "recv_node_len cfg n = max (n + 48) (min_buffer_node_len cfg)"
proof -
  have m: "size_of_int (min_buffer_node_len cfg) = nat (min_buffer_node_len cfg)"
    "48 < min_buffer_node_len cfg" "min_buffer_node_len cfg < 1073741824"
    using assms(1) by (auto simp: wf_config_def)
  show ?thesis
  proof (cases "n = - 1")
    case True
    have "add64 (size_of_int (- 1)) 48 = 47" by (simp add: size_of_int_minus_one add64_def)
    then show ?thesis using m True by (simp add: recv_node_len_def max_def nat_le_iff)
  next
    case False
    then have "0 \<le> n" using assms(2) by simp
    then have a: "add64 (size_of_int n) 48 = nat n + 48" using assms(3) by simp
    have "max (nat n + 48) (nat (min_buffer_node_len cfg)) < 2147483648"
      using m assms(3) by linarith
    then show ?thesis using m \<open>0 \<le> n\<close> by (simp add: recv_node_len_def a m(1) of_nat_max)
  qed
qed

text \<open>An input buffer between two calls.\<close>

definition in_inv :: "edn_config \<Rightarrow> edn_buffer \<Rightarrow> bool" where
  "in_inv cfg b \<longleftrightarrow> buf_inv b \<and> good_callbacks b \<and> length (content b) \<le> buf_size b
     \<and> buf_capacity b = size_of_int (buffer_len cfg)"

lemma consume_post_in_inv:
  assumes "consume_post b calls b1" "in_inv cfg b"
  shows "in_inv cfg b1"
proof -
  have c: "content b = consumed calls @ content b1" "buf_inv b1" "buf_capacity b1 = buf_capacity b"
    "handle_data_cb b1 = handle_data_cb b" "message_end_cb b1 = message_end_cb b"
    "buf_size b1 = buf_size b \<or> content b1 = []"
    using assms(1) unfolding consume_post_def by (auto split: if_splits)
  have "length (content b1) \<le> length (content b)" unfolding c(1) by simp
  then have "length (content b1) \<le> buf_size b1" using c(6) assms(2) by (auto simp: in_inv_def)
  with c assms(2) show ?thesis by (simp add: in_inv_def good_callbacks_def)
qed

text \<open>Only the call that empties the node is taken off \<open>size_\<close>.\<close>

lemma consume_post_size:
  assumes "consume_post b calls b1" "calls \<noteq> []" "length (content b) \<le> buf_size b"
  shows "int (buf_size b1) = int (buf_size b) - (if content b1 = [] then snd (last calls) else 0)"
proof -
  have acct: "if content b1 = [] then buf_size b1 = buf_size b - nat (snd (last calls))
      else buf_size b1 = buf_size b"
    and lst: "0 < snd (last calls)" "snd (last calls) \<le> int (length (content b))"
    using assms(1,2) unfolding consume_post_def by (auto split: if_splits)
  with assms(3) show ?thesis by (cases "content b1 = []") simp_all
qed

text \<open>
  The recv loop as \<open>RecvAtMost\<close> enters it. \<open>n + 48 \<le> capacity\<close> says that what the socket
  reports as readable fits the block.
\<close>

lemma recv_enter:
  assumes "wf_config cfg" "in_inv cfg b" "buf_size b + buf_capacity b < size_max"
    "- 1 \<le> n" "n + 48 \<le> int (buf_capacity b)"
    and l: "l = size_of_int (recv_node_len cfg n)"
  shows "\<exists>b0. recv_loop l script 0 (buf_tail b) b = recv_loop l script 0 (Some 0) b0
     \<and> buf_inv b0 \<and> buf_head b0 = Some 0 \<and> content b0 = content b \<and> buf_size b0 = buf_size b
     \<and> buf_capacity b0 = buf_capacity b \<and> buffer_node_num b0 = buffer_node_num b
     \<and> handle_data_cb b0 = handle_data_cb b \<and> message_end_cb b0 = message_end_cb b
     \<and> buf_size b0 + (nd_capacity (buf_nodes b0 0) - nd_len (buf_nodes b0 0) - nd_offset (buf_nodes b0 0)) < size_max"
proof -
  have inv: "buf_inv b" using assms(2) by (simp add: in_inv_def)
  have cap: "buf_capacity b < 1073741824" using inv by (simp add: buf_inv_def)
  have ln: "recv_node_len cfg n = max (n + 48) (min_buffer_node_len cfg)"
    using assms(1,4,5) cap by (intro recv_node_len_eq) auto
  have lb: "48 < l" "l \<le> buf_capacity b"
    using assms(1,2,5) cap unfolding l ln by (auto simp: wf_config_def in_inv_def max_def nat_le_iff)
  from inv show ?thesis
  proof (cases rule: buf_inv_cases)
    case empty
    from recv_node_start [OF inv empty(1) lb, of script 0] obtain b1 where b1:
      "recv_loop l script 0 None b = recv_loop l script 0 (Some 0) b1" "buf_inv b1"
      "buf_head b1 = Some 0" "content b1 = []" "buf_size b1 = buf_size b"
      "nd_len (buf_nodes b1 0) = 0" "nd_offset (buf_nodes b1 0) = 0" "nd_capacity (buf_nodes b1 0) = l - 48"
      "buf_capacity b1 = buf_capacity b" "buffer_node_num b1 = buffer_node_num b"
      "handle_data_cb b1 = handle_data_cb b" "message_end_cb b1 = message_end_cb b" by blast
    have "buf_size b1 + (nd_capacity (buf_nodes b1 0) - nd_len (buf_nodes b1 0) - nd_offset (buf_nodes b1 0)) < size_max"
      using b1(5-8) lb assms(3) by simp
    with b1 empty show ?thesis by (intro exI [of _ b1]) (simp add: content_None)
  next
    case node
    have "nd_capacity (buf_nodes b 0) + 48 \<le> buf_capacity b" using node(3) by (simp add: node_wf_def)
    then have "buf_size b + (nd_capacity (buf_nodes b 0) - nd_len (buf_nodes b 0) - nd_offset (buf_nodes b 0)) < size_max"
      using assms(3) by linarith
    with inv node show ?thesis by (intro exI [of _ b]) simp
  qed
qed

lemma RecvAtMost_spec:
  assumes "wf_config cfg" "in_inv cfg b" "buf_size b + buf_capacity b < size_max"
    "- 1 \<le> n" "n + 48 \<le> int (buf_capacity b)" "buf_capacity b + 4 < fuel"
  shows "(RecvAtMost cfg fuel n script b = Inl Script_end) \<or>
    (\<exists>ret b' rest calls. RecvAtMost cfg fuel n script b = Inr (ret, b', rest, calls) \<and> in_inv cfg b'
      \<and> content b @ stream script = consumed calls @ content b' @ stream rest
      \<and> (calls \<noteq> [] \<longrightarrow> message_end_cb b (content b') (int (length (content b'))) = 0)
      \<and> (calls \<noteq> [] \<longrightarrow> int (buf_size b') = int (buf_size b) + int (length (stream script)) - int (length (stream rest))
            - (if content b' = [] then snd (last calls) else 0)))"
proof -
  define l where "l = size_of_int (recv_node_len cfg n)"
  obtain b0 where b0: "recv_loop l script 0 (buf_tail b) b = recv_loop l script 0 (Some 0) b0"
    "buf_inv b0" "buf_head b0 = Some 0" "content b0 = content b" "buf_size b0 = buf_size b"
    "buf_capacity b0 = buf_capacity b" "handle_data_cb b0 = handle_data_cb b" "message_end_cb b0 = message_end_cb b"
    "buf_size b0 + (nd_capacity (buf_nodes b0 0) - nd_len (buf_nodes b0 0) - nd_offset (buf_nodes b0 0)) < size_max"
    using recv_enter [OF assms(1-5) l_def, of script] by blast
  show ?thesis
  proof (cases "recv_room b < l")
    case True
    then show ?thesis using assms(2) by (simp add: RecvAtMost_def l_def [symmetric])
  next
    case room: False
    note R = RecvAtMost_def [of cfg fuel n script b, folded l_def, unfolded Let_def if_not_P [OF room] b0(1)]
    show ?thesis
    proof (cases "recv_loop l script 0 (Some 0) b0")
      case (Inl f)
      then show ?thesis using recv_loop_fault [OF b0(2,3) Inl] by (simp add: R)
    next
      case (Inr res)
      then obtain exit b1 rest where r: "recv_loop l script 0 (Some 0) b0 = Inr (exit, b1, rest)"
        by (cases res) auto
      have s: "buf_inv b1" "buf_head b1 = Some 0" "content b @ stream script = content b1 @ stream rest"
        "buf_size b1 + length (content b) = buf_size b + length (content b1)"
        "buf_capacity b1 = buf_capacity b" "handle_data_cb b1 = handle_data_cb b"
        "message_end_cb b1 = message_end_cb b"
        using recv_loop_spec [OF b0(2,3,9) r] b0(4-8) by auto
      have in1: "in_inv cfg b1"
        using s assms(2) by (auto simp: in_inv_def good_callbacks_def)
      have len1: "length (content b1) \<le> buf_capacity b"
        using s(1,2,5) by (auto simp: buf_inv_def node_wf_def content_Some)
      show ?thesis
      proof (cases exit)
        case (Recv_return code)
        then show ?thesis using r in1 s(3) by (simp add: R)
      next
        case (Recv_break num)
        have "buf_size b1 < size_max" "length (content b1) + 4 < fuel"
          using s(4) len1 assms(2,3,6) by (auto simp: in_inv_def)
        then obtain b2 calls where c:
          "consume_nodes fuel (buf_size b1) [] 0 0 (buf_head b1) b1 [] = Inr (b2, calls)"
          "consume_post b1 calls b2"
          using consume_nodes_spec [of b1 fuel] in1 s(1,2) by (auto simp: in_inv_def)
        have p: "content b1 = consumed calls @ content b2"
          "message_end_cb b1 (content b2) (int (length (content b2))) = 0"
          using c(2) unfolding consume_post_def by blast+
        have drift: "calls \<noteq> [] \<longrightarrow> int (buf_size b2) = int (buf_size b) + int (length (stream script))
            - int (length (stream rest)) - (if content b2 = [] then snd (last calls) else 0)"
          using arg_cong [OF s(3), of length] s(4) consume_post_size [OF c(2)] in1
          by (auto simp: in_inv_def)
        show ?thesis
          using p s(3,7) r c(1) Recv_break consume_post_in_inv [OF c(2) in1] drift
          by (simp add: R)
      qed
    qed
  qed
qed

section \<open>A node that fills up\<close>

text \<open>Bytes enough to fill the first node: the error is returned before any data is handed on.\<close>

lemma recv_fill:
  assumes "wf_config cfg" "in_inv cfg b" "buf_head b = None" "buf_size b + buf_capacity b < size_max"
    "- 1 \<le> n" "n + 48 \<le> int (buf_capacity b)"
    and l: "l = size_of_int (recv_node_len cfg n)" and "l \<le> recv_room b" "l - 48 \<le> length bs"
  shows "\<exists>b' rest'. RecvAtMost cfg fuel n (Recv_data bs # rest) b
      = Inr (EDN_ERR_BUFFER_NOT_ENOUGH, b', rest', []) \<and> buf_inv b' \<and> buf_head b' = Some 0
      \<and> content b' = take (l - 48) bs
      \<and> nd_len (buf_nodes b' 0) + nd_offset (buf_nodes b' 0) = nd_capacity (buf_nodes b' 0)"
proof -
  have inv: "buf_inv b" and cap: "buf_capacity b < 1073741824"
    using assms(2) by (auto simp: in_inv_def buf_inv_def)
  have ln: "recv_node_len cfg n = max (n + 48) (min_buffer_node_len cfg)"
    using assms(1,5,6) cap by (intro recv_node_len_eq) auto
  have lb: "48 < l" "l \<le> buf_capacity b"
    using assms(1,2,6) cap unfolding l ln by (auto simp: wf_config_def in_inv_def max_def nat_le_iff)
  have tail: "buf_tail b = None" using inv assms(3) by (simp add: buf_inv_tail)
  from recv_node_start [OF inv assms(3) lb, of "Recv_data bs # rest" 0] obtain b1 where b1:
      "recv_loop l (Recv_data bs # rest) 0 None b = recv_loop l (Recv_data bs # rest) 0 (Some 0) b1"
      "buf_inv b1" "buf_head b1 = Some 0" "content b1 = []"
      "nd_len (buf_nodes b1 0) = 0" "nd_offset (buf_nodes b1 0) = 0" "nd_capacity (buf_nodes b1 0) = l - 48"
      "buf_size b1 = buf_size b" by blast
  define got where "got = take (nd_capacity (buf_nodes b1 0) - nd_len (buf_nodes b1 0)
      - nd_offset (buf_nodes b1 0)) bs"
  have g: "got = take (l - 48) bs" "length got = l - 48" "got \<noteq> []"
    using b1(5-7) assms(9) lb by (auto simp: got_def)
  note step = recv_loop_step(7) [OF b1(2,3) got_def g(3) refl refl, of l rest 0]
  have full: "nd_len (buf_nodes b1 0) + length got = nd_capacity (buf_nodes b1 0)"
    using b1(5-7) g(2) by simp
  then obtain b' rest' where r: "recv_loop l (Recv_data bs # rest) 0 (Some 0) b1
      = Inr (Recv_return EDN_ERR_BUFFER_NOT_ENOUGH, b', rest')"
    and b': "b' = (set_node 0 (\<lambda>n. n\<lparr>nd_len := nd_len n + length got\<rparr>) b1)
                \<lparr>buf_bytes := write_bytes (buf_bytes b1)
                    (48 + nd_offset (buf_nodes b1 0) + nd_len (buf_nodes b1 0)) got,
                 buf_size := add64 (buf_size b1) (length got)\<rparr>"
    using step by auto
  have "buf_inv b'" using b1(2,3) full b1(6) by (auto simp: buf_inv_def node_wf_def b')
  moreover have "content b' = got"
  proof -
    have "nd_data (buf_nodes b1 0) = 48" using b1(2,3) by (auto simp: buf_inv_def node_wf_def)
    then show ?thesis using b1(3,5,6) by (simp add: content_Some b')
  qed
  ultimately show ?thesis
    using r g(1) full b1(1,3,6) assms(8) tail by (simp add: RecvAtMost_def l [symmetric] b')
qed

text \<open>A full node stays full: the next \<open>recv\<close> is asked for 0 bytes and its 0 is read as a shutdown.\<close>

lemma recv_stuck:
  assumes "buf_inv b" "buf_head b = Some 0" "bs \<noteq> []"
    "nd_len (buf_nodes b 0) + nd_offset (buf_nodes b 0) = nd_capacity (buf_nodes b 0)"
  shows "\<exists>code. RecvAtMost cfg fuel n (Recv_data bs # rest) b = Inr (code, b, Recv_data bs # rest, [])
     \<and> code \<in> {0, EDN_ERR_BUFFER_NOT_ENOUGH}"
proof -
  have tail: "buf_tail b = Some 0" using assms(1,2) by (simp add: buf_inv_tail)
  have room: "nd_capacity (buf_nodes b 0) - nd_len (buf_nodes b 0) - nd_offset (buf_nodes b 0) = 0"
    using assms(4) by simp
  show ?thesis
    using recv_loop_step(5) [OF assms(1,2) room assms(3)] tail by (simp add: RecvAtMost_def Let_def)
qed

section \<open>The drift of the accounts\<close>

text \<open>The room test when the node count has gone down to \<open>- k\<close>: 48 bytes too many per count.\<close>

lemma recv_room_drift:
  assumes "buffer_node_num b = - int k" "buf_size b = 0" "buf_capacity b + 48 * k < size_max"
  shows "recv_room b = buf_capacity b + 48 * k"
proof -
  let ?M = "18446744073709551616 :: int"
  have "int (recv_room b) = (int (sub64 (buf_capacity b) 0) - int (48 * size_of_int (- int k)) mod ?M) mod ?M"
    by (simp add: recv_room_def assms(1,2) int_sub64 of_nat_mod)
  also have "\<dots> = (int (buf_capacity b) - 48 * (- int k)) mod ?M"
    by (simp add: int_sub64 int_size_of_int mod_simps)
  also have "\<dots> = int (buf_capacity b) + 48 * int k"
  proof -
    have "0 \<le> int (buf_capacity b) + 48 * int k" "int (buf_capacity b) + 48 * int k < ?M"
      using assms(3) by linarith+
    then show ?thesis by simp
  qed
  finally show ?thesis by linarith
qed

text \<open>
  One receive without framing and with a handler that takes all it is given (the default callbacks do): all is handed
  on, and the node count goes down by one.
\<close>

definition takes_all :: "(u8 list \<Rightarrow> int \<Rightarrow> int) \<Rightarrow> bool" where
  "takes_all h \<longleftrightarrow> (\<forall>d. h d (int (length d)) = int (length d))"

lemma takes_all_default [simp]: "takes_all DefaultHandleDataCb"
  by (simp add: takes_all_def DefaultHandleDataCb_def)

definition idle_input :: "edn_config \<Rightarrow> nat \<Rightarrow> edn_buffer \<Rightarrow> bool" where
  "idle_input cfg k b \<longleftrightarrow> buf_inv b \<and> buf_head b = None \<and> buf_size b = 0
     \<and> takes_all (handle_data_cb b) \<and> message_end_cb b = DefaultMessageEndCb
     \<and> buf_capacity b = size_of_int (buffer_len cfg) \<and> buffer_node_num b = - int k"

lemma good_takes_all: "takes_all (handle_data_cb b) \<Longrightarrow> message_end_cb b = DefaultMessageEndCb \<Longrightarrow> good_callbacks b"
  by (simp add: good_callbacks_def takes_all_def DefaultMessageEndCb_def size_of_int_def nat_mod_distrib)

lemma idle_input_in_inv: "idle_input cfg k b \<Longrightarrow> in_inv cfg b"
  by (simp add: idle_input_def in_inv_def good_takes_all content_None)

lemma consume_whole:
  assumes "buf_inv b" "buf_head b = Some 0" "content b = bs" "bs \<noteq> []" "buf_size b = length bs"
    "takes_all (handle_data_cb b)" "message_end_cb b = DefaultMessageEndCb" "5 \<le> fuel"
  shows "\<exists>b'. consume_nodes fuel (buf_size b) [] 0 0 (buf_head b) b [] = Inr (b', [(bs, int (length bs))])
     \<and> buf_inv b' \<and> buf_head b' = None \<and> buf_size b' = 0
     \<and> handle_data_cb b' = handle_data_cb b \<and> message_end_cb b' = DefaultMessageEndCb
     \<and> buf_capacity b' = buf_capacity b \<and> buffer_node_num b' = buffer_node_num b - 1"
proof -
  let ?n = "buf_nodes b 0"
  have "\<exists>f. fuel = Suc (Suc (Suc (Suc (Suc f))))" using assms(8) by presburger
  then obtain f where fuel: "fuel = Suc (Suc (Suc (Suc (Suc f))))" by blast
  have cont: "read_bytes (buf_bytes b) (nd_data ?n + nd_offset ?n) (nd_len ?n) = bs"
    and len: "nd_len ?n = length bs" using assms(2,3) by (auto simp: content_Some)
  have small: "length bs < 2147483648" using assms(1,2) len by (auto simp: buf_inv_def node_wf_def)
  let ?b1 = "b\<lparr>buf_head := None, buf_tail := None, buffer_node_num := buffer_node_num b - 1, buf_size := 0\<rparr>"
  have inv1: "buf_inv ?b1" using assms(1) by (auto simp: buf_inv_def)
  have pop: "PopData (Suc (Suc (Suc f))) (int (length bs)) b = Inr ?b1"
  proof -
    have "0 < int (length bs)" "int (length bs) = int (nd_len ?n)" using assms(4) len by simp_all
    from PopData_all [OF assms(1,2) this, of "Suc f"] show ?thesis using assms(5) small by simp
  qed
  have e1: "end_of_message b bs 0 (int (length bs)) = int (length bs)"
    using small by (simp add: end_of_message_def assms(7) DefaultMessageEndCb_def)
  have e2: "end_of_message ?b1 bs (int (length bs)) 0 = 0"
    by (simp add: end_of_message_def assms(7) DefaultMessageEndCb_def)
  have "consume_msgs (Suc (Suc (Suc (Suc f)))) bs 0 (int (length bs)) (int (length bs)) b []
      = Inr (int (length bs), 0, ?b1, [(bs, int (length bs))])"
    using assms(4) pop e2 by (subst consume_msgs.simps(2))
      (simp add: Let_def assms(6) [unfolded takes_all_def])
  then have "consume_nodes fuel (buf_size b) [] 0 0 (Some 0) b [] = Inr (?b1, [(bs, int (length bs))])"
    using buf_inv_next [OF inv1] len cont assms(5) e1 unfolding fuel
    by (subst consume_nodes.simps(2)) (simp add: node_ok_0 [OF assms(1)] data_ok_0 [OF assms(1) assms(2)] Let_def del: consume_msgs.simps)
  with inv1 assms(2,7) show ?thesis by (intro exI [of _ ?b1]) simp
qed

lemma recv_cycle:
  assumes "wf_config cfg" "idle_input cfg k b" "bs \<noteq> []"
    "int (length bs) + 48 < min_buffer_node_len cfg" "k < 2147483648" "5 \<le> fuel"
  shows "\<exists>b'. RecvAtMost cfg fuel (int (length bs)) (Recv_data bs # Recv_err EAGAIN # rest) b
      = Inr (int (length bs), b', rest, [(bs, int (length bs))]) \<and> idle_input cfg (Suc k) b'
      \<and> handle_data_cb b' = handle_data_cb b"
proof -
  define l where "l = size_of_int (recv_node_len cfg (int (length bs)))"
  have inv: "buf_inv b" and cap: "48 < buf_capacity b" "buf_capacity b < 1073741824"
    and capeq: "buf_capacity b = size_of_int (buffer_len cfg)" and head: "buf_head b = None"
    and size: "buf_size b = 0" and num: "buffer_node_num b = - int k"
    and cbs: "takes_all (handle_data_cb b)" "message_end_cb b = DefaultMessageEndCb"
    using assms(2) by (auto simp: idle_input_def buf_inv_def)
  have mb: "48 < min_buffer_node_len cfg" "min_buffer_node_len cfg \<le> buffer_len cfg"
    "buffer_len cfg < 1073741824" using assms(1) by (auto simp: wf_config_def)
  have l: "l = nat (min_buffer_node_len cfg)"
    using recv_node_len_eq [OF assms(1), of "int (length bs)"] assms(4) mb by (simp add: l_def max_def)
  have lb: "48 < l" "l \<le> buf_capacity b" using mb by (auto simp: l capeq nat_le_iff zless_nat_eq_int_zless)
  have tail: "buf_tail b = None" using inv head by (simp add: buf_inv_tail)
  have room: "\<not> recv_room b < l"
    using recv_room_drift [OF num size] cap lb assms(5) by simp
  from recv_node_start [OF inv head lb, of "Recv_data bs # Recv_err EAGAIN # rest" 0] obtain b1 where b1:
      "recv_loop l (Recv_data bs # Recv_err EAGAIN # rest) 0 None b
         = recv_loop l (Recv_data bs # Recv_err EAGAIN # rest) 0 (Some 0) b1"
      "buf_inv b1" "buf_head b1 = Some 0" "content b1 = []" "buf_size b1 = 0"
      "nd_len (buf_nodes b1 0) = 0" "nd_offset (buf_nodes b1 0) = 0" "nd_capacity (buf_nodes b1 0) = l - 48"
      "buf_capacity b1 = buf_capacity b" "buffer_node_num b1 = - int k"
      "handle_data_cb b1 = handle_data_cb b" "message_end_cb b1 = DefaultMessageEndCb"
    using size num cbs by auto
  have fit: "length bs < l - 48" using assms(4) l mb by linarith
  define b2 where "b2 = (set_node 0 (\<lambda>n. n\<lparr>nd_len := nd_len n + length bs\<rparr>) b1)
     \<lparr>buf_bytes := write_bytes (buf_bytes b1) (48 + nd_offset (buf_nodes b1 0) + nd_len (buf_nodes b1 0)) bs,
      buf_size := add64 (buf_size b1) (length bs)\<rparr>"
  have got: "bs = take (nd_capacity (buf_nodes b1 0) - nd_len (buf_nodes b1 0) - nd_offset (buf_nodes b1 0)) bs"
    using b1(6-8) fit by simp
  note step = recv_loop_step(7) [OF b1(2,3) got assms(3) refl b2_def, of l "Recv_err EAGAIN # rest" 0]
  have inv2: "buf_inv b2" using b1(2,3,6-8) fit by (auto simp: buf_inv_def node_wf_def b2_def)
  have head2: "buf_head b2 = Some 0" using b1(3) by (simp add: b2_def)
  have data1: "nd_data (buf_nodes b1 0) = 48" using b1(2,3) by (auto simp: buf_inv_def node_wf_def)
  have cont2: "content b2 = bs" using b1(3,6,7) data1 by (simp add: content_Some b2_def)
  have size2: "buf_size b2 = length bs" using b1(5) fit lb cap by (simp add: b2_def)
  have loop: "recv_loop l (Recv_data bs # Recv_err EAGAIN # rest) 0 None b = Inr (Recv_break (int (length bs)), b2, rest)"
    using step recv_loop_step(2) [OF inv2 head2] b1(1,6,8) fit by simp
  have cb2: "takes_all (handle_data_cb b2)" "message_end_cb b2 = DefaultMessageEndCb" "handle_data_cb b2 = handle_data_cb b"
    using b1 cbs by (auto simp: b2_def)
  from consume_whole [OF inv2 head2 cont2 assms(3) size2 cb2(1,2) assms(6)] obtain b3 where b3:
    "consume_nodes fuel (buf_size b2) [] 0 0 (buf_head b2) b2 [] = Inr (b3, [(bs, int (length bs))])"
    "buf_inv b3" "buf_head b3 = None" "buf_size b3 = 0" "handle_data_cb b3 = handle_data_cb b2"
    "message_end_cb b3 = DefaultMessageEndCb" "buf_capacity b3 = buf_capacity b2"
    "buffer_node_num b3 = buffer_node_num b2 - 1" by blast
  have "idle_input cfg (Suc k) b3"
    using b3 b1 capeq cbs by (simp add: idle_input_def b2_def)
  moreover have "RecvAtMost cfg fuel (int (length bs)) (Recv_data bs # Recv_err EAGAIN # rest) b
      = Inr (int (length bs), b3, rest, [(bs, int (length bs))])"
    using room loop b3(1) by (simp add: RecvAtMost_def Let_def l_def [symmetric] tail)
  ultimately show ?thesis using b3(5) cb2(3) by auto
qed

text \<open>A series of receives, each of one small message, and the state it leaves.\<close>

fun recv_series :: "edn_config \<Rightarrow> nat \<Rightarrow> u8 list list \<Rightarrow> edn_buffer \<Rightarrow> fault + edn_buffer" where
  "recv_series cfg fuel [] b = Inr b"
| "recv_series cfg fuel (m # ms) b =
     (case RecvAtMost cfg fuel (int (length m)) [Recv_data m, Recv_err EAGAIN] b of
        Inl f \<Rightarrow> Inl f
      | Inr (ret, b', rest, calls) \<Rightarrow> recv_series cfg fuel ms b')"

lemma recv_series_idle:
  assumes "wf_config cfg" "idle_input cfg k b" "\<forall>m\<in>set ms. m \<noteq> [] \<and> int (length m) + 48 < min_buffer_node_len cfg"
    "k + length ms < 2147483648" "5 \<le> fuel"
  shows "\<exists>b'. recv_series cfg fuel ms b = Inr b' \<and> idle_input cfg (k + length ms) b'"
  using assms(2-4)
proof (induction ms arbitrary: k b)
  case (Cons m ms)
  then have m: "m \<noteq> []" "int (length m) + 48 < min_buffer_node_len cfg" "k < 2147483648" by auto
  from recv_cycle [OF assms(1) Cons.prems(1) m assms(5)] obtain b' where
    "RecvAtMost cfg fuel (int (length m)) [Recv_data m, Recv_err EAGAIN] b
      = Inr (int (length m), b', [], [(m, int (length m))])" "idle_input cfg (Suc k) b'" by blast
  with Cons.IH [OF this(2)] Cons.prems show ?case by simp
qed simp

text \<open>
  After \<open>k\<close> receives the room test lets through a burst of up to \<open>48 * k\<close> bytes more than the
  block holds, and \<open>recv\<close> is given memory behind it.
\<close>

lemma recv_overflow:
  assumes "wf_config cfg" "idle_input cfg k b" "k < 1000000" "n + 48 \<le> int (buf_capacity b) + 48 * int k"
    "int (buf_capacity b) < n + 48" "n \<le> int (length bs)"
  shows "RecvAtMost cfg fuel n (Recv_data bs # rest) b = Inl Out_of_bounds"
proof -
  have inv: "buf_inv b" and cap: "48 < buf_capacity b" "buf_capacity b < 1073741824"
    and capeq: "buf_capacity b = size_of_int (buffer_len cfg)" and head: "buf_head b = None"
    and size: "buf_size b = 0" and num: "buffer_node_num b = - int k"
    using assms(2) by (auto simp: idle_input_def buf_inv_def)
  have mb: "48 < min_buffer_node_len cfg" "min_buffer_node_len cfg \<le> buffer_len cfg"
    "buffer_len cfg < 1073741824" using assms(1) by (auto simp: wf_config_def)
  have nn: "0 \<le> n" "n < 1173741824" using assms(3-5) cap by linarith+
  have tail: "buf_tail b = None" using inv head by (simp add: buf_inv_tail)
  define l where "l = size_of_int (recv_node_len cfg n)"
  have "recv_node_len cfg n = n + 48"
  proof -
    have s: "size_of_int n = nat n" "size_of_int (min_buffer_node_len cfg) = nat (min_buffer_node_len cfg)"
      "size_of_int (buffer_len cfg) = nat (buffer_len cfg)" using nn mb by simp_all
    have a: "add64 (nat n) 48 = nat n + 48" using nn by (intro add64_small) linarith
    have "nat (min_buffer_node_len cfg) \<le> nat n + 48" using mb assms(5) capeq s(3) nn by linarith
    then have "recv_node_len cfg n = int_of_size (nat n + 48)"
      unfolding recv_node_len_def s(1,2) sizeof_BufferNode_def a by (simp only: max_absorb1)
    also have "\<dots> = n + 48" using nn by (subst int_of_size_small) linarith+
    finally show ?thesis .
  qed
  then have l: "l = nat n + 48" using nn by (simp add: l_def nat_add_distrib)
  have room: "\<not> recv_room b < l"
    using recv_room_drift [OF num size] cap assms(3,4) nn l by simp
  let ?b1 = "(set_node 0 (\<lambda>n'. n'\<lparr>nd_len := 0, nd_data := 48, nd_capacity := nat n, nd_offset := 0\<rparr>) b)
               \<lparr>buf_head := Some 0, buf_tail := Some 0\<rparr>"
  have rn: "recv_node l None b = Inr (0, ?b1)"
    using node_ok_0 [OF inv] nn l by (simp add: recv_node_def node_init_def)
  have rs: "size_of_int (RemainSpace (buf_nodes ?b1 0)) = nat n"
    using nn by (simp add: RemainSpace_def)
  have "recv_loop l (Recv_data bs # rest) 0 None b = Inl Out_of_bounds"
    by (subst recv_loop.simps, unfold rn sum.case prod.case Let_def rs list.case recv_ev.case)
      (use assms(5,6) nn cap in auto)
  then show ?thesis using room tail by (simp add: RecvAtMost_def Let_def l_def [symmetric])
qed

end
