(* ===== verification/Edn_Buffer_Shape.thy ===== *)
theory Edn_Buffer_Shape
  imports Edn_Buffer_Recv
begin

text \<open>
  The shape of the node list, for every operation, argument, callback and environment: there is
  never more than one node, it sits at \<open>buffer_\<close>, and its \<open>next\<close> is never written. No bound on
  sizes is assumed, so the invariant also covers the states in which the accounting has drifted.
\<close>

definition shape :: "edn_buffer \<Rightarrow> bool" where
  "shape b \<longleftrightarrow> buf_tail b = buf_head b \<and> (buf_head b = None \<or> buf_head b = Some 0)
     \<and> nd_next (buf_nodes b 0) = None"

named_theorems shape_intros "operations that keep the shape"

lemma shape_next: "shape b \<Longrightarrow> nd_next (buf_nodes b 0) = None"
  by (simp add: shape_def)

lemma shape_set_node [shape_intros]:
  "shape b \<Longrightarrow> (\<And>n. nd_next (f n) = nd_next n) \<Longrightarrow> shape (set_node a f b)"
  by (auto simp: shape_def)

lemma shape_upd [simp]:
  "shape (b\<lparr>buf_size := s\<rparr>) = shape b" "shape (b\<lparr>buf_bytes := m\<rparr>) = shape b"
  "shape (b\<lparr>buffer_node_num := k\<rparr>) = shape b"
  by (simp_all add: shape_def)

lemma shape_node_init: "shape b \<Longrightarrow> node_init a l b = Inr b' \<Longrightarrow> shape b' \<and> buf_head b' = buf_head b"
  by (auto simp: node_init_def shape_def split: if_splits)

lemma shape_node_write: "shape b \<Longrightarrow> node_write a d b = Inr b' \<Longrightarrow> shape b' \<and> buf_head b' = buf_head b"
  by (auto simp: node_write_def Let_def shape_def split: if_splits)

lemma shape_unlink:
  assumes "shape b"
  shows "unlink_head 0 b = Inr (b\<lparr>buf_head := None, buf_tail := None,
           buffer_node_num := buffer_node_num b - 1\<rparr>)"
    and "shape (b\<lparr>buf_head := None, buf_tail := None, buffer_node_num := k\<rparr>)"
  using assms by (auto simp: unlink_head_def shape_def)

lemma shape_get_next: "shape b \<Longrightarrow> get_next_node b l = (if buf_head b = None then Some 0 else None)"
  by (auto simp: shape_def get_next_node_single) (simp add: get_next_node_def)

lemma shape_write: "shape b \<Longrightarrow> buf_write cfg d b = Inr (c, b') \<Longrightarrow> shape b'"
proof -
  assume b: "shape b" and w: "buf_write cfg d b = Inr (c, b')"
  show "shape b'"
  proof (cases "buf_head b")
    case None
    have sh: "shape (b1\<lparr>buf_head := Some 0, buf_size := s, buffer_node_num := 1\<rparr>)"
      if "node_init 0 l (b\<lparr>buf_tail := Some 0\<rparr>) = Inr b0" "node_write 0 d b0 = Inr b1" for l b0 b1 s
      using b that by (auto simp: shape_def node_init_def node_write_def Let_def split: if_splits)
    have "buf_tail b = None" using b None by (simp add: shape_def)
    with w b show ?thesis
      by (auto simp: buf_write_def Let_def split: if_splits sum.splits intro: sh)
  next
    case (Some a)
    then have h: "buf_head b = Some 0" "buf_tail b = Some 0" using b by (auto simp: shape_def)
    have g: "get_next_node b1 l = None" if "node_write 0 d' b = Inr b1" for b1 d' l
      using shape_node_write [OF b that] h by (simp add: shape_get_next)
    from w b h show ?thesis
      by (auto simp: buf_write_def Let_def g dest: shape_node_write split: if_splits sum.splits)
  qed
qed

lemma shape_send_loop:
  "shape b \<Longrightarrow> node = None \<or> node = Some 0 \<Longrightarrow> send_loop script num node b sent = Inr (r, b', out, rest) \<Longrightarrow>
     shape b'"
proof (induction script arbitrary: num node b sent)
  case Nil
  then show ?case by (auto simp: send_loop.simps(2) split: if_splits)
next
  case (Cons e script)
  show ?case
  proof (cases node)
    case None
    then show ?thesis using Cons.prems by simp
  next
    case (Some a)
    then have a: "node = Some 0" using Cons.prems(2) by simp
    with Cons.prems(3) have ok: "send_ok b 0" "nd_len (buf_nodes b 0) \<noteq> 0"
      by (auto simp: send_loop.simps(2) send_ok_def split: if_splits)
    note step = send_loop_step [OF ok]
    show ?thesis
    proof (cases e)
      case (Err x)
      then show ?thesis
        using Cons a step(2-4) by (cases "x = EAGAIN"; cases "x = EINTR") auto
    next
      case (Ret k)
      define ret where "ret = min (nat k) (nd_len (buf_nodes b 0))"
      define o1 where "o1 = read_bytes (buf_bytes b) (nd_data (buf_nodes b 0) + nd_offset (buf_nodes b 0)) ret"
      define b1 where "b1 = (set_node 0 (\<lambda>n. n\<lparr>nd_offset := add64 (nd_offset n) ret, nd_len := nd_len n - ret\<rparr>) b)
                             \<lparr>buf_size := sub64 (buf_size b) ret\<rparr>"
      have sh1: "shape b1" using Cons.prems(1) by (auto simp: b1_def intro: shape_intros)
      note unf = step(5) [OF ret_def o1_def b1_def, of script num sent]
      show ?thesis
      proof (cases "nd_len (buf_nodes b 0) - ret = 0")
        case True
        with Cons.prems(3) a Ret unf shape_unlink [OF sh1] shape_next [OF sh1] show ?thesis by auto
      next
        case False
        with Cons.prems(3) a Ret unf
        have "send_loop script (num + int ret) (Some 0) b1 (sent @ o1) = Inr (r, b', out, rest)" by simp
        then show ?thesis using Cons.IH [OF sh1] by blast
      qed
    qed
  qed
qed

lemma shape_pop_loop: "shape b \<Longrightarrow> node = None \<or> node = Some 0 \<Longrightarrow> pop_loop fuel node len b = Inr b' \<Longrightarrow> shape b'"
proof (induction fuel arbitrary: node len b)
  case 0
  then show ?case by simp
next
  case (Suc fuel)
  show ?case
  proof (cases "node = None \<or> len = 0")
    case True
    then show ?thesis using Suc.prems by (auto split: if_splits)
  next
    case False
    then have a: "node = Some 0" and l: "len \<noteq> 0" using Suc.prems(2) by auto
    let ?n = "buf_nodes b 0" let ?u = "size_of_int len"
    have ok: "node_ok b 0" using Suc.prems(3) a l by (auto split: if_splits)
    show ?thesis
    proof (cases "?u < nd_len ?n")
      case True
      let ?b1 = "(set_node 0 (\<lambda>n. n\<lparr>nd_len := nd_len n - ?u, nd_offset := add64 (nd_offset n) ?u\<rparr>) b)
                   \<lparr>buf_size := sub64 (buf_size b) 0\<rparr>"
      have "shape ?b1" using Suc.prems(1) by (auto intro: shape_intros)
      moreover have "pop_loop fuel (Some 0) 0 ?b1 = Inr b'"
        using Suc.prems(3) a l ok True by (simp add: Let_def)
      ultimately show ?thesis by (intro Suc.IH [of ?b1 "Some 0" 0]) simp_all
    next
      case F: False
      show ?thesis
      proof (cases "nd_len ?n = ?u")
        case True
        let ?b1 = "b\<lparr>buf_head := None, buf_tail := None, buffer_node_num := buffer_node_num b - 1,
                     buf_size := sub64 (buf_size b) (nd_len ?n)\<rparr>"
        have "shape ?b1" using shape_unlink(2) [OF Suc.prems(1)] by (simp add: shape_def)
        moreover have "pop_loop fuel (Some 0) 0 ?b1 = Inr b'"
          using Suc.prems(3) a l ok F True shape_unlink(1) [OF Suc.prems(1)] by (simp add: Let_def)
        ultimately show ?thesis by (intro Suc.IH [of ?b1 "Some 0" 0]) simp_all
      next
        case T: False
        let ?b0 = "b\<lparr>buf_size := sub64 (buf_size b) (nd_len ?n)\<rparr>"
        let ?b1 = "?b0\<lparr>buf_head := None, buf_tail := None, buffer_node_num := buffer_node_num b - 1\<rparr>"
        have s0: "shape ?b0" using Suc.prems(1) by simp
        have "shape ?b1" using shape_unlink(2) [OF s0] .
        moreover have "pop_loop fuel None (int_of_size (sub64 ?u (nd_len ?n))) ?b1 = Inr b'"
          using Suc.prems(3) a l ok F T shape_unlink(1) [OF s0] shape_next [OF Suc.prems(1)]
          by (simp add: Let_def)
        ultimately show ?thesis by (intro Suc.IH [of ?b1 None]) simp_all
      qed
    qed
  qed
qed

lemma shape_PopData: "shape b \<Longrightarrow> PopData fuel len b = Inr b' \<Longrightarrow> shape b'"
  unfolding PopData_def by (rule shape_pop_loop) (auto simp: shape_def)

lemma shape_recv_node:
  "shape b \<Longrightarrow> node = buf_head b \<Longrightarrow> recv_node l node b = Inr (a, b1) \<Longrightarrow>
     shape b1 \<and> a = 0 \<and> buf_head b1 = Some 0"
  by (auto simp: recv_node_def shape_def node_init_def split: option.splits if_splits sum.splits)

lemma shape_recv_loop:
  "shape b \<Longrightarrow> node = buf_head b \<Longrightarrow> recv_loop l script num node b = Inr (ex, b', rest) \<Longrightarrow> shape b'"
proof (induction "sum_list (map recv_weight script)" arbitrary: script num node b rule: less_induct)
  case less
  obtain b1 where rn: "recv_node l node b = Inr (0, b1)" and sh1: "shape b1" "buf_head b1 = Some 0"
    using shape_recv_node [OF less.prems(1,2)] less.prems(3)
    by (subst (asm) recv_loop.simps) (fastforce split: sum.splits)
  let ?n = "buf_nodes b1 0"
  let ?room = "size_of_int (RemainSpace ?n)"
  note eq = less.prems(3) [unfolded recv_loop.simps [of l script num node b] rn sum.case prod.case Let_def]
  show ?case
  proof (cases script)
    case Nil
    with eq show ?thesis by simp
  next
    case (Cons e rest1)
    show ?thesis
    proof (cases e)
      case (Recv_err x)
      show ?thesis
      proof (cases "x = EINTR")
        case True
        then have "recv_loop l rest1 num (Some 0) b1 = Inr (ex, b', rest)" using eq Cons Recv_err by simp
        then show ?thesis using sh1 Cons Recv_err by (intro less.hyps [of rest1 b1 "Some 0"]) simp_all
      next
        case False
        with eq Cons Recv_err sh1(1) show ?thesis by (cases x) auto
      qed
    next
      case (Recv_data bs)
      define got where "got = take ?room bs"
      define rest2 where "rest2 = (if length got < length bs then Recv_data (drop (length got) bs) # rest1 else rest1)"
      define b2 where "b2 = (set_node 0 (\<lambda>n. n\<lparr>nd_len := add64 (nd_len n) (length got)\<rparr>) b1)
          \<lparr>buf_bytes := write_bytes (buf_bytes b1) (nd_data ?n + nd_offset ?n + nd_len ?n) got,
           buf_size := add64 (buf_size b1) (length got)\<rparr>"
      have sh2: "shape b2" "buf_head b2 = Some 0" using sh1 by (auto simp: b2_def intro: shape_intros)
      have gn: "get_next_node b2 l = None" using sh2 by (simp add: shape_get_next)
      note eq2 = eq [unfolded Cons Recv_data list.case recv_ev.case, folded got_def, folded rest2_def b2_def,
          unfolded gn option.case]
      show ?thesis
      proof (cases "length got = 0 \<or> nd_len (buf_nodes b2 0) = nd_capacity (buf_nodes b2 0)")
        case True
        with eq2 sh1(1) sh2(1) show ?thesis by (auto split: if_splits)
      next
        case False
        with eq2 have "recv_loop l rest2 (num + int (length got)) (Some 0) b2 = Inr (ex, b', rest)"
          by (auto split: if_splits)
        moreover have "sum_list (map recv_weight rest2) < sum_list (map recv_weight script)"
          using False Cons Recv_data by (auto simp: rest2_def intro!: diff_less)
        ultimately show ?thesis using sh2 by (intro less.hyps [of rest2 b2 "Some 0"]) simp_all
      qed
    qed
  qed
qed

lemma shape_consume_msgs:
  "shape b \<Longrightarrow> consume_msgs fuel tmp off len m b calls = Inr (o1, l1, b', c1) \<Longrightarrow> shape b'"
  by (induction fuel arbitrary: off len m b calls)
    (auto simp: Let_def dest: shape_PopData split: if_splits sum.splits)

lemma shape_consume_nodes:
  "shape b \<Longrightarrow> node = None \<or> node = Some 0 \<Longrightarrow>
     consume_nodes fuel al tmp off len node b calls = Inr (b', c1) \<Longrightarrow> shape b'"
proof (induction fuel arbitrary: tmp off len node b calls)
  case (Suc fuel)
  show ?case
  proof (cases node)
    case (Some a)
    then have a: "a = 0" using Suc.prems(2) by simp
    from Suc.prems(3) Some obtain tmp' len' m o1 l1 b1 c2 where
      c: "consume_msgs fuel tmp' off len' m b calls = Inr (o1, l1, b1, c2)"
      and n: "consume_nodes fuel al tmp' o1 l1 (nd_next (buf_nodes b1 0)) b1 c2 = Inr (b', c1)"
      by (auto simp: Let_def a split: if_splits sum.splits)
    from shape_consume_msgs [OF Suc.prems(1) c] have sh1: "shape b1" .
    show ?thesis using Suc.IH [OF sh1 disjI1 n] shape_next [OF sh1] by simp
  qed (use Suc.prems in auto)
qed simp

lemma shape_recv: "shape b \<Longrightarrow> RecvAtMost cfg fuel n script b = Inr (r, b', rest, calls) \<Longrightarrow> shape b'"
proof -
  assume b: "shape b" and r: "RecvAtMost cfg fuel n script b = Inr (r, b', rest, calls)"
  have t: "buf_tail b = buf_head b" using b by (simp add: shape_def)
  show "shape b'"
  proof (cases "recv_room b < size_of_int (recv_node_len cfg n)")
    case True
    with b r show ?thesis by (auto simp: RecvAtMost_def Let_def)
  next
    case False
    with r obtain ex b1 rest1 where l: "recv_loop (size_of_int (recv_node_len cfg n)) script 0 (buf_tail b) b
        = Inr (ex, b1, rest1)"
      by (auto simp: RecvAtMost_def Let_def split: sum.splits)
    have sh1: "shape b1" using shape_recv_loop [OF b _ l] t by simp
    then have h1: "buf_head b1 = None \<or> buf_head b1 = Some 0" by (simp add: shape_def)
    show ?thesis
    proof (cases ex)
      case (Recv_break k)
      with r l False obtain c where "consume_nodes fuel (buf_size b1) [] 0 0 (buf_head b1) b1 [] = Inr (b', c)"
        by (auto simp: RecvAtMost_def Let_def split: sum.splits)
      then show ?thesis using shape_consume_nodes [OF sh1 h1] by blast
    next
      case (Recv_return k)
      with r l False sh1 show ?thesis by (simp add: RecvAtMost_def Let_def)
    qed
  qed
qed

text \<open>The states a buffer reaches by its public operations, in any order and environment.\<close>

inductive buf_reachable :: "edn_config \<Rightarrow> edn_buffer \<Rightarrow> edn_buffer \<Rightarrow> bool" 
  for cfg :: edn_config and b0 :: edn_buffer where
  start: "buf_reachable cfg b0 b0"
| wr: "buf_reachable cfg b0 b \<Longrightarrow> buf_write cfg d b = Inr (c, b') \<Longrightarrow> buf_reachable cfg b0 b'"
| sent: "buf_reachable cfg b0 b \<Longrightarrow> SendAtMost script b = Inr (r, b', out, rest) \<Longrightarrow>
    buf_reachable cfg b0 b'"
| rcvd: "buf_reachable cfg b0 b \<Longrightarrow> RecvAtMost cfg fuel n rscript b = Inr (r, b', rrest, calls) \<Longrightarrow>
    buf_reachable cfg b0 b'"
| set_opt: "buf_reachable cfg b0 b \<Longrightarrow> buf_reachable cfg b0 (SetCallback_opt cb b)"
| set_handle: "buf_reachable cfg b0 b \<Longrightarrow> buf_reachable cfg b0 (SetCallback_handle h b)"
| set_end: "buf_reachable cfg b0 b \<Longrightarrow> buf_reachable cfg b0 (SetCallback_end e b)"

lemma reachable_shape: "buf_reachable cfg b0 b \<Longrightarrow> shape b0 \<Longrightarrow> shape b"
proof (induction rule: buf_reachable.induct)
  case (sent b script r b' out rest)
  then show ?case
    using shape_send_loop [of b "buf_head b"] by (auto simp: SendAtMost_def shape_def)
next
  case (wr b d c b')
  then show ?case using shape_write by blast
next
  case (rcvd b fuel n rscript r b' rrest calls)
  then show ?case using shape_recv by blast
qed (auto simp: shape_def SetCallback_opt_def SetCallback_handle_def SetCallback_end_def)

lemma shape_EdnBuffer: "nd_next (ns 0) = None \<Longrightarrow> shape (EdnBuffer cfg m ns)"
  by (simp add: shape_def EdnBuffer_def)

end
