(* ===== verification/Edn_Buffer_Properties.thy ===== *)
theory Edn_Buffer_Properties
  imports Edn_Buffer_Shape
begin

text \<open>
  What the buffers promise their clients, and where they do not keep it: the properties of
  \<open>Write\<close>, \<open>SendAtMost\<close> and \<open>RecvAtMost\<close> that the connection relies on.
\<close>

section \<open>Concrete buffers for the witnesses\<close>

definition zero_node :: buffer_node where
  "zero_node = \<lparr>nd_next = None, nd_prev = None, nd_len = 0, nd_offset = 0, nd_capacity = 0, nd_data = 0\<rparr>"

definition fresh_buffer :: edn_buffer where
  "fresh_buffer = EdnBuffer default_config (\<lambda>_. 0) (\<lambda>_. zero_node)"

lemma fresh_buffer_sel [simp]:
  "buf_head fresh_buffer = None" "buf_tail fresh_buffer = None" "buf_size fresh_buffer = 0"
  "buf_capacity fresh_buffer = 81920" "buffer_node_num fresh_buffer = 0"
  "handle_data_cb fresh_buffer = DefaultHandleDataCb" "message_end_cb fresh_buffer = DefaultMessageEndCb"
  "buf_nodes fresh_buffer = (\<lambda>_. zero_node)" "buf_bytes fresh_buffer = (\<lambda>_. 0)"
  by (simp_all add: fresh_buffer_def EdnBuffer_def default_config_def)

lemma default_config_sel [simp]:
  "buffer_len default_config = 81920" "min_buffer_node_len default_config = 4096"
  by (simp_all add: default_config_def)

lemma fresh_buffer_inv [simp]: "buf_inv fresh_buffer" "out_inv fresh_buffer" "in_inv default_config fresh_buffer"
  "idle_input default_config 0 fresh_buffer" "content fresh_buffer = []"
  by (simp_all add: buf_inv_def zero_node_def out_inv_def in_inv_def good_takes_all idle_input_def content_None)

section \<open>A channel that is drained between messages\<close>

text \<open>
  The contract under which an output buffer is a byte stream: a message put into a ready buffer
  is handed on whole by the next drain, which leaves the buffer ready again.
\<close>

fun relay :: "('d list \<Rightarrow> 's \<Rightarrow> 's option) \<Rightarrow> ('s \<Rightarrow> ('d list \<times> 's) option) \<Rightarrow> 'd list list \<Rightarrow> 's \<Rightarrow>
    ('d list \<times> 's) option" where
  "relay put drain [] s = Some ([], s)"
| "relay put drain (m # ms) s =
     (case put m s of
        None \<Rightarrow> None
      | Some s1 \<Rightarrow>
          (case drain s1 of
             None \<Rightarrow> None
           | Some (out, s2) \<Rightarrow> map_option (\<lambda>(outs, s3). (out @ outs, s3)) (relay put drain ms s2)))"

locale drained_channel =
  fixes ready :: "'s \<Rightarrow> bool"
    and accepts :: "'d list \<Rightarrow> bool"
    and put :: "'d list \<Rightarrow> 's \<Rightarrow> 's option"
    and drain :: "'s \<Rightarrow> ('d list \<times> 's) option"
  assumes put_ready: "ready s \<Longrightarrow> accepts m \<Longrightarrow> \<exists>s1. put m s = Some s1"
    and drain_put: "ready s \<Longrightarrow> accepts m \<Longrightarrow> put m s = Some s1 \<Longrightarrow>
      \<exists>s2. drain s1 = Some (m, s2) \<and> ready s2"
begin

lemma relay_all:
  "ready s \<Longrightarrow> \<forall>m\<in>set ms. accepts m \<Longrightarrow> \<exists>s'. relay put drain ms s = Some (concat ms, s') \<and> ready s'"
proof (induction ms arbitrary: s)
  case (Cons m ms)
  from put_ready [OF Cons.prems(1), of m] Cons.prems(2) obtain s1 where s1: "put m s = Some s1" by auto
  from drain_put [OF Cons.prems(1) _ s1] Cons.prems(2) obtain s2 where "drain s1 = Some (m, s2)" "ready s2"
    by auto
  with s1 Cons.IH [of s2] Cons.prems(2) show ?case by auto
qed simp

end

text \<open>The channel the output buffer implements: \<open>Write\<close>, then a \<open>SendAtMost\<close> the kernel takes whole.\<close>

definition out_ready :: "edn_config \<Rightarrow> edn_buffer \<Rightarrow> bool" where
  "out_ready cfg b \<longleftrightarrow> out_inv b \<and> buf_head b = None \<and> buf_size b = 0
     \<and> buf_capacity b = size_of_int (buffer_len cfg)"

definition fits_block :: "edn_config \<Rightarrow> u8 list \<Rightarrow> bool" where
  "fits_block cfg d \<longleftrightarrow> d \<noteq> [] \<and> int (length d) + 48 \<le> buffer_len cfg"

definition put_message :: "edn_config \<Rightarrow> u8 list \<Rightarrow> edn_buffer \<Rightarrow> edn_buffer option" where
  "put_message cfg d b = (case buf_write cfg d b of Inr (code, b1) \<Rightarrow> if code = EDN_OK then Some b1 else None
     | Inl f \<Rightarrow> None)"

definition drain_whole :: "edn_buffer \<Rightarrow> (u8 list \<times> edn_buffer) option" where
  "drain_whole b = (case SendAtMost [Ret (GetCapacity b)] b of Inr (r, b1, out, rest) \<Rightarrow> Some (out, b1) | Inl f \<Rightarrow> None)"

text \<open>A first write into a ready buffer.\<close>

lemma write_ready:
  assumes "wf_config cfg" "out_ready cfg b" "fits_block cfg d"
  shows "\<exists>b1. buf_write cfg d b = Inr (EDN_OK, b1) \<and> out_inv b1 \<and> content b1 = d \<and> accounted b1
     \<and> buf_head b1 = Some 0 \<and> buf_capacity b1 = buf_capacity b \<and> opt_cb b1 = opt_cb b
     \<and> low_water_mark b1 = low_water_mark b"
proof -
  have mb: "48 < min_buffer_node_len cfg" "min_buffer_node_len cfg \<le> buffer_len cfg"
    "buffer_len cfg < 1073741824" using assms(1) by (auto simp: wf_config_def)
  have b: "buf_inv b" "buf_head b = None" "buf_size b = 0" "buf_capacity b = nat (buffer_len cfg)"
    using assms(2) mb by (auto simp: out_ready_def out_inv_def)
  have d: "d \<noteq> []" "length d + 48 \<le> buf_capacity b" using assms(3) b(4) by (auto simp: fits_block_def)
  then have "length d < 2147483648" "max (length d + 48) (size_of_int (min_buffer_node_len cfg)) \<le> buf_capacity b - buf_size b"
    "buf_size b \<le> buf_capacity b" using b mb by auto
  from buf_write_first [OF assms(1) b(1,2) d(1) this(1) refl this(2,3)] b(3) d(1)
  obtain b1 where "buf_write cfg d b = Inr (EDN_OK, b1)" "buf_inv b1" "content b1 = d" "buf_head b1 = Some 0"
    "buf_size b1 = length d" by auto
  moreover from this(1) have "buf_capacity b1 = buf_capacity b \<and> opt_cb b1 = opt_cb b \<and> low_water_mark b1 = low_water_mark b"
    by (auto simp: buf_write_def Let_def node_init_def node_write_def set_node_def b(2) buf_inv_tail [OF b(1)]
        split: if_splits)
  ultimately show ?thesis using d(1) by (auto simp: out_inv_def accounted_def)
qed

text \<open>A kernel that takes everything empties the node; \<open>size_\<close> goes down by what was sent, modulo its width.\<close>

lemma drain_all:
  assumes "buf_inv b" "buf_head b = Some 0" "content b \<noteq> []" "length (content b) \<le> nat k"
  shows "\<exists>b2. SendAtMost (Ret k # rest) b = Inr (int (length (content b)), b2, content b, rest)
     \<and> buf_inv b2 \<and> buf_head b2 = None \<and> buf_size b2 = sub64 (buf_size b) (length (content b))
     \<and> buf_capacity b2 = buf_capacity b \<and> opt_cb b2 = opt_cb b \<and> low_water_mark b2 = low_water_mark b"
proof -
  let ?n = "buf_nodes b 0"
  note len = length_content_0 [OF assms(1,2)]
  have pos: "nd_len ?n \<noteq> 0" using assms(3) len by (metis length_0_conv)
  have k: "min (nat k) (nd_len ?n) = nd_len ?n" using assms(4) by (simp add: len)
  let ?b1 = "(set_node 0 (\<lambda>n. n\<lparr>nd_offset := add64 (nd_offset n) (nd_len ?n), nd_len := nd_len n - nd_len ?n\<rparr>) b)
               \<lparr>buf_size := sub64 (buf_size b) (nd_len ?n)\<rparr>"
  have u: "unlink_head 0 ?b1 = Inr (?b1\<lparr>buf_head := None, buf_tail := None,
             buffer_node_num := buffer_node_num ?b1 - 1\<rparr>)"
    by (rule unlink_head_single) (simp add: buf_inv_next [OF assms(1)])
  have out: "read_bytes (buf_bytes b) (nd_data ?n + nd_offset ?n) (nd_len ?n) = content b"
    using assms(2) by (simp add: content_Some)
  have "SendAtMost (Ret k # rest) b = Inr (int (length (content b)), ?b1\<lparr>buf_head := None, buf_tail := None,
             buffer_node_num := buffer_node_num b - 1\<rparr>, content b, rest)"
    unfolding SendAtMost_def assms(2)
      send_loop_step(5) [OF send_ok_0 [OF assms(1,2)] pos k [symmetric] out [symmetric] refl]
    using u buf_inv_next [OF assms(1)] by (simp add: len)
  moreover have "buf_inv (?b1\<lparr>buf_head := None, buf_tail := None, buffer_node_num := buffer_node_num b - 1\<rparr>)"
    using assms(1) by (auto simp: buf_inv_def)
  ultimately show ?thesis by (auto simp: set_node_def len)
qed

lemma drain_written:
  assumes "out_inv b" "accounted b" "buf_head b = Some 0" "buf_capacity b = size_of_int (buffer_len cfg)"
    "length (content b) \<le> nat k"
  shows "\<exists>b2. SendAtMost (Ret k # rest) b = Inr (int (length (content b)), b2, content b, rest)
     \<and> out_ready cfg b2 \<and> opt_cb b2 = opt_cb b \<and> low_water_mark b2 = low_water_mark b"
proof -
  have inv: "buf_inv b" and ne: "content b \<noteq> []" using assms(1,3) by (auto simp: out_inv_def)
  have "buf_size b < size_max" "buf_size b = length (content b)"
    using assms(2,3) inv by (auto simp: accounted_def content_Some buf_inv_def node_wf_def)
  with drain_all [OF inv assms(3) ne assms(5), of rest] assms(4) show ?thesis
    by (auto simp: out_ready_def out_inv_def)
qed

interpretation out: drained_channel "out_ready default_config" "fits_block default_config"
  "put_message default_config" drain_whole
proof
  fix s m
  assume s: "out_ready default_config s" "fits_block default_config m"
  from write_ready [OF default_config_wf s] obtain b1 where b1: "buf_write default_config m s = Inr (EDN_OK, b1)"
    "out_inv b1" "content b1 = m" "accounted b1" "buf_head b1 = Some 0" "buf_capacity b1 = buf_capacity s" by blast
  then show "\<exists>s1. put_message default_config m s = Some s1" by (simp add: put_message_def)
  fix s1
  assume "put_message default_config m s = Some s1"
  with b1(1) have "s1 = b1" by (simp add: put_message_def)
  moreover have all: "length (content b1) \<le> nat (GetCapacity b1)"
    using b1(2,5) by (auto simp: out_inv_def buf_inv_def node_wf_def content_Some GetCapacity_def)
  moreover have c: "buf_capacity b1 = size_of_int (buffer_len default_config)"
    using b1(6) s(1) by (simp only: out_ready_def)
  ultimately show "\<exists>s2. drain_whole s1 = Some (m, s2) \<and> out_ready default_config s2"
    using drain_written [OF b1(2,4,5) c all, of "[]"] b1(3) by (auto simp: drain_whole_def)
qed

lemma fresh_out_ready [simp]: "out_ready default_config fresh_buffer"
  by (simp add: out_ready_def)

section \<open>Properties\<close>



text \<open>C5: Round trip of one message: written into an empty output buffer it is accepted, and whatever the
  kernel answers, the bytes handed to \<open>send\<close> followed by what is still buffered are the message.
  Once all of it is sent the buffer is empty and accounts for 0 bytes.\<close>

theorem write_send_roundtrip:
  assumes "wf_config cfg" "out_ready cfg b" "fits_block cfg d"
  shows "\<exists>b1. buf_write cfg d b = Inr (EDN_OK, b1) \<and> content b1 = d \<and>
    (\<forall>script ret b2 out rest. SendAtMost script b1 = Inr (ret, b2, out, rest) \<longrightarrow>
       out @ content b2 = d \<and> (out = d \<longrightarrow> buf_head b2 = None \<and> buf_size b2 = 0))"
proof -
  from write_ready [OF assms] obtain b1 where b1: "buf_write cfg d b = Inr (EDN_OK, b1)" "out_inv b1"
    "content b1 = d" "accounted b1" "buf_head b1 = Some 0" by blast
  have small: "buf_size b1 < size_max"
    using b1(3,4) assms(1,3) by (simp add: accounted_def fits_block_def wf_config_def)
  have "out @ content b2 = d \<and> (out = d \<longrightarrow> buf_head b2 = None \<and> buf_size b2 = 0)"
    if s: "SendAtMost script b1 = Inr (ret, b2, out, rest)" for script ret b2 out rest
    using SendAtMost_spec [OF b1(2) s] b1(3,4) small by (auto simp: accounted_def out_inv_def)
  with b1 show ?thesis by blast
qed

text \<open>An exchange with a short write: two of three bytes go out, then the kernel would block.\<close>

lemma short_write_run:
  assumes "out_inv b1" "content b1 = d" "length d = 3" "buf_head b1 = Some 0"
  shows "\<exists>b' out. SendAtMost [Err EINTR, Ret 2, Err EAGAIN] b1 = Inr (2, b', out, [])"
proof -
  have ok: "send_ok b1 0" "nd_len (buf_nodes b1 0) = 3"
    using assms by (auto simp: out_inv_def send_ok_0 dest: arg_cong [where f = length] simp: content_Some)
  let ?b = "(set_node 0 (\<lambda>n. n\<lparr>nd_offset := add64 (nd_offset n) 2, nd_len := nd_len n - 2\<rparr>) b1)
      \<lparr>buf_size := sub64 (buf_size b1) 2\<rparr>"
  have ok': "send_ok ?b 0" "nd_len (buf_nodes ?b 0) \<noteq> 0" using ok by (auto simp: send_ok_def data_ok_def add64_def)
  show ?thesis
    using ok by (simp add: SendAtMost_def assms(4) send_loop_step send_loop_step(2) [OF ok'])
qed

theorem write_send_roundtrip_witness:
  "\<exists>b1 b2 out. buf_write default_config [1, 2, 3] fresh_buffer = Inr (EDN_OK, b1) \<and> content b1 = [1, 2, 3]
    \<and> SendAtMost [Err EINTR, Ret 2, Err EAGAIN] b1 = Inr (2, b2, out, []) \<and> out @ content b2 = [1, 2, 3]"
proof -
  have f: "fits_block default_config [1, 2, 3]" by (simp add: fits_block_def)
  from write_ready [OF default_config_wf fresh_out_ready f] obtain b where b:
    "buf_write default_config [1, 2, 3] fresh_buffer = Inr (EDN_OK, b)" "out_inv b" "content b = [1, 2, 3]"
    "buf_head b = Some 0" by blast
  from write_send_roundtrip [OF default_config_wf fresh_out_ready f] short_write_run [OF b(2,3) _ b(4)] b(1)
  show ?thesis by fastforce
qed

text \<open>C17: Any number of messages sent one at a time, each drained before the next is written, arrive as
  their concatenation: nothing is lost, repeated or reordered.\<close>

theorem drained_messages_in_order:
  assumes "out_ready default_config b" "\<forall>d\<in>set ds. fits_block default_config d"
  shows "\<exists>b'. relay (put_message default_config) drain_whole ds b = Some (concat ds, b')
    \<and> out_ready default_config b'"
  by (rule out.relay_all [OF assms])

theorem drained_messages_in_order_witness:
  "\<exists>b'. relay (put_message default_config) drain_whole [[1, 2], [3]] fresh_buffer = Some (concat [[1, 2], [3]], b')
    \<and> out_ready default_config b'"
  by (rule drained_messages_in_order) (simp_all add: fits_block_def)

text \<open>C19: \<open>SendAtMost\<close> hands the kernel a prefix of the content and keeps the rest, for every sequence of
  kernel answers (short writes, would-block, interrupts, errors), returns the number of bytes sent or
  the system error, and takes exactly that number off \<open>size_\<close>.\<close>

theorem send_conserves:
  assumes "out_inv b" "accounted b" "SendAtMost script b = Inr (ret, b', out, rest)"
  shows "out @ content b' = content b \<and> out_inv b' \<and> accounted b'
    \<and> (ret = EDN_ERR_SYS_ERROR \<or> ret = int (length out))"
proof -
  have "length (content b) < size_max"
  proof (cases "buf_head b")
    case (Some a)
    then show ?thesis using assms(1)
      by (auto simp: out_inv_def buf_inv_def node_wf_def content_Some)
  qed (simp add: content_None)
  with SendAtMost_spec [OF assms(1,3)] assms(2) show ?thesis
    by (auto simp: accounted_def dest: arg_cong [where f = length])
qed

theorem send_conserves_witness:
  "\<exists>b1 b' out. put_message default_config [7, 8, 9] fresh_buffer = Some b1
    \<and> SendAtMost [Err EINTR, Ret 2, Err EAGAIN] b1 = Inr (2, b', out, [])
    \<and> out @ content b' = content b1 \<and> content b1 = [7, 8, 9]"
proof -
  have f: "fits_block default_config [7, 8, 9]" by (simp add: fits_block_def)
  from write_ready [OF default_config_wf fresh_out_ready f] obtain b1 where b1:
    "buf_write default_config [7, 8, 9] fresh_buffer = Inr (EDN_OK, b1)" "out_inv b1"
    "content b1 = [7, 8, 9]" "accounted b1" "buf_head b1 = Some 0" by blast
  from short_write_run [OF b1(2,3) _ b1(5)] obtain b' out where
    s: "SendAtMost [Err EINTR, Ret 2, Err EAGAIN] b1 = Inr (2, b', out, [])" by auto
  from send_conserves [OF b1(2,4) s] b1 s show ?thesis by (auto simp: put_message_def)
qed




text \<open>C34: A \<open>Write\<close> that finds earlier bytes still unsent in the node is accepted and destroys them:
  \<open>BufferNode::Write\<close> copies to \<open>data + offset\<close> instead of behind the \<open>len\<close> pending bytes, so the new
  message takes the place of the front of the old one, and the node then counts bytes at its end that
  nobody wrote.\<close>

theorem write_overwrites_pending:
  assumes "wf_config cfg" "buf_inv b" "buf_head b = Some 0" "d \<noteq> []" "int (length d) < 2147483648"
    "max (length d + 48) (size_of_int (min_buffer_node_len cfg)) \<le> sub64 (buf_capacity b) (buf_size b)"
    "nd_len (buf_nodes b 0) + nd_offset (buf_nodes b 0) + length d \<le> nd_capacity (buf_nodes b 0)"
  shows "\<exists>b'. buf_write cfg d b = Inr (EDN_OK, b')
    \<and> content b' = d @ drop (length d) (content b @ read_bytes (buf_bytes b)
         (48 + nd_offset (buf_nodes b 0) + nd_len (buf_nodes b 0)) (length d))
    \<and> buf_size b' = add64 (buf_size b) (length d)"
  using buf_write_append [OF assms(1-4) _ assms(6,7)] assms(5) by auto

theorem write_overwrites_pending_witness:
  "\<exists>b1 b2. put_message default_config [1, 2, 3] fresh_buffer = Some b1
    \<and> buf_write default_config [4, 5] b1 = Inr (EDN_OK, b2) \<and> content b1 = [1, 2, 3]
    \<and> take 3 (content b2) = [4, 5, 3] \<and> length (content b2) = 5"
proof -
  from buf_write_first [OF default_config_wf fresh_buffer_inv(1) fresh_buffer_sel(1), of "[1, 2, 3]" 4096]
  obtain b1 where b1: "buf_write default_config [1, 2, 3] fresh_buffer = Inr (EDN_OK, b1)" "buf_inv b1"
    "content b1 = [1, 2, 3]" "buf_head b1 = Some 0" "buf_size b1 = 3"
    "nd_capacity (buf_nodes b1 0) = 4048" "nd_offset (buf_nodes b1 0) = 0" by auto
  have l: "nd_len (buf_nodes b1 0) = 3" using length_content_0 [OF b1(2,4)] b1(3) by simp
  have c: "buf_capacity b1 = 81920"
    using b1(1) by (auto simp: buf_write_def Let_def node_init_def node_write_def split: if_splits)
  from write_overwrites_pending [OF default_config_wf b1(2,4), of "[4, 5]"] b1 l c
  obtain b2 where "buf_write default_config [4, 5] b1 = Inr (EDN_OK, b2)"
    "content b2 = [4, 5] @ drop 2 ([1, 2, 3] @ read_bytes (buf_bytes b1) 51 2)"
    by (auto simp: numeral_2_eq_2)
  with b1(1,3) show ?thesis by (auto simp: put_message_def)
qed

text \<open>A message that does not fit behind the pending bytes is not refused whole: with room for \<open>r\<close>
  bytes left in the node, \<open>Write\<close> returns \<open>EDN_ERR_BUFFER_NOT_ENOUGH\<close> after the node has taken \<open>r\<close> of
  them, without counting them in \<open>size_\<close>; with no room left it fails its assertion.\<close>

theorem write_overflow_not_atomic:
  assumes "wf_config cfg" "buf_inv b" "buf_head b = Some 0" "int (length d) < 2147483648"
    "max (length d + 48) (size_of_int (min_buffer_node_len cfg)) \<le> sub64 (buf_capacity b) (buf_size b)"
    "r = nd_capacity (buf_nodes b 0) - nd_len (buf_nodes b 0) - nd_offset (buf_nodes b 0)" "r < length d"
  shows "if r = 0 then buf_write cfg d b = Inl Assert_failed
    else \<exists>b'. buf_write cfg d b = Inr (EDN_ERR_BUFFER_NOT_ENOUGH, b') \<and> buf_size b' = buf_size b
      \<and> length (content b') = length (content b) + r"
  using buf_write_overflow [OF assms(1-3) _ assms(5-7)] assms(4) by auto

theorem write_overflow_not_atomic_witness:
  "\<exists>b1 b2. put_message default_config (replicate 4040 1) fresh_buffer = Some b1
    \<and> buf_write default_config (replicate 10 2) b1 = Inr (EDN_ERR_BUFFER_NOT_ENOUGH, b2)
    \<and> buf_size b2 = 4040 \<and> length (content b2) = 4048"
proof -
  have "replicate 4040 (1::u8) \<noteq> []" by (simp add: replicate_empty)
  from buf_write_first [OF default_config_wf fresh_buffer_inv(1) fresh_buffer_sel(1) this, of 4096]
  obtain b1 where b1: "buf_write default_config (replicate 4040 1) fresh_buffer = Inr (EDN_OK, b1)" "buf_inv b1"
    "content b1 = replicate 4040 1" "buf_head b1 = Some 0" "buf_size b1 = 4040"
    "nd_capacity (buf_nodes b1 0) = 4048" "nd_offset (buf_nodes b1 0) = 0" by auto
  have l: "nd_len (buf_nodes b1 0) = 4040" using length_content_0 [OF b1(2,4)] b1(3) by simp
  have c: "buf_capacity b1 = 81920"
    using b1(1) by (auto simp: buf_write_def Let_def node_init_def node_write_def split: if_splits)
  from write_overflow_not_atomic [OF default_config_wf b1(2,4), of "replicate 10 2" 8] b1 l c
  obtain b2 where "buf_write default_config (replicate 10 2) b1 = Inr (EDN_ERR_BUFFER_NOT_ENOUGH, b2)"
    "buf_size b2 = 4040" "length (content b2) = 4048" by auto
  with b1(1,3) show ?thesis by (auto simp: put_message_def)
qed



text \<open>C6: \<open>RecvAtMost\<close> loses, repeats and reorders nothing, for every sequence of arrivals and errors and
  every pair of callbacks that keep their contract: the bytes the handler consumed, then what is still
  buffered, then what has not been received, are the bytes there were. When the handler was called,
  what stays buffered is no complete message.\<close>

theorem recv_conserves:
  assumes "wf_config cfg" "in_inv cfg b" "buf_size b + buf_capacity b < size_max"
    "- 1 \<le> n" "n + 48 \<le> int (buf_capacity b)" "buf_capacity b + 4 < fuel"
  shows "(RecvAtMost cfg fuel n script b = Inl Script_end) \<or>
    (\<exists>ret b' rest calls. RecvAtMost cfg fuel n script b = Inr (ret, b', rest, calls) \<and> in_inv cfg b'
      \<and> content b @ stream script = consumed calls @ content b' @ stream rest
      \<and> (calls \<noteq> [] \<longrightarrow> message_end_cb b (content b') (int (length (content b'))) = 0))"
  using RecvAtMost_spec [OF assms, of script] by blast

theorem recv_conserves_witness:
  "\<exists>ret b' rest calls. RecvAtMost default_config 100000 3 [Recv_data [1, 2, 3], Recv_err EAGAIN] fresh_buffer
      = Inr (ret, b', rest, calls) \<and> in_inv default_config b' \<and> [1, 2, 3] = consumed calls @ content b' @ stream rest"
proof -
  have c: "fresh_buffer = fresh_buffer" "([1, 2, 3] :: u8 list) \<noteq> []" by simp_all
  from recv_cycle [OF default_config_wf fresh_buffer_inv(4) c(2), where fuel = 100000 and rest = "[]"]
  have r: "RecvAtMost default_config 100000 3 [Recv_data [1, 2, 3], Recv_err EAGAIN] fresh_buffer \<noteq> Inl Script_end"
    by auto
  from recv_conserves [OF default_config_wf fresh_buffer_inv(3), of 3 100000
      "[Recv_data [1, 2, 3], Recv_err EAGAIN]"] r show ?thesis by auto
qed

text \<open>The account of an input buffer is right only when it is drained in one go: after a \<open>RecvAtMost\<close>
  that called the handler, \<open>size_\<close> has grown by the bytes received less only what the last call took if
  that call emptied the buffer, since \<open>__PopData\<close> zeroes \<open>len\<close> before it takes it off \<open>size_\<close>.\<close>

theorem recv_size_account:
  assumes "wf_config cfg" "in_inv cfg b" "buf_size b + buf_capacity b < size_max"
    "- 1 \<le> n" "n + 48 \<le> int (buf_capacity b)" "buf_capacity b + 4 < fuel"
    "RecvAtMost cfg fuel n script b = Inr (ret, b', rest, calls)" "calls \<noteq> []"
  shows "int (buf_size b') = int (buf_size b) + int (length (stream script)) - int (length (stream rest))
      - (if content b' = [] then snd (last calls) else 0)"
  using RecvAtMost_spec [OF assms(1-6), of script] assms(7,8) by auto

text \<open>A framing callback with messages of two bytes, and the handler that takes them.\<close>

definition two_bytes :: "u8 list \<Rightarrow> int \<Rightarrow> nat" where
  "two_bytes data len = (if 2 \<le> length data then 2 else 0)"

definition framed_buffer :: edn_buffer where
  "framed_buffer = SetCallback_end two_bytes fresh_buffer"

lemma framed_in_inv: "in_inv default_config framed_buffer"
  by (auto simp: in_inv_def framed_buffer_def SetCallback_end_def buf_inv_def content_def zero_node_def
      good_callbacks_def two_bytes_def DefaultHandleDataCb_def)

lemma eight_le: "8 \<le> fuel \<Longrightarrow> \<exists>f. fuel = Suc (Suc (Suc (Suc (Suc (Suc (Suc (Suc f)))))))"
  by presburger

lemma framed_run:
  assumes "8 \<le> fuel"
  shows "\<exists>ret b' calls. RecvAtMost default_config fuel 4 [Recv_data [1, 2, 3, 4], Recv_err EAGAIN] framed_buffer
      = Inr (ret, b', [], calls) \<and> content b' = [] \<and> calls \<noteq> [] \<and> snd (last calls) = 2"
proof -
  obtain f where f: "fuel = Suc (Suc (Suc (Suc (Suc (Suc (Suc (Suc f)))))))" using eight_le [OF assms] by blast
  show ?thesis
    unfolding f
    by (simp add: framed_buffer_def SetCallback_end_def fresh_buffer_def EdnBuffer_def RecvAtMost_def
        recv_node_len_eq recv_room_def recv_loop.simps recv_node_def node_init_def set_node_def node_ok_def
        RemainSpace_def end_of_message_def two_bytes_def PopData_def DefaultHandleDataCb_def unlink_head_def
        zero_node_def content_def data_ok_def Let_def upt_conv_Cons read_bytes_def write_bytes_def)
qed

theorem recv_size_account_witness:
  "\<exists>ret b' calls. RecvAtMost default_config 100000 4 [Recv_data [1, 2, 3, 4], Recv_err EAGAIN] framed_buffer
      = Inr (ret, b', [], calls) \<and> content b' = [] \<and> buf_size b' = 2"
proof -
  obtain ret b' calls where r: "RecvAtMost default_config 100000 4 [Recv_data [1, 2, 3, 4], Recv_err EAGAIN]
      framed_buffer = Inr (ret, b', [], calls)" "content b' = []" "calls \<noteq> []" "snd (last calls) = 2"
    using framed_run [of 100000] by auto
  from recv_size_account [OF default_config_wf framed_in_inv _ _ _ _ r(1,3)] r show ?thesis
    by (auto simp: framed_buffer_def SetCallback_end_def)
qed

text \<open>C35: A burst as large as the node \<open>RecvAtMost\<close> made for it is not delivered: the node fills, there is
  never a second one, and the call returns \<open>EDN_ERR_BUFFER_NOT_ENOUGH\<close> without calling the handler. From
  then on every call returns at once with data still waiting: the input is stuck for good.\<close>

theorem recv_burst_stuck:
  assumes "wf_config cfg" "in_inv cfg b" "buf_head b = None" "buf_size b + buf_capacity b < size_max"
    "- 1 \<le> n" "n + 48 \<le> int (buf_capacity b)"
    "size_of_int (recv_node_len cfg n) \<le> recv_room b" "size_of_int (recv_node_len cfg n) - 48 \<le> length bs"
  shows "\<exists>b' rest'. RecvAtMost cfg fuel n (Recv_data bs # rest) b = Inr (EDN_ERR_BUFFER_NOT_ENOUGH, b', rest', [])
    \<and> content b' = take (size_of_int (recv_node_len cfg n) - 48) bs
    \<and> (\<forall>fuel' n' bs' rest2. bs' \<noteq> [] \<longrightarrow>
         (\<exists>code. RecvAtMost cfg fuel' n' (Recv_data bs' # rest2) b' = Inr (code, b', Recv_data bs' # rest2, [])
            \<and> code \<in> {0, EDN_ERR_BUFFER_NOT_ENOUGH}))"
proof -
  from recv_fill [OF assms(1-6) refl assms(7,8), of fuel rest] obtain b' rest' where
    "RecvAtMost cfg fuel n (Recv_data bs # rest) b = Inr (EDN_ERR_BUFFER_NOT_ENOUGH, b', rest', [])" "buf_inv b'"
    "buf_head b' = Some 0" "content b' = take (size_of_int (recv_node_len cfg n) - 48) bs"
    "nd_len (buf_nodes b' 0) + nd_offset (buf_nodes b' 0) = nd_capacity (buf_nodes b' 0)" by blast
  with recv_stuck [of b'] show ?thesis by blast
qed

lemma fresh_recv_room: "recv_room fresh_buffer = 81920"
  using recv_room_drift [of fresh_buffer 0] by simp

theorem recv_burst_stuck_witness:
  "\<exists>b' rest'. RecvAtMost default_config 100 5000 [Recv_data (replicate 5000 7)] fresh_buffer
      = Inr (EDN_ERR_BUFFER_NOT_ENOUGH, b', rest', []) \<and> length (content b') = 5000"
proof -
  have l: "size_of_int (recv_node_len default_config 5000) = 5048" by (simp add: recv_node_len_eq)
  have r: "size_of_int (recv_node_len default_config 5000) \<le> recv_room fresh_buffer"
    "size_of_int (recv_node_len default_config 5000) - 48 \<le> length (replicate 5000 (7::u8))"
    by (simp_all add: l fresh_recv_room)
  from recv_burst_stuck [OF default_config_wf fresh_buffer_inv(3) fresh_buffer_sel(1) _ _ _ r, of 100 "[]"]
  obtain b' rest' where "RecvAtMost default_config 100 5000 [Recv_data (replicate 5000 7)] fresh_buffer
      = Inr (EDN_ERR_BUFFER_NOT_ENOUGH, b', rest', [])" "content b' = take 5000 (replicate 5000 7)"
    by (auto simp: l)
  then show ?thesis by auto
qed

text \<open>C26: \<open>buffer_node_num_\<close> is not counted up when \<open>RecvAtMost\<close> starts its node but is counted down when
  the node is popped: after \<open>k\<close> messages, each received and consumed whole, the room test lets through up
  to \<open>48 * k\<close> bytes more than the block holds, and \<open>recv\<close> writes behind it.\<close>

theorem recv_drift_overflow:
  assumes "wf_config cfg" "idle_input cfg 0 b"
    "\<forall>m\<in>set ms. m \<noteq> [] \<and> int (length m) + 48 < min_buffer_node_len cfg" "length ms < 1000000" "5 \<le> fuel"
    "buffer_len cfg < n + 48" "n + 48 \<le> buffer_len cfg + 48 * int (length ms)" "n \<le> int (length bs)"
  shows "\<exists>b'. recv_series cfg fuel ms b = Inr b' \<and> buf_head b' = None \<and> buf_size b' = 0
    \<and> RecvAtMost cfg fuel n (Recv_data bs # rest) b' = Inl Out_of_bounds"
proof -
  from recv_series_idle [OF assms(1,2,3) _ assms(5)] assms(4) obtain b' where
    b': "recv_series cfg fuel ms b = Inr b'" "idle_input cfg (length ms) b'" by auto
  have "int (buf_capacity b') = buffer_len cfg" using b'(2) assms(1) by (auto simp: idle_input_def wf_config_def)
  with recv_overflow [OF assms(1) b'(2) assms(4) _ _ assms(8)] assms(6,7) b' show ?thesis
    by (auto simp: idle_input_def)
qed

theorem recv_drift_overflow_witness:
  "\<exists>b'. recv_series default_config 5 [[1], [2]] fresh_buffer = Inr b' \<and> buf_head b' = None \<and> buf_size b' = 0
    \<and> RecvAtMost default_config 5 81960 [Recv_data (replicate 81960 7)] b' = Inl Out_of_bounds"
  by (rule recv_drift_overflow) simp_all

text \<open>A handler that reports more bytes than it was given makes \<open>__PopData\<close> follow the null \<open>next\<close> of the
  only node.\<close>

theorem pop_overrun_faults:
  assumes "buf_inv b" "buf_head b = Some 0" "int (nd_len (buf_nodes b 0)) < r" "r < 2147483648" "2 \<le> fuel"
  shows "PopData fuel r b = Inl Null_deref"
proof -
  obtain f where "fuel = Suc (Suc f)" using assms(5) by (metis add_2_eq_Suc le_Suc_ex)
  then show ?thesis using PopData_overrun [OF assms(1-4)] by simp
qed

theorem pop_overrun_faults_witness:
  "\<exists>b. put_message default_config [1, 2, 3] fresh_buffer = Some b \<and> PopData 2 4 b = Inl Null_deref"
proof -
  have f: "fits_block default_config [1, 2, 3]" by (simp add: fits_block_def)
  from write_ready [OF default_config_wf fresh_out_ready f] obtain b where b:
    "buf_write default_config [1, 2, 3] fresh_buffer = Inr (EDN_OK, b)" "out_inv b" "content b = [1, 2, 3]"
    "buf_head b = Some 0" by blast
  have inv: "buf_inv b" using b(2) by (simp add: out_inv_def)
  have "nd_len (buf_nodes b 0) = 3" using length_content_0 [OF inv b(4)] b(3) by simp
  with pop_overrun_faults [OF inv b(4), of 4 2] b(1) show ?thesis by (auto simp: put_message_def)
qed

end
