(* ===== verification/Edn_Buffer_Drift.thy ===== *)
theory Edn_Buffer_Drift
  imports Edn_Buffer_Properties
begin

text \<open>
  What the error path of \<open>Write\<close> leads to: the bytes it copies without counting them make \<open>size_\<close> wrap below
  zero when they are sent, and the guard of the next \<open>Write\<close> then admits more than the block holds.
\<close>

lemma sub64_below: "a < size_max \<Longrightarrow> 0 < r \<Longrightarrow> r < size_max \<Longrightarrow> a + r < size_max \<Longrightarrow> sub64 a (a + r) = size_max - r"
  by (simp add: sub64_wrap)

lemma sub64_above: "0 < r \<Longrightarrow> r < size_max \<Longrightarrow> a + r < size_max \<Longrightarrow> sub64 a (size_max - r) = a + r"
  by (simp add: sub64_def)

text \<open>A first write into an empty buffer whose account has wrapped by \<open>r\<close>: up to \<open>r\<close> bytes too many pass the guard.\<close>

lemma write_after_wrap:
  assumes "wf_config cfg" "buf_inv b" "buf_head b = None" "0 < r" "r < 1073741824" "buf_size b = size_max - r"
    "buf_capacity b < length d + 48" "length d + 48 \<le> buf_capacity b + r" "buf_capacity b = size_of_int (buffer_len cfg)"
  shows "buf_write cfg d b = Inl Out_of_bounds"
proof -
  have cap: "48 < buf_capacity b" "buf_capacity b < 1073741824" using assms(2) by (auto dest: buf_inv_cap)
  have mn: "size_of_int (min_buffer_node_len cfg) \<le> buf_capacity b" using wf_configD(2) [OF assms(1)] assms(9) by simp
  have nl: "max (add64 (length d) sizeof_BufferNode) (size_of_int (min_buffer_node_len cfg)) = length d + 48"
    using assms(5,7,8) cap mn by simp
  have room: "sub64 (buf_capacity b) (buf_size b) = buf_capacity b + r"
    unfolding assms(6) using assms(4,5) cap by (intro sub64_above) simp_all
  have g: "\<not> sub64 (buf_capacity b) (buf_size b) < length d + 48" using room assms(8) by simp
  have d: "d \<noteq> []" using assms(7) cap by auto
  have tail: "buf_tail b = None" using assms(2,3) by (simp add: buf_inv_tail)
  have "node_ok (b\<lparr>buf_tail := Some 0\<rparr>) 0" using cap by (simp add: node_ok_def)
  then show ?thesis
    unfolding buf_write_def Let_def nl if_not_P [OF g] tail option.case
    using assms(7) d by (simp add: node_init_def node_write_def Let_def)
qed

text \<open>C25: A refused message leads to a heap overflow: a second message that does not fit behind an unsent first one is
  refused after its first \<open>r\<close> bytes were copied; once all is sent \<open>size_\<close> has wrapped to \<open>2 ^ 64 - r\<close>, and a
  message of up to \<open>r\<close> bytes more than the block holds is written past its end.\<close>

theorem write_drift_overflow:
  assumes "wf_config cfg" "out_ready cfg b" "d1 \<noteq> []" "size_of_int (min_buffer_node_len cfg) = 48 + length d1 + r"
    "0 < r" "r < length d2"
    "max (length d2 + 48) (size_of_int (min_buffer_node_len cfg)) + length d1 \<le> size_of_int (buffer_len cfg)"
    "size_of_int (buffer_len cfg) < length d3 + 48" "length d3 + 48 \<le> size_of_int (buffer_len cfg) + r"
    "length d1 + r \<le> nat k"
  shows "\<exists>b1 b2 b3 out. buf_write cfg d1 b = Inr (EDN_OK, b1) \<and> buf_write cfg d2 b1 = Inr (EDN_ERR_BUFFER_NOT_ENOUGH, b2)
    \<and> SendAtMost [Ret k] b2 = Inr (int (length d1 + r), b3, out, []) \<and> buf_size b3 = size_max - r
    \<and> buf_write cfg d3 b3 = Inl Out_of_bounds"
proof -
  note mb = wf_configD [OF assms(1)]
  have b: "buf_inv b" "buf_head b = None" "buf_size b = 0" "buf_capacity b = size_of_int (buffer_len cfg)"
    using assms(2) by (simp_all add: out_ready_def out_inv_def)
  have l: "length d1 < 2147483648" "length d2 < 2147483648" "length d1 + r < 1073741824"
    using mb assms(4,7) by simp_all
  have n1: "size_of_int (min_buffer_node_len cfg) = max (length d1 + 48) (size_of_int (min_buffer_node_len cfg))"
    using assms(4) by simp
  have "size_of_int (min_buffer_node_len cfg) \<le> buf_capacity b - buf_size b" "buf_size b \<le> buf_capacity b"
    using mb b by simp_all
  from buf_write_first [OF assms(1) b(1,2) assms(3) l(1) n1 this] b(3) obtain b1 where
    b1: "buf_write cfg d1 b = Inr (EDN_OK, b1)" "buf_inv b1" "content b1 = d1" "buf_head b1 = Some 0"
      "buf_size b1 = length d1" "nd_capacity (buf_nodes b1 0) = length d1 + r" "nd_offset (buf_nodes b1 0) = 0"
    using assms(4) by auto
  have cap1: "buf_capacity b1 = size_of_int (buffer_len cfg)"
  proof -
    have "fits_block cfg d1" using assms(1,3,4) mb(2) by (auto simp: fits_block_def wf_config_def)
    from write_ready [OF assms(1,2) this] b1(1) b(4) show ?thesis by auto
  qed
  have "nd_len (buf_nodes b1 0) = length d1" using length_content_0 [OF b1(2,4)] b1(3) by simp
  then have r: "r = nd_capacity (buf_nodes b1 0) - nd_len (buf_nodes b1 0) - nd_offset (buf_nodes b1 0)"
    using b1(6,7) by simp
  have room: "max (length d2 + 48) (size_of_int (min_buffer_node_len cfg)) \<le> sub64 (buf_capacity b1) (buf_size b1)"
  proof -
    have "sub64 (buf_capacity b1) (buf_size b1) = size_of_int (buffer_len cfg) - length d1"
      using assms(7) mb(3) by (simp add: cap1 b1(5))
    then show ?thesis using assms(7) by linarith
  qed
  from buf_write_overflow(2) [OF assms(1) b1(2,4) l(2) room r assms(6,5)] b1(3,5) cap1 obtain b2 where
    b2: "buf_write cfg d2 b1 = Inr (EDN_ERR_BUFFER_NOT_ENOUGH, b2)" "buf_inv b2" "buf_head b2 = Some 0"
      "buf_size b2 = length d1" "length (content b2) = length d1 + r" "buf_capacity b2 = size_of_int (buffer_len cfg)"
    by auto
  have ne: "content b2 \<noteq> []" using b2(5) assms(3) by (cases "content b2") auto
  have kk: "length (content b2) \<le> nat k" using b2(5) assms(10) by simp
  from drain_all [OF b2(2,3) ne kk, of "[]"] obtain b3 where
    b3: "SendAtMost [Ret k] b2 = Inr (int (length d1 + r), b3, content b2, [])" "buf_inv b3" "buf_head b3 = None"
      "buf_size b3 = sub64 (length d1) (length d1 + r)" "buf_capacity b3 = size_of_int (buffer_len cfg)"
    by (auto simp: b2(4,5,6))
  have s3: "buf_size b3 = size_max - r" unfolding b3(4) using assms(5) l(3) by (intro sub64_below) simp_all
  have "buf_write cfg d3 b3 = Inl Out_of_bounds"
    by (rule write_after_wrap [OF assms(1) b3(2,3) assms(5) _ s3]) (use assms(8,9) l(3) b3(5) in simp_all)
  with b1(1) b2(1) b3(1) s3 show ?thesis by blast
qed

theorem write_drift_overflow_witness:
  "\<exists>b1 b2 b3 out. buf_write default_config (replicate 4040 1) fresh_buffer = Inr (EDN_OK, b1)
    \<and> buf_write default_config (replicate 10 2) b1 = Inr (EDN_ERR_BUFFER_NOT_ENOUGH, b2)
    \<and> SendAtMost [Ret 65536] b2 = Inr (4048, b3, out, []) \<and> buf_write default_config (replicate 81880 3) b3 = Inl Out_of_bounds"
proof -
  have "replicate 4040 (1::u8) \<noteq> []" by (simp add: replicate_empty)
  from write_drift_overflow [OF default_config_wf fresh_out_ready this, of 8 "replicate 10 2" "replicate 81880 3" 65536]
  show ?thesis by auto
qed

end
