(* ===== verification/Edn_Event.thy ===== *)
theory Edn_Event
  imports Edn_Define
begin

text \<open>
  Events (\<open>event/edn_event.h\<close>, \<open>event/edn_event.cpp\<close>) and I/O events
  (\<open>event/edn_io_event.h\<close>, \<open>event/edn_io_event.cpp\<close>): the interest and readiness masks, the connection
  status, and the tasks an activation puts into the thread pool.

  The class hierarchy is record extension: an operation of the base class works on every
  extension. The five callbacks are names (\<open>io_cb\<close>): the default ones of this file, those of
  \<open>EdnConnect\<close>, the user's, and \<open>Cb_empty\<close> for an empty \<open>std::function\<close>.
\<close>

unbundle bit_operations_syntax

section \<open>Masks\<close>

definition EV_WRITE :: u32 where [simp]: "EV_WRITE = 1"
definition EV_READ :: u32 where [simp]: "EV_READ = 2"
definition EV_PERSIST :: u32 where [simp]: "EV_PERSIST = 4"
definition EV_SIGNAL :: u32 where [simp]: "EV_SIGNAL = 8"
definition EV_TIMEOUT :: u32 where [simp]: "EV_TIMEOUT = 16"
definition EV_ERROR :: u32 where [simp]: "EV_ERROR = 32"
definition EV_CLOSE :: u32 where [simp]: "EV_CLOSE = 64"
definition EV_CONNECT :: u32 where [simp]: "EV_CONNECT = 128"
definition EV_ET :: u32 where [simp]: "EV_ET = 256"

text \<open>The masks of \<open>epoll(7)\<close>.\<close>

definition EPOLLIN :: u32 where [simp]: "EPOLLIN = 0x1"
definition EPOLLOUT :: u32 where [simp]: "EPOLLOUT = 0x4"
definition EPOLLERR :: u32 where [simp]: "EPOLLERR = 0x8"
definition EPOLLHUP :: u32 where [simp]: "EPOLLHUP = 0x10"
definition EPOLLRDHUP :: u32 where [simp]: "EPOLLRDHUP = 0x2000"
definition EPOLLONESHOT :: u32 where [simp]: "EPOLLONESHOT = 0x40000000"
definition EPOLLET :: u32 where [simp]: "EPOLLET = 0x80000000"

text \<open>The C test \<open>if (x & m)\<close>.\<close>

definition has :: "u32 \<Rightarrow> u32 \<Rightarrow> bool" where
  "has x m \<longleftrightarrow> x AND m \<noteq> 0"

section \<open>Events\<close>

datatype event_status = IDLE | ACTIVE

record edn_event =
  ev_fd :: int
  ev_events :: u32
  ev_uuid :: int
  ev_status :: event_status

text \<open>The two constructors; the id comes from the counter of \<open>GetUUID\<close>.\<close>

definition EdnEvent_default :: "int \<Rightarrow> edn_event" where
  "EdnEvent_default uuid = \<lparr>ev_fd = INVALID_FD, ev_events = 0, ev_uuid = uuid, ev_status = IDLE\<rparr>"

definition EdnEvent :: "int \<Rightarrow> int \<Rightarrow> u32 \<Rightarrow> edn_event" where
  "EdnEvent uuid fd events = \<lparr>ev_fd = fd, ev_events = events, ev_uuid = uuid, ev_status = IDLE\<rparr>"

definition event_handler :: "'a edn_event_scheme \<Rightarrow> int \<times> 'a edn_event_scheme" where
  "event_handler e = (EDN_OK, e\<lparr>ev_status := IDLE\<rparr>)"

definition SetEvents :: "u32 \<Rightarrow> bool \<Rightarrow> 'a edn_event_scheme \<Rightarrow> 'a edn_event_scheme" where
  "SetEvents events add e =
     (if add then e\<lparr>ev_events := ev_events e OR events\<rparr> else e\<lparr>ev_events := ev_events e AND NOT events\<rparr>)"

definition IsPersist :: "'a edn_event_scheme \<Rightarrow> bool" where
  "IsPersist e = has (ev_events e) EV_PERSIST"

text \<open>\<open>EdnEpoll::convert_events\<close>: the interest mask the kernel is given.\<close>

definition convert_events :: "u32 \<Rightarrow> u32" where
  "convert_events events =
     (let ev = 0;
          ev = (if has events EV_WRITE then ev OR (EPOLLOUT OR EPOLLONESHOT OR EPOLLRDHUP) else ev);
          ev = (if has events EV_READ then ev OR (EPOLLIN OR EPOLLONESHOT OR EPOLLRDHUP) else ev);
          ev = (if has events EV_SIGNAL then ev OR EPOLLIN else ev);
          ev = (if has events EV_ET then ev OR EPOLLET else ev)
      in ev)"

definition GetEvents :: "'a edn_event_scheme \<Rightarrow> u32" where
  "GetEvents e = convert_events (ev_events e)"

section \<open>I/O events\<close>

datatype conn_status = CS_NONE | CS_CONNECTING | CS_CONNECTED | CS_READ | CS_WRITE | CS_ERROR | CS_CLOSE

primrec status_num :: "conn_status \<Rightarrow> nat" where
  "status_num CS_NONE = 0"
| "status_num CS_CONNECTING = 1"
| "status_num CS_CONNECTED = 2"
| "status_num CS_READ = 3"
| "status_num CS_WRITE = 4"
| "status_num CS_ERROR = 5"
| "status_num CS_CLOSE = 6"

datatype io_cb =
    Cb_empty
  | Def_conn_cb | Def_read_cb | Def_write_cb | Def_error_cb | Def_close_cb
  | On_conn | On_read | On_write | On_error | On_close
  | Cb_user nat

record io_event = edn_event +
  real_events :: u32
  connect_status :: conn_status
  conn_cb :: io_cb
  read_cb :: io_cb
  write_cb :: io_cb
  error_cb :: io_cb
  close_cb :: io_cb

definition io_events_mask :: u32 where
  "io_events_mask = EV_READ OR EV_WRITE OR EV_PERSIST OR EV_CONNECT OR EV_CLOSE OR EV_ERROR"

definition EdnIOEvent_cbs :: "int \<Rightarrow> int \<Rightarrow> io_cb \<Rightarrow> io_cb \<Rightarrow> io_cb \<Rightarrow> io_cb \<Rightarrow> io_cb \<Rightarrow> bool \<Rightarrow> io_event" where
  "EdnIOEvent_cbs uuid fd conn read write error close et =
     \<lparr>ev_fd = fd, ev_events = (if et then io_events_mask OR EV_ET else io_events_mask), ev_uuid = uuid,
      ev_status = IDLE, real_events = 0, connect_status = CS_CONNECTING,
      conn_cb = conn, read_cb = read, write_cb = write, error_cb = error, close_cb = close\<rparr>"

definition EdnIOEvent :: "int \<Rightarrow> int \<Rightarrow> bool \<Rightarrow> io_event" where
  "EdnIOEvent uuid fd et =
     EdnIOEvent_cbs uuid fd Def_conn_cb Def_read_cb Def_write_cb Def_error_cb Def_close_cb et"

definition SetRealEvents :: "u32 \<Rightarrow> 'a io_event_scheme \<Rightarrow> 'a io_event_scheme" where
  "SetRealEvents events e = e\<lparr>real_events := real_events e OR events\<rparr>"

definition SetConnectStatus :: "conn_status \<Rightarrow> 'a io_event_scheme \<Rightarrow> 'a io_event_scheme" where
  "SetConnectStatus s e = e\<lparr>connect_status := s\<rparr>"

definition GetConnectStatus :: "'a io_event_scheme \<Rightarrow> conn_status" where
  "GetConnectStatus e = connect_status e"

definition SetConnCb :: "io_cb \<Rightarrow> 'a io_event_scheme \<Rightarrow> 'a io_event_scheme" where
  "SetConnCb cb e = e\<lparr>conn_cb := cb\<rparr>"

definition SetReadCb :: "io_cb \<Rightarrow> 'a io_event_scheme \<Rightarrow> 'a io_event_scheme" where
  "SetReadCb cb e = e\<lparr>read_cb := cb\<rparr>"

definition SetWriteCb :: "io_cb \<Rightarrow> 'a io_event_scheme \<Rightarrow> 'a io_event_scheme" where
  "SetWriteCb cb e = e\<lparr>write_cb := cb\<rparr>"

definition SetErrorCb :: "io_cb \<Rightarrow> 'a io_event_scheme \<Rightarrow> 'a io_event_scheme" where
  "SetErrorCb cb e = e\<lparr>error_cb := cb\<rparr>"

definition SetCloseCb :: "io_cb \<Rightarrow> 'a io_event_scheme \<Rightarrow> 'a io_event_scheme" where
  "SetCloseCb cb e = e\<lparr>close_cb := cb\<rparr>"

text \<open>\<open>ConvertEvents\<close>: the readiness mask, and the event with its new status and interest.\<close>

definition ConvertEvents :: "u32 \<Rightarrow> 'a io_event_scheme \<Rightarrow> u32 \<times> 'a io_event_scheme" where
  "ConvertEvents events e =
     (if has events EPOLLERR then (EV_ERROR, e\<lparr>connect_status := CS_ERROR\<rparr>)
      else if has events (EPOLLHUP OR EPOLLRDHUP) then (EV_CLOSE, e\<lparr>connect_status := CS_CLOSE\<rparr>)
      else
        let (ev, e) =
              (if has events EPOLLOUT \<and> connect_status e = CS_CONNECTING
               then (EV_CONNECT, e\<lparr>connect_status := CS_CONNECTED\<rparr>) else (0, e));
            (ev, e) =
              (if has events EPOLLOUT then (ev OR EV_WRITE, SetEvents EV_WRITE False (e\<lparr>connect_status := CS_WRITE\<rparr>))
               else (ev, e));
            (ev, e) =
              (if has events EPOLLIN then (ev OR EV_READ, SetEvents EV_READ False (e\<lparr>connect_status := CS_READ\<rparr>))
               else (ev, e))
        in (ev, e))"

text \<open>
  \<open>handler\<close>: the tasks it enqueues, in order. Each names the callback it will run; the connect,
  read and write tasks register the event again afterwards.
\<close>

datatype io_task =
    Conn_task io_cb
  | Read_task io_cb
  | Write_task io_cb
  | Close_task io_cb
  | Error_task io_cb

definition handler_tasks :: "'a io_event_scheme \<Rightarrow> io_task list" where
  "handler_tasks e =
     (if has (real_events e) EV_CONNECT then [Conn_task (conn_cb e)] else []) @
     (if has (real_events e) EV_READ then [Read_task (read_cb e)] else []) @
     (if has (real_events e) EV_WRITE then [Write_task (write_cb e)] else []) @
     (if has (real_events e) EV_CLOSE then [Close_task (close_cb e)] else []) @
     (if has (real_events e) EV_ERROR then [Error_task (error_cb e)] else [])"

definition io_handler :: "'a io_event_scheme \<Rightarrow> io_task list \<times> int \<times> 'a io_event_scheme" where
  "io_handler e = (handler_tasks e, event_handler (e\<lparr>real_events := 0\<rparr>))"

text \<open>
  What the connect, read and write tasks do to the event after their callback, before they pass it
  to the listener: the first two ask for \<open>READ\<close> again, the third asks for nothing.
\<close>

primrec task_rearm :: "io_task \<Rightarrow> ('a io_event_scheme \<Rightarrow> 'a io_event_scheme)" where
  "task_rearm (Conn_task cb) = SetEvents EV_READ True"
| "task_rearm (Read_task cb) = SetEvents EV_READ True"
| "task_rearm (Write_task cb) = id"
| "task_rearm (Close_task cb) = id"
| "task_rearm (Error_task cb) = id"

section \<open>The handler beside the event loop\<close>

text \<open>
  \<open>handler\<close> runs on a worker while the event loop may activate the same event: neither holds a
  lock for \<open>real_events_\<close>. The tests of \<open>handler\<close>, its reset and the loop's \<open>SetRealEvents\<close> are
  separate steps. \<open>hpc\<close> counts the handler's tests done; 5 is its reset, 6 its end.
\<close>

record 'a handler_run =
  hpc :: nat
  hevent :: "'a io_event_scheme"
  htasks :: "io_task list"

definition handler_test :: "nat \<Rightarrow> 'a io_event_scheme \<Rightarrow> io_task list" where
  "handler_test i e =
     (if i = 0 then (if has (real_events e) EV_CONNECT then [Conn_task (conn_cb e)] else [])
      else if i = 1 then (if has (real_events e) EV_READ then [Read_task (read_cb e)] else [])
      else if i = 2 then (if has (real_events e) EV_WRITE then [Write_task (write_cb e)] else [])
      else if i = 3 then (if has (real_events e) EV_CLOSE then [Close_task (close_cb e)] else [])
      else (if has (real_events e) EV_ERROR then [Error_task (error_cb e)] else []))"

inductive handler_step :: "'a handler_run \<Rightarrow> 'a handler_run \<Rightarrow> bool" where
  test: "hpc r < 5 \<Longrightarrow>
    handler_step r (r\<lparr>hpc := Suc (hpc r), htasks := htasks r @ handler_test (hpc r) (hevent r)\<rparr>)"
| reset: "hpc r = 5 \<Longrightarrow>
    handler_step r (r\<lparr>hpc := 6, hevent := snd (event_handler ((hevent r)\<lparr>real_events := 0\<rparr>))\<rparr>)"

inductive loop_step :: "u32 \<Rightarrow> 'a handler_run \<Rightarrow> 'a handler_run \<Rightarrow> bool" for m :: u32 where
  activate: "loop_step m r (r\<lparr>hevent := SetRealEvents m (hevent r)\<rparr>)"

end
