(* ===== verification/Edn_Timer.thy ===== *)
theory Edn_Timer
  imports Edn_Event
begin

text \<open>
  Timers (\<open>event/edn_timer.h\<close>, \<open>event/edn_timer.cpp\<close>) and the timer group
  (\<open>core/edn_timer_group.h\<close>, \<open>core/edn_timer_group.cpp\<close>).

  The group shares its timers with its clients through pointers: a store maps addresses to
  timers, the priority queue and the map from event ids hold addresses. The queue is a list in
  pop order; \<open>push\<close> puts an element behind those that expire no later, one of the orders the
  library may choose among equal expiry times. The clock is a script of readings, one per call
  of \<open>GetCurrentTime\<close>. Sums of \<open>int\<close> wrap, as they do on the targets.
\<close>

record edn_timer = edn_event +
  timeout :: int
  expire_time :: int
  enabled :: bool
  timer_cb :: "nat option"

definition EdnTimer :: "int \<Rightarrow> int \<Rightarrow> int \<Rightarrow> bool \<Rightarrow> nat option \<Rightarrow> edn_timer" where
  "EdnTimer uuid now t is_persist cb =
     \<lparr>ev_fd = INVALID_FD,
      ev_events = (if is_persist then 0 OR EV_PERSIST else 0) OR EV_TIMEOUT,
      ev_uuid = uuid, ev_status = IDLE,
      timeout = t, expire_time = wrap32 (now + t), enabled = True, timer_cb = cb\<rparr>"

text \<open>\<open>handler\<close>: the callback that runs; calling an empty \<open>std::function\<close> throws.\<close>

definition timer_handler :: "edn_timer \<Rightarrow> fault + (nat \<times> int \<times> edn_timer)" where
  "timer_handler t =
     (case timer_cb t of
        None \<Rightarrow> Inl Bad_function_call
      | Some cb \<Rightarrow> Inr (cb, EDN_OK, snd (event_handler t)))"

definition SetTimeout :: "int \<Rightarrow> edn_timer \<Rightarrow> edn_timer" where
  "SetTimeout ms t = t\<lparr>timeout := ms\<rparr>"

definition SetCallback_timer :: "nat option \<Rightarrow> edn_timer \<Rightarrow> edn_timer" where
  "SetCallback_timer cb t = t\<lparr>timer_cb := cb\<rparr>"

lemma SetCallback_EdnTimer [simp]: "SetCallback_timer cb (EdnTimer u n t p cb0) = EdnTimer u n t p cb"
  by (simp add: SetCallback_timer_def EdnTimer_def)

definition SetEnabled :: "bool \<Rightarrow> edn_timer \<Rightarrow> edn_timer" where
  "SetEnabled en t = t\<lparr>enabled := en\<rparr>"

definition SetExpireTime :: "int \<Rightarrow> edn_timer \<Rightarrow> edn_timer" where
  "SetExpireTime e t = t\<lparr>expire_time := e\<rparr>"

record timer_group =
  t_objs :: "nat \<Rightarrow> edn_timer"
  t_queue :: "nat list"
  t_map :: "int \<rightharpoonup> nat"

definition EdnTimerGroup :: "(nat \<Rightarrow> edn_timer) \<Rightarrow> timer_group" where
  "EdnTimerGroup objs = \<lparr>t_objs = objs, t_queue = [], t_map = Map.empty\<rparr>"

definition set_timer :: "nat \<Rightarrow> (edn_timer \<Rightarrow> edn_timer) \<Rightarrow> timer_group \<Rightarrow> timer_group" where
  "set_timer a f g = g\<lparr>t_objs := (t_objs g)(a := f (t_objs g a))\<rparr>"

text \<open>The priority queue, ordered by a key.\<close>

fun pq_push :: "('a \<Rightarrow> int) \<Rightarrow> 'a \<Rightarrow> 'a list \<Rightarrow> 'a list" where
  "pq_push key a [] = [a]"
| "pq_push key a (b # q) = (if key b \<le> key a then b # pq_push key a q else a # b # q)"

abbreviation expiry :: "timer_group \<Rightarrow> nat \<Rightarrow> int" where
  "expiry g a \<equiv> expire_time (t_objs g a)"

definition AddTimer :: "nat \<Rightarrow> timer_group \<Rightarrow> int \<times> timer_group" where
  "AddTimer a g =
     (EDN_OK, g\<lparr>t_queue := pq_push (expiry g) a (t_queue g),
                t_map := (t_map g)(ev_uuid (t_objs g a) \<mapsto> a)\<rparr>)"

definition DelTimer :: "nat \<Rightarrow> timer_group \<Rightarrow> fault + (int \<times> timer_group)" where
  "DelTimer a g =
     (let u = ev_uuid (t_objs g a) in
      case t_map g u of
        None \<Rightarrow> Inr (EDN_ERR_PARAMS_INVALID, g)
      | Some b \<Rightarrow>
          (case t_queue g of
             [] \<Rightarrow> Inl Out_of_bounds
           | front # q \<Rightarrow>
               let g1 = (if b = front then g\<lparr>t_queue := q\<rparr> else set_timer b (SetEnabled False) g)
               in Inr (EDN_OK, g1\<lparr>t_map := (t_map g1)(u := None)\<rparr>)))"

text \<open>
  The loop of \<open>Dispatch\<close>: the group and the timers it activates, in order. A disabled timer is
  dropped without a look at the clock.
\<close>

function dispatch_loop :: "int list \<Rightarrow> timer_group \<Rightarrow> nat list \<Rightarrow> fault + (int list \<times> timer_group \<times> nat list)" where
  "dispatch_loop clock g fired =
     (case t_queue g of
        [] \<Rightarrow> Inr (clock, g, fired)
      | a # q \<Rightarrow>
          if \<not> enabled (t_objs g a) then dispatch_loop clock (g\<lparr>t_queue := q\<rparr>) fired
          else case clock of
            [] \<Rightarrow> Inl Script_end
          | now # clock' \<Rightarrow>
              if expiry g a \<le> now then
                let g1 = set_timer a (\<lambda>t. t\<lparr>ev_status := ACTIVE\<rparr>) g;
                    g2 = g1\<lparr>t_queue := q\<rparr> in
                if IsPersist (t_objs g2 a) then
                  let g3 = set_timer a (\<lambda>t. SetExpireTime (wrap32 (now + timeout t)) t) g2
                  in dispatch_loop clock' (g3\<lparr>t_queue := pq_push (expiry g3) a (t_queue g3)\<rparr>) (fired @ [a])
                else dispatch_loop clock'
                       (g2\<lparr>t_map := (t_map g2)(ev_uuid (t_objs g2 a) := None)\<rparr>) (fired @ [a])
              else Inr (clock', g, fired))"
  by pat_completeness auto
termination
  by (relation "measures [\<lambda>(clock, g, fired). length clock, \<lambda>(clock, g, fired). length (t_queue g)]") auto

declare dispatch_loop.simps [simp del]

definition min_timeout :: "int list \<Rightarrow> timer_group \<Rightarrow> fault + (int \<times> int list)" where
  "min_timeout clock g =
     (case t_queue g of
        [] \<Rightarrow> Inr (- 1, clock)
      | a # q \<Rightarrow>
          (case clock of
             [] \<Rightarrow> Inl Script_end
           | now # clock' \<Rightarrow> Inr (wrap32 (expiry g a - now), clock')))"

definition GetMinTimeout :: "int list \<Rightarrow> timer_group \<Rightarrow> fault + (int \<times> int list)" where
  "GetMinTimeout clock g = min_timeout clock g"

definition timer_dispatch :: "int list \<Rightarrow> timer_group \<Rightarrow> fault + (int \<times> int list \<times> timer_group \<times> nat list)" where
  "timer_dispatch clock g =
     (case dispatch_loop clock g [] of
        Inl f \<Rightarrow> Inl f
      | Inr (clock1, g1, fired) \<Rightarrow>
          (case min_timeout clock1 g1 of
             Inl f \<Rightarrow> Inl f
           | Inr (t, clock2) \<Rightarrow> Inr (t, clock2, g1, fired)))"

end
