(* ===== verification/Edn_Signal.thy ===== *)
theory Edn_Signal
  imports Edn_Event
begin

text \<open>
  Signal events (\<open>event/edn_signal.h\<close>, \<open>event/edn_signal.cpp\<close>) and the byte a signal travels as
  through the socket pair (\<open>EdnContext::SigHandler\<close>, \<open>EdnEpoll::DispatchSignal\<close>). A signal's key in
  the event table is the negative number \<open>HASH\<close> of it; descriptors are not negative, timers have \<open>-1\<close>.
\<close>

definition HASH :: "int \<Rightarrow> int" where
  "HASH x = - (x + 1)"

datatype sigaction = SA_zero | SA_edn | SA_other nat

record edn_signal = edn_event +
  sig_num :: int
  sig_cb :: "nat option"
  old_sa :: sigaction
  trigger_cnt :: int

definition EdnSignal :: "int \<Rightarrow> int \<Rightarrow> int \<Rightarrow> bool \<Rightarrow> nat option \<Rightarrow> sigaction \<Rightarrow> edn_signal" where
  "EdnSignal uuid sigfd sig is_persist cb garbage =
     \<lparr>ev_fd = sigfd, ev_events = (if is_persist then 0 OR EV_PERSIST else 0) OR EV_SIGNAL, ev_uuid = uuid,
      ev_status = IDLE, sig_num = sig, sig_cb = cb, old_sa = garbage, trigger_cnt = 0\<rparr>"

definition signal_GetFd :: "edn_signal \<Rightarrow> int" where
  "signal_GetFd s = HASH (sig_num s)"

definition SetOldSigaction :: "sigaction \<Rightarrow> edn_signal \<Rightarrow> edn_signal" where
  "SetOldSigaction sa s = s\<lparr>old_sa := sa\<rparr>"

text \<open>
  \<open>handler\<close>: the count goes up as an argument of the log call, then the callback runs.
\<close>

definition signal_handler :: "edn_signal \<Rightarrow> fault + (nat \<times> int \<times> edn_signal)" where
  "signal_handler s =
     (let s1 = s\<lparr>trigger_cnt := wrap32 (trigger_cnt s + 1)\<rparr> in
      case sig_cb s1 of
        None \<Rightarrow> Inl Bad_function_call
      | Some cb \<Rightarrow> Inr (cb, EDN_OK, snd (event_handler s1)))"

text \<open>The handler sends the low byte of the signal number; the reader widens a \<open>char\<close>, signed or not.\<close>

definition SigHandler :: "int \<Rightarrow> u8" where
  "SigHandler sig = word_of_int sig"

definition read_signal :: "bool \<Rightarrow> u8 \<Rightarrow> int" where
  "read_signal char_signed b = (if char_signed then sint b else uint b)"

text \<open>A signal's key is neither a descriptor nor the timers' \<open>-1\<close>, keys of different signals differ, and the
  key the dispatcher computes from the byte in the pipe is the key of the signal that was caught.\<close>

theorem signal_key_roundtrip:
  assumes "1 \<le> sig" "sig \<le> 64"
  shows "HASH (read_signal char_signed (SigHandler sig)) = HASH sig \<and> HASH (HASH sig) = sig
    \<and> HASH sig < 0 \<and> HASH sig \<noteq> INVALID_FD"
proof -
  have "sig mod 256 = sig" using assms by simp
  then have u: "uint (SigHandler sig) = sig" by (simp add: SigHandler_def uint_word_of_int)
  have "sint (SigHandler sig) = sig"
    using assms by (simp add: SigHandler_def signed_of_int signed_take_bit_int_eq_self)
  with u assms show ?thesis by (simp add: HASH_def read_signal_def)
qed

theorem signal_key_roundtrip_witness:
  "HASH (read_signal True (SigHandler 15)) = - 16 \<and> HASH (HASH 15) = 15"
  using signal_key_roundtrip [of 15 True] by (simp add: HASH_def)

end
