(* ===== verification/Edn_Context.thy ===== *)
theory Edn_Context
  imports Edn_Timer Edn_Signal
begin

text \<open>
  The event context (\<open>core/edn_context.h\<close>, \<open>core/edn_context.cpp\<close>), its epoll listener
  (\<open>core/edn_epoll.h\<close>, \<open>core/edn_epoll.cpp\<close>, interface \<open>core/edn_event_listener.h\<close>) and the event loop.

  A \<open>shared_ptr<EdnEvent>\<close> is an \<open>event_ptr\<close>: its constructor is the dynamic type, its number the
  address in the store of that type, so \<open>dynamic_pointer_cast\<close> is a case distinction. I/O events may
  be of a subclass: the context is polymorphic in their extension. \<open>idle_queue_\<close> is a list of nodes,
  \<open>table_\<close> maps a key to a node, as the code's map holds list iterators; using an iterator whose node is
  gone, or the singular one \<open>operator[]\<close> makes for a missing key, is the fault \<open>Bad_iterator\<close>.

  The kernel is the record \<open>os\<close>: its answers to \<open>epoll_ctl\<close> and \<open>sigaction\<close>. The successful \<open>epoll_ctl\<close>
  calls are recorded in \<open>c_ctl\<close>, the tasks given to the thread pool in \<open>c_pool\<close>.
\<close>

datatype event_ptr = Tm nat | Sg nat | Io nat

datatype ctl_op = CTL_ADD | CTL_MOD | CTL_DEL

record os =
  os_ctl :: "ctl_op \<Rightarrow> int \<Rightarrow> u32 \<Rightarrow> sysret"
  os_sigaction :: "int \<Rightarrow> bool"

datatype pool_task = T_handler event_ptr | T_timer nat | T_io nat io_task

record 'a ctx =
  c_tg :: timer_group
  c_has_tg :: bool
  c_sigs :: "nat \<Rightarrow> edn_signal"
  c_ios :: "nat \<Rightarrow> 'a io_event_scheme"
  c_list :: "(nat \<times> event_ptr) list"
  c_next :: nat
  c_table :: "int \<rightharpoonup> nat"
  c_pool :: "pool_task list"
  c_sigfd :: int
  c_sigaction :: "int \<Rightarrow> sigaction"
  c_ctl :: "(ctl_op \<times> int \<times> u32) list"
  c_done :: bool

primrec errno_num :: "errno \<Rightarrow> int" where
  "errno_num EAGAIN = 11"
| "errno_num EINTR = 4"
| "errno_num EINPROGRESS = 115"
| "errno_num EEXIST = 17"
| "errno_num EBADF = 9"
| "errno_num ENOENT = 2"
| "errno_num (EOTHER n) = n"

section \<open>Construction\<close>

text \<open>
  The listener's constructor; \<open>epfd\<close> is the answer of \<open>epoll_create\<close>. When the signal pipe cannot be watched
  it returns without a timer group.
\<close>

definition EdnEpoll :: "os \<Rightarrow> sysret \<Rightarrow> 'a ctx \<Rightarrow> fault + 'a ctx" where
  "EdnEpoll os epfd c =
     (case epfd of
        Err e \<Rightarrow> Inl Assert_failed
      | Ret fd \<Rightarrow>
          if fd \<le> 0 then Inl Assert_failed
          else (case os_ctl os CTL_ADD (c_sigfd c) EPOLLIN of
                  Err e \<Rightarrow> Inr c
                | Ret r \<Rightarrow> Inr (c\<lparr>c_has_tg := True, c_ctl := c_ctl c @ [(CTL_ADD, c_sigfd c, EPOLLIN)]\<rparr>)))"

text \<open>
  \<open>EdnContext\<close>: \<open>pair\<close> is the answer of \<open>socketpair\<close>. \<open>done_\<close> is not initialised: \<open>garbage\<close> is what its storage
  holds. So are the objects not yet made.
\<close>

definition EdnContext :: "os \<Rightarrow> int option \<Rightarrow> sysret \<Rightarrow> bool \<Rightarrow> (nat \<Rightarrow> edn_timer) \<Rightarrow> (nat \<Rightarrow> edn_signal) \<Rightarrow>
    (nat \<Rightarrow> 'a io_event_scheme) \<Rightarrow> (int \<Rightarrow> sigaction) \<Rightarrow> fault + 'a ctx" where
  "EdnContext os pair epfd garbage timers sigs ios sa =
     (case pair of
        None \<Rightarrow> Inl Assert_failed
      | Some sigfd \<Rightarrow>
          EdnEpoll os epfd
            \<lparr>c_tg = EdnTimerGroup timers, c_has_tg = False, c_sigs = sigs, c_ios = ios, c_list = [], c_next = 0,
             c_table = Map.empty, c_pool = [], c_sigfd = sigfd, c_sigaction = sa, c_ctl = [], c_done = garbage\<rparr>)"

section \<open>Virtual calls\<close>

definition GetFd :: "event_ptr \<Rightarrow> 'a ctx \<Rightarrow> int" where
  "GetFd p c = (case p of Tm a \<Rightarrow> ev_fd (t_objs (c_tg c) a) | Sg a \<Rightarrow> signal_GetFd (c_sigs c a) | Io a \<Rightarrow> ev_fd (c_ios c a))"

definition events_of :: "event_ptr \<Rightarrow> 'a ctx \<Rightarrow> u32" where
  "events_of p c =
     (case p of Tm a \<Rightarrow> ev_events (t_objs (c_tg c) a) | Sg a \<Rightarrow> ev_events (c_sigs c a) | Io a \<Rightarrow> ev_events (c_ios c a))"

definition pool_enqueue :: "pool_task \<Rightarrow> 'a ctx \<Rightarrow> 'a ctx" where
  "pool_enqueue t c = c\<lparr>c_pool := c_pool c @ [t]\<rparr>"

definition set_io :: "nat \<Rightarrow> 'a io_event_scheme \<Rightarrow> 'a ctx \<Rightarrow> 'a ctx" where
  "set_io a e c = c\<lparr>c_ios := (c_ios c)(a := e)\<rparr>"

text \<open>\<open>EdnEvent::Active\<close>.\<close>

definition Active :: "event_ptr \<Rightarrow> 'a ctx \<Rightarrow> 'a ctx" where
  "Active p c =
     pool_enqueue (T_handler p)
      (case p of
         Tm a \<Rightarrow> c\<lparr>c_tg := set_timer a (\<lambda>t. t\<lparr>ev_status := ACTIVE\<rparr>) (c_tg c)\<rparr>
       | Sg a \<Rightarrow> c\<lparr>c_sigs := (c_sigs c)(a := (c_sigs c a)\<lparr>ev_status := ACTIVE\<rparr>)\<rparr>
       | Io a \<Rightarrow> set_io a ((c_ios c a)\<lparr>ev_status := ACTIVE\<rparr>) c)"

section \<open>The listener\<close>

text \<open>\<open>epoll_ctl\<close>, recorded when it succeeds.\<close>

definition ctl :: "os \<Rightarrow> ctl_op \<Rightarrow> int \<Rightarrow> u32 \<Rightarrow> 'a ctx \<Rightarrow> errno option \<times> 'a ctx" where
  "ctl os opn fd ev c =
     (case os_ctl os opn fd ev of Err e \<Rightarrow> (Some e, c) | Ret r \<Rightarrow> (None, c\<lparr>c_ctl := c_ctl c @ [(opn, fd, ev)]\<rparr>))"

definition epoll_add :: "os \<Rightarrow> int \<Rightarrow> event_ptr \<Rightarrow> 'a ctx \<Rightarrow> fault + (int \<times> 'a ctx)" where
  "epoll_add os now p c =
     (if GetFd p c = INVALID_FD then
        (case p of
           Tm a \<Rightarrow>
             if expire_time (t_objs (c_tg c) a) \<le> now then Inr (EDN_OK, pool_enqueue (T_timer a) c)
             else if \<not> c_has_tg c then Inl Null_deref
             else Inr (EDN_OK, c\<lparr>c_tg := snd (AddTimer a (c_tg c))\<rparr>)
         | _ \<Rightarrow> Inl Null_deref)
      else if GetFd p c < 0 then
        (case p of
           Sg a \<Rightarrow>
             let sig = sig_num (c_sigs c a) in
             if os_sigaction os sig then
               Inr (EDN_OK, c\<lparr>c_sigs := (c_sigs c)(a := SetOldSigaction (c_sigaction c sig) (c_sigs c a)),
                              c_sigaction := (c_sigaction c)(sig := SA_edn)\<rparr>)
             else Inr (EDN_OK, c\<lparr>c_sigs := (c_sigs c)(a := SetOldSigaction SA_zero (c_sigs c a))\<rparr>)
         | _ \<Rightarrow> Inl Null_deref)
      else
        let fd = GetFd p c; ev = convert_events (events_of p c) in
        (case ctl os CTL_ADD fd ev c of
           (None, c1) \<Rightarrow> Inr (EDN_OK, c1)
         | (Some e, c1) \<Rightarrow>
             if e = EEXIST then
               (case ctl os CTL_MOD fd ev c1 of
                  (None, c2) \<Rightarrow> Inr (EDN_OK, c2)
                | (Some e2, c2) \<Rightarrow> Inr (EDN_ERR_SYS_ERROR, c2))
             else Inr (EDN_ERR_SYS_ERROR, c1)))"

definition epoll_del :: "os \<Rightarrow> event_ptr \<Rightarrow> 'a ctx \<Rightarrow> fault + (int \<times> 'a ctx)" where
  "epoll_del os p c =
     (if GetFd p c = INVALID_FD then
        (case p of
           Tm a \<Rightarrow>
             if \<not> c_has_tg c then Inl Null_deref
             else (case DelTimer a (c_tg c) of Inl f \<Rightarrow> Inl f | Inr (code, g) \<Rightarrow> Inr (EDN_OK, c\<lparr>c_tg := g\<rparr>))
         | _ \<Rightarrow> Inl Null_deref)
      else if GetFd p c < 0 then
        (case p of
           Sg a \<Rightarrow>
             let sig = sig_num (c_sigs c a) in
             if os_sigaction os sig then
               Inr (EDN_OK, c\<lparr>c_sigaction := (c_sigaction c)(sig := old_sa (c_sigs c a))\<rparr>)
             else Inr (EDN_OK, c)
         | _ \<Rightarrow> Inl Null_deref)
      else
        (case ctl os CTL_DEL (GetFd p c) 0 c of
           (None, c1) \<Rightarrow> Inr (EDN_OK, c1)
         | (Some e, c1) \<Rightarrow> if e \<noteq> EBADF then Inr (EDN_ERR_SYS_ERROR, c1) else Inr (EDN_OK, c1)))"

section \<open>The context\<close>

text \<open>The parts of \<open>AddEvent\<close> and \<open>DelEvent\<close> under \<open>idle_queue_mutex_\<close>, and the assertion that ends both.\<close>

definition enlist :: "event_ptr \<Rightarrow> 'a ctx \<Rightarrow> 'a ctx" where
  "enlist p c =
     (let fd = GetFd p c in
      if fd \<noteq> INVALID_FD
      then c\<lparr>c_list := c_list c @ [(c_next c, p)], c_next := c_next c + 1, c_table := (c_table c)(fd \<mapsto> c_next c)\<rparr>
      else c)"

definition delist :: "event_ptr \<Rightarrow> 'a ctx \<Rightarrow> fault + 'a ctx" where
  "delist p c =
     (let fd = GetFd p c in
      if fd \<noteq> INVALID_FD then
        (case c_table c fd of
           None \<Rightarrow> Inl Bad_iterator
         | Some n \<Rightarrow>
             if n \<notin> fst ` set (c_list c) then Inl Bad_iterator
             else Inr (c\<lparr>c_list := filter (\<lambda>e. fst e \<noteq> n) (c_list c), c_table := (c_table c)(fd := None)\<rparr>))
      else Inr c)"

definition assert_zero :: "fault + (int \<times> 'c) \<Rightarrow> fault + 'c" where
  "assert_zero r = (case r of Inl f \<Rightarrow> Inl f | Inr (ret, c) \<Rightarrow> if ret = 0 then Inr c else Inl Assert_failed)"

definition AddEvent :: "os \<Rightarrow> int \<Rightarrow> event_ptr \<Rightarrow> 'a ctx \<Rightarrow> fault + 'a ctx" where
  "AddEvent os now p c = assert_zero (epoll_add os now p (enlist p c))"

text \<open>\<open>DelEvent\<close> takes a pointer that may be null.\<close>

definition DelEvent :: "os \<Rightarrow> event_ptr option \<Rightarrow> 'a ctx \<Rightarrow> fault + 'a ctx" where
  "DelEvent os q c =
     (case q of
        None \<Rightarrow> Inl Null_deref
      | Some p \<Rightarrow> (case delist p c of Inl f \<Rightarrow> Inl f | Inr c1 \<Rightarrow> assert_zero (epoll_del os p c1)))"

text \<open>\<open>*it\<close> for an iterator into \<open>idle_queue_\<close>.\<close>

definition node_at :: "nat \<Rightarrow> 'a ctx \<Rightarrow> fault + event_ptr" where
  "node_at n c = (case map_of (c_list c) n of None \<Rightarrow> Inl Bad_iterator | Some p \<Rightarrow> Inr p)"

definition GetEvent :: "int \<Rightarrow> 'a ctx \<Rightarrow> fault + event_ptr option" where
  "GetEvent fd c =
     (case c_table c fd of
        None \<Rightarrow> Inr None
      | Some n \<Rightarrow> (case node_at n c of Inl f \<Rightarrow> Inl f | Inr p \<Rightarrow> Inr (Some p)))"

definition ActiveEvent :: "os \<Rightarrow> int \<Rightarrow> u32 \<Rightarrow> 'a ctx \<Rightarrow> fault + (int \<times> 'a ctx)" where
  "ActiveEvent os key events c =
     (case c_table c key of
        None \<Rightarrow> Inr (EDN_ERR_PARAMS_INVALID, c)
      | Some n \<Rightarrow>
          (case node_at n c of
             Inl f \<Rightarrow> Inl f
           | Inr p \<Rightarrow>
               let r1 = (if GetFd p c \<noteq> c_sigfd c then
                           (case p of
                              Io a \<Rightarrow> (case ConvertEvents events (c_ios c a) of
                                         (ev, e) \<Rightarrow> Inr (set_io a (SetRealEvents ev e) c))
                            | _ \<Rightarrow> Inl Null_deref)
                         else Inr c)
               in (case r1 of
                     Inl f \<Rightarrow> Inl f
                   | Inr c1 \<Rightarrow>
                       let c2 = Active p c1 in
                       if \<not> has (events_of p c2) EV_PERSIST then
                         (case DelEvent os (Some p) c2 of Inl f \<Rightarrow> Inl f | Inr c3 \<Rightarrow> Inr (EDN_OK, c3))
                       else Inr (EDN_OK, c2))))"

section \<open>Dispatching\<close>

text \<open>The answers of \<open>epoll_wait\<close> and of a \<open>read\<close> from the signal pipe.\<close>

datatype wait_ans = Wait_err errno | Wait_events "(int \<times> u32) list"

datatype pipe_ans = Pipe_err errno | Pipe_byte u8

definition DispatchSignal :: "os \<Rightarrow> bool \<Rightarrow> pipe_ans \<Rightarrow> 'a ctx \<Rightarrow> fault + (int \<times> 'a ctx)" where
  "DispatchSignal os char_signed ans c =
     (case ans of
        Pipe_err e \<Rightarrow> Inr (errno_num e, c)
      | Pipe_byte b \<Rightarrow>
          (case ActiveEvent os (HASH (read_signal char_signed b)) 0 c of
             Inl f \<Rightarrow> Inl f
           | Inr (ret, c1) \<Rightarrow> Inr (EDN_OK, c1)))"

text \<open>The loop over the ready descriptors; it ends early with the code of an activation that failed.\<close>

fun dispatch_events :: "os \<Rightarrow> bool \<Rightarrow> (int \<times> u32) list \<Rightarrow> pipe_ans list \<Rightarrow> 'a ctx \<Rightarrow> fault + (int \<times> 'a ctx)" where
  "dispatch_events os cs [] pipes c = Inr (EDN_OK, c)"
| "dispatch_events os cs ((fd, ev) # evs) pipes c =
     (if fd = c_sigfd c then
        (case pipes of
           [] \<Rightarrow> Inl Script_end
         | ans # pipes' \<Rightarrow>
             (case DispatchSignal os cs ans c of
                Inl f \<Rightarrow> Inl f
              | Inr (r, c1) \<Rightarrow> dispatch_events os cs evs pipes' c1))
      else
        (case ActiveEvent os fd ev c of
           Inl f \<Rightarrow> Inl f
         | Inr (ret, c1) \<Rightarrow> if ret \<noteq> EDN_OK then Inr (ret, c1) else dispatch_events os cs evs pipes c1))"

text \<open>What one round of the loop meets.\<close>

record loop_round =
  rd_wait :: wait_ans
  rd_pipes :: "pipe_ans list"
  rd_clock :: "int list"

text \<open>\<open>dispatch\<close>: its return value, the new value behind \<open>timeout\<close>, the context.\<close>

definition dispatch :: "os \<Rightarrow> bool \<Rightarrow> loop_round \<Rightarrow> int \<Rightarrow> 'a ctx \<Rightarrow> fault + (int \<times> int \<times> 'a ctx)" where
  "dispatch os cs r tmo c =
     (let go = (\<lambda>evs.
          case dispatch_events os cs evs (rd_pipes r) c of
            Inl f \<Rightarrow> Inl f
          | Inr (ret, c1) \<Rightarrow>
              if ret \<noteq> EDN_OK then Inr (ret, tmo, c1)
              else if \<not> c_has_tg c1 then Inl Null_deref
              else (case timer_dispatch (rd_clock r) (c_tg c1) of
                      Inl f \<Rightarrow> Inl f
                    | Inr (t, clock, g, fired) \<Rightarrow>
                        Inr (EDN_OK, t, c1\<lparr>c_tg := g, c_pool := c_pool c1 @ map (\<lambda>a. T_handler (Tm a)) fired\<rparr>)))
      in case rd_wait r of
           Wait_err e \<Rightarrow> if e \<noteq> EINTR then Inr (errno_num e, tmo, c) else go []
         | Wait_events evs \<Rightarrow> go evs)"

section \<open>The event loop\<close>

datatype run_exit = Exit_done | Exit_no_event | Exit_error int

definition GetTimeout :: "int list \<Rightarrow> 'a ctx \<Rightarrow> fault + (int \<times> int list)" where
  "GetTimeout clock c = (if \<not> c_has_tg c then Inl Null_deref else GetMinTimeout clock (c_tg c))"

text \<open>The rounds of \<open>Run\<close>; \<open>waits\<close> collects the timeouts \<open>epoll_wait\<close> is called with.\<close>

fun run_loop :: "os \<Rightarrow> bool \<Rightarrow> loop_round list \<Rightarrow> int \<Rightarrow> 'a ctx \<Rightarrow> int list \<Rightarrow> fault + (run_exit \<times> 'a ctx \<times> int list)" where
  "run_loop os cs rounds tmo c waits =
     (if c_done c then Inr (Exit_done, c, waits)
      else if tmo < 0 \<and> c_list c = [] then Inr (Exit_no_event, c, waits)
      else case rounds of
        [] \<Rightarrow> Inl Script_end
      | r # rounds' \<Rightarrow>
          (case dispatch os cs r tmo c of
             Inl f \<Rightarrow> Inl f
           | Inr (ret, tmo', c1) \<Rightarrow>
               if ret < 0 then Inr (Exit_error ret, c1, waits @ [tmo])
               else run_loop os cs rounds' tmo' c1 (waits @ [tmo])))"

definition Run :: "os \<Rightarrow> bool \<Rightarrow> int list \<Rightarrow> loop_round list \<Rightarrow> 'a ctx \<Rightarrow> fault + (run_exit \<times> 'a ctx \<times> int list)" where
  "Run os cs clock rounds c =
     (case GetTimeout clock c of
        Inl f \<Rightarrow> Inl f
      | Inr (tmo, clock') \<Rightarrow> run_loop os cs rounds tmo c [])"

definition Stop :: "'a ctx \<Rightarrow> 'a ctx" where
  "Stop c = c\<lparr>c_done := True\<rparr>"

end
