(* ===== verification/Edn_Hash_Table.thy ===== *)
theory Edn_Hash_Table
  imports Edn_Define "HOL-Library.AList"
begin

text \<open>
  Connection addresses (\<open>EdnConnetInfo\<close> of \<open>edn.h\<close>) and the table from addresses to descriptors
  (\<open>hash/edn_hash_table.h\<close>, \<open>hash/edn_hash_table.cpp\<close>).

  The addresses are \<open>const char*\<close>: \<open>None\<close> is the null pointer. The table is a
  \<open>std::unordered_map\<close> with the hash and the equality the header defines: entries hang in the bucket of
  their hash value and a search compares only there. \<open>std::hash\<close> of strings and integers is the
  library's choice: the functions \<open>hs\<close> and \<open>hi\<close>.
\<close>

unbundle bit_operations_syntax

section \<open>Addresses\<close>

record conn_info =
  src_ip :: "string option"
  src_port :: nat
  dst_ip :: "string option"
  dst_port :: nat

definition EDN_CONNECT_INFO_INIT :: conn_info where
  "EDN_CONNECT_INFO_INIT = \<lparr>src_ip = None, src_port = 0, dst_ip = None, dst_port = 0\<rparr>"

text \<open>A null address is a fault both in \<open>std::string(nullptr)\<close> and in \<open>strcmp\<close>.\<close>

definition info_hash :: "(string \<Rightarrow> nat) \<Rightarrow> (nat \<Rightarrow> nat) \<Rightarrow> conn_info \<Rightarrow> fault + nat" where
  "info_hash hs hi i =
     (case (dst_ip i, src_ip i) of
        (Some d, Some s) \<Rightarrow> Inr (hs d XOR hi (dst_port i) XOR hs s XOR hi (src_port i))
      | _ \<Rightarrow> Inl Null_deref)"

definition info_eq :: "conn_info \<Rightarrow> conn_info \<Rightarrow> fault + bool" where
  "info_eq l r =
     (case (dst_ip l, dst_ip r) of
        (Some dl, Some dr) \<Rightarrow>
          if \<not> (dl = dr \<and> dst_port l = dst_port r) then Inr False
          else (case (src_ip l, src_ip r) of
                  (Some sl, Some sr) \<Rightarrow> Inr (sl = sr \<and> src_port l = src_port r)
                | _ \<Rightarrow> Inl Null_deref)
      | _ \<Rightarrow> Inl Null_deref)"

definition complete :: "conn_info \<Rightarrow> bool" where
  "complete i \<longleftrightarrow> src_ip i \<noteq> None \<and> dst_ip i \<noteq> None"

section \<open>The table\<close>

type_synonym hash_table = "nat \<Rightarrow> (conn_info \<times> int) list"

definition empty_table :: hash_table where
  "empty_table = (\<lambda>_. [])"

text \<open>\<open>find\<close> in one bucket, then \<open>operator[]\<close> with an assignment, and \<open>erase\<close> by key.\<close>

fun bucket_find :: "conn_info \<Rightarrow> (conn_info \<times> int) list \<Rightarrow> fault + int option" where
  "bucket_find i [] = Inr None"
| "bucket_find i ((k, fd) # es) =
     (case info_eq k i of Inl f \<Rightarrow> Inl f | Inr e \<Rightarrow> if e then Inr (Some fd) else bucket_find i es)"

fun bucket_set :: "conn_info \<Rightarrow> int \<Rightarrow> (conn_info \<times> int) list \<Rightarrow> fault + (conn_info \<times> int) list" where
  "bucket_set i fd [] = Inr [(i, fd)]"
| "bucket_set i fd ((k, v) # es) =
     (case info_eq k i of
        Inl f \<Rightarrow> Inl f
      | Inr e \<Rightarrow> if e then Inr ((k, fd) # es)
                else (case bucket_set i fd es of Inl f \<Rightarrow> Inl f | Inr es' \<Rightarrow> Inr ((k, v) # es')))"

fun bucket_del :: "conn_info \<Rightarrow> (conn_info \<times> int) list \<Rightarrow> fault + (conn_info \<times> int) list" where
  "bucket_del i [] = Inr []"
| "bucket_del i ((k, v) # es) =
     (case info_eq k i of
        Inl f \<Rightarrow> Inl f
      | Inr e \<Rightarrow> if e then Inr es
                else (case bucket_del i es of Inl f \<Rightarrow> Inl f | Inr es' \<Rightarrow> Inr ((k, v) # es')))"

definition table_insert :: "(string \<Rightarrow> nat) \<Rightarrow> (nat \<Rightarrow> nat) \<Rightarrow> conn_info \<Rightarrow> int \<Rightarrow> hash_table \<Rightarrow> fault + hash_table" where
  "table_insert hs hi i fd t =
     (case info_hash hs hi i of
        Inl f \<Rightarrow> Inl f
      | Inr h \<Rightarrow> (case bucket_set i fd (t h) of Inl f \<Rightarrow> Inl f | Inr es \<Rightarrow> Inr (t(h := es))))"

definition table_get :: "(string \<Rightarrow> nat) \<Rightarrow> (nat \<Rightarrow> nat) \<Rightarrow> conn_info \<Rightarrow> hash_table \<Rightarrow> fault + int" where
  "table_get hs hi i t =
     (case info_hash hs hi i of
        Inl f \<Rightarrow> Inl f
      | Inr h \<Rightarrow>
          (case bucket_find i (t h) of
             Inl f \<Rightarrow> Inl f
           | Inr (Some fd) \<Rightarrow> Inr fd
           | Inr None \<Rightarrow> Inr INVALID_FD))"

definition table_remove :: "(string \<Rightarrow> nat) \<Rightarrow> (nat \<Rightarrow> nat) \<Rightarrow> conn_info \<Rightarrow> hash_table \<Rightarrow> fault + hash_table" where
  "table_remove hs hi i t =
     (case info_hash hs hi i of
        Inl f \<Rightarrow> Inl f
      | Inr h \<Rightarrow>
          (case bucket_find i (t h) of
             Inl f \<Rightarrow> Inl f
           | Inr None \<Rightarrow> Inr t
           | Inr (Some fd) \<Rightarrow>
               (case bucket_del i (t h) of Inl f \<Rightarrow> Inl f | Inr es \<Rightarrow> Inr (t(h := es)))))"

definition table_clear :: "hash_table \<Rightarrow> hash_table" where
  "table_clear t = empty_table"

section \<open>The buckets as association lists\<close>

lemma info_eq_complete: "complete l \<Longrightarrow> complete r \<Longrightarrow> info_eq l r = Inr (l = r)"
  by (auto simp: info_eq_def complete_def split: option.splits intro: conn_info.equality)

lemma info_hash_complete: "complete i \<Longrightarrow> \<exists>h. info_hash hs hi i = Inr h"
  by (auto simp: info_hash_def complete_def)

definition bucket_ok :: "(conn_info \<times> int) list \<Rightarrow> bool" where
  "bucket_ok es \<longleftrightarrow> distinct (map fst es) \<and> (\<forall>k\<in>fst ` set es. complete k)"

lemma bucket_ok_Nil [simp]: "bucket_ok []"
  by (simp add: bucket_ok_def)

lemma bucket_find_eq: "complete i \<Longrightarrow> bucket_ok es \<Longrightarrow> bucket_find i es = Inr (map_of es i)"
  by (induction i es rule: bucket_find.induct) (auto simp: bucket_ok_def info_eq_complete)

lemma bucket_set_eq: "complete i \<Longrightarrow> bucket_ok es \<Longrightarrow> bucket_set i fd es = Inr (AList.update i fd es)"
  by (induction i fd es rule: bucket_set.induct) (auto simp: bucket_ok_def info_eq_complete)

lemma bucket_del_eq: "complete i \<Longrightarrow> bucket_ok es \<Longrightarrow> bucket_del i es = Inr (AList.delete i es)"
proof (induction i es rule: bucket_del.induct)
  case (2 i k v es)
  have "AList.delete i es = es" if "k = i"
    using "2.prems"(2) that by (auto simp: bucket_ok_def intro!: delete_id)
  with 2 show ?case by (auto simp: bucket_ok_def info_eq_complete)
qed simp

lemma bucket_ok_update: "complete i \<Longrightarrow> bucket_ok es \<Longrightarrow> bucket_ok (AList.update i fd es)"
  using dom_update [of i fd es] by (auto simp: bucket_ok_def distinct_update)

lemma bucket_ok_delete: "bucket_ok es \<Longrightarrow> bucket_ok (AList.delete i es)"
  by (auto simp: bucket_ok_def AList.delete_eq distinct_map_filter)

section \<open>The table as a map\<close>

definition table_ok :: "(string \<Rightarrow> nat) \<Rightarrow> (nat \<Rightarrow> nat) \<Rightarrow> hash_table \<Rightarrow> bool" where
  "table_ok hs hi t \<longleftrightarrow> (\<forall>h. bucket_ok (t h))"

definition table_map :: "(string \<Rightarrow> nat) \<Rightarrow> (nat \<Rightarrow> nat) \<Rightarrow> hash_table \<Rightarrow> conn_info \<rightharpoonup> int" where
  "table_map hs hi t i = (case info_hash hs hi i of Inl f \<Rightarrow> None | Inr h \<Rightarrow> map_of (t h) i)"

lemma table_ok_empty [simp]: "table_ok hs hi empty_table"
  by (simp add: table_ok_def empty_table_def)

lemma table_map_empty [simp]: "table_map hs hi empty_table = Map.empty"
  by (auto simp: table_map_def empty_table_def split: sum.splits)

lemma table_get_eq:
  "table_ok hs hi t \<Longrightarrow> complete i \<Longrightarrow>
     table_get hs hi i t = Inr (case table_map hs hi t i of Some fd \<Rightarrow> fd | None \<Rightarrow> INVALID_FD)"
  using info_hash_complete [of i hs hi]
  by (auto simp: table_get_def table_map_def table_ok_def bucket_find_eq split: option.splits)

text \<open>The contract of a registry, and what a client may conclude from it.\<close>

datatype 'k registry_op = Reg_insert 'k int | Reg_remove 'k

primrec op_key :: "'k registry_op \<Rightarrow> 'k" where
  "op_key (Reg_insert k v) = k"
| "op_key (Reg_remove k) = k"

fun registry_run :: "('k \<Rightarrow> int \<Rightarrow> 's \<Rightarrow> fault + 's) \<Rightarrow> ('k \<Rightarrow> 's \<Rightarrow> fault + 's) \<Rightarrow> 'k registry_op list \<Rightarrow> 's \<Rightarrow>
    fault + 's" where
  "registry_run ins rem [] s = Inr s"
| "registry_run ins rem (Reg_insert k v # ops) s =
     (case ins k v s of Inl f \<Rightarrow> Inl f | Inr s' \<Rightarrow> registry_run ins rem ops s')"
| "registry_run ins rem (Reg_remove k # ops) s =
     (case rem k s of Inl f \<Rightarrow> Inl f | Inr s' \<Rightarrow> registry_run ins rem ops s')"

fun registry_effect :: "'k registry_op list \<Rightarrow> ('k \<rightharpoonup> int) \<Rightarrow> 'k \<rightharpoonup> int" where
  "registry_effect [] m = m"
| "registry_effect (Reg_insert k v # ops) m = registry_effect ops (m(k \<mapsto> v))"
| "registry_effect (Reg_remove k # ops) m = registry_effect ops (m(k := None))"

locale registry =
  fixes ok :: "'s \<Rightarrow> bool"
    and valid :: "'k \<Rightarrow> bool"
    and abs :: "'s \<Rightarrow> 'k \<rightharpoonup> int"
    and insert :: "'k \<Rightarrow> int \<Rightarrow> 's \<Rightarrow> fault + 's"
    and remove :: "'k \<Rightarrow> 's \<Rightarrow> fault + 's"
  assumes insert_abs: "ok s \<Longrightarrow> valid k \<Longrightarrow> \<exists>s'. insert k v s = Inr s' \<and> ok s' \<and> abs s' = (abs s)(k \<mapsto> v)"
    and remove_abs: "ok s \<Longrightarrow> valid k \<Longrightarrow> \<exists>s'. remove k s = Inr s' \<and> ok s' \<and> abs s' = (abs s)(k := None)"
begin

lemma run_abs:
  "ok s \<Longrightarrow> \<forall>p\<in>set ops. valid (op_key p) \<Longrightarrow>
     \<exists>s'. registry_run insert remove ops s = Inr s' \<and> ok s' \<and> abs s' = registry_effect ops (abs s)"
proof (induction ops arbitrary: s)
  case (Cons p ops)
  show ?case
  proof (cases p)
    case (Reg_insert k v)
    with Cons.prems insert_abs [of s k v] obtain s1 where s1: "insert k v s = Inr s1" "ok s1" "abs s1 = (abs s)(k \<mapsto> v)"
      by auto
    from Cons.IH [OF s1(2)] Cons.prems(2) show ?thesis
      by (simp only: Reg_insert registry_run.simps registry_effect.simps s1(1) s1(3) [symmetric]) simp
  next
    case (Reg_remove k)
    with Cons.prems remove_abs [of s k] obtain s1 where s1: "remove k s = Inr s1" "ok s1" "abs s1 = (abs s)(k := None)"
      by auto
    from Cons.IH [OF s1(2)] Cons.prems(2) show ?thesis
      by (simp only: Reg_remove registry_run.simps registry_effect.simps s1(1) s1(3) [symmetric]) simp
  qed
qed simp

end

lemma table_insert_abs:
  assumes "table_ok hs hi t" "complete i"
  shows "\<exists>t'. table_insert hs hi i fd t = Inr t' \<and> table_ok hs hi t'
     \<and> table_map hs hi t' = (table_map hs hi t)(i \<mapsto> fd)"
proof -
  obtain h where h: "info_hash hs hi i = Inr h" using info_hash_complete [OF assms(2)] by blast
  have b: "bucket_ok (t h)" using assms(1) by (simp add: table_ok_def)
  have "table_insert hs hi i fd t = Inr (t(h := AList.update i fd (t h)))"
    using h b assms(2) by (simp add: table_insert_def bucket_set_eq)
  moreover have "table_ok hs hi (t(h := AList.update i fd (t h)))"
    using assms by (simp add: table_ok_def bucket_ok_update)
  moreover have "table_map hs hi (t(h := AList.update i fd (t h))) = (table_map hs hi t)(i \<mapsto> fd)"
    using h by (auto simp: table_map_def update_conv' fun_eq_iff split: sum.splits)
  ultimately show ?thesis by blast
qed

lemma table_remove_abs:
  assumes "table_ok hs hi t" "complete i"
  shows "\<exists>t'. table_remove hs hi i t = Inr t' \<and> table_ok hs hi t'
     \<and> table_map hs hi t' = (table_map hs hi t)(i := None)"
proof -
  obtain h where h: "info_hash hs hi i = Inr h" using info_hash_complete [OF assms(2)] by blast
  have b: "bucket_ok (t h)" using assms(1) by (simp add: table_ok_def)
  show ?thesis
  proof (cases "map_of (t h) i")
    case None
    have "table_map hs hi t = (table_map hs hi t)(i := None)"
      using None h by (auto simp: fun_eq_iff table_map_def)
    with None assms h b show ?thesis by (simp add: table_remove_def bucket_find_eq)
  next
    case (Some fd)
    have "table_remove hs hi i t = Inr (t(h := AList.delete i (t h)))"
      using Some h b assms(2) by (simp add: table_remove_def bucket_find_eq bucket_del_eq)
    moreover have "table_ok hs hi (t(h := AList.delete i (t h)))"
      using assms(1) by (simp add: table_ok_def bucket_ok_delete)
    moreover have "table_map hs hi (t(h := AList.delete i (t h))) = (table_map hs hi t)(i := None)"
      using h by (auto simp: table_map_def delete_conv' fun_eq_iff split: sum.splits)
    ultimately show ?thesis by blast
  qed
qed

interpretation conn_registry: registry "table_ok hs hi" complete "table_map hs hi" "table_insert hs hi" "table_remove hs hi"
  for hs hi
  by unfold_locales (simp_all add: table_insert_abs table_remove_abs)

text \<open>C7: The table implements a finite map from addresses to descriptors, whatever the hash functions and
  collisions: after any sequence of \<open>Insert\<close> and \<open>Remove\<close> on complete addresses, none of which faults, \<open>Get\<close>
  returns the descriptor of the last operation on the address, or \<open>INVALID_FD\<close>.\<close>

theorem hash_table_refines_map:
  assumes "\<forall>p\<in>set ops. complete (op_key p)" "complete i"
  shows "\<exists>t. registry_run (table_insert hs hi) (table_remove hs hi) ops empty_table = Inr t
    \<and> table_get hs hi i t = Inr (case registry_effect ops Map.empty i of Some fd \<Rightarrow> fd | None \<Rightarrow> INVALID_FD)"
proof -
  from conn_registry.run_abs [OF table_ok_empty assms(1), of hs hi] obtain t where
    "registry_run (table_insert hs hi) (table_remove hs hi) ops empty_table = Inr t" "table_ok hs hi t"
    "table_map hs hi t = registry_effect ops Map.empty" by auto
  with table_get_eq [OF this(2) assms(2)] show ?thesis by auto
qed

definition sample_info :: conn_info where
  "sample_info = \<lparr>src_ip = Some ''10.0.0.1'', src_port = 80, dst_ip = Some ''10.0.0.2'', dst_port = 90\<rparr>"

theorem hash_table_refines_map_witness:
  "\<exists>t. registry_run (table_insert length id) (table_remove length id)
        [Reg_insert sample_info 5, Reg_insert (sample_info\<lparr>src_port := 81\<rparr>) 6, Reg_insert sample_info 7,
         Reg_remove (sample_info\<lparr>src_port := 81\<rparr>)] empty_table = Inr t
    \<and> table_get length id sample_info t = Inr 7"
proof -
  let ?ops = "[Reg_insert sample_info 5, Reg_insert (sample_info\<lparr>src_port := 81\<rparr>) 6, Reg_insert sample_info 7,
         Reg_remove (sample_info\<lparr>src_port := 81\<rparr>)]"
  have "\<forall>p\<in>set ?ops. complete (op_key p)" "complete sample_info"
    by (simp_all add: complete_def sample_info_def)
  from hash_table_refines_map [OF this, of length id] show ?thesis by (simp add: sample_info_def)
qed

end
