(* ===== verification/Edn_Socket.thy ===== *)
theory Edn_Socket
  imports Edn_Define Edn_Hash_Table
begin

text \<open>
  The socket helpers (\<open>socket/edn_socket_utils.h\<close>, \<open>socket/edn_socket_utils.cpp\<close>) and the deep copy of
  an address (\<open>copy_connect_info\<close>, \<open>free_connect_info\<close> in \<open>edn.cpp\<close>).

  The kernel and the resolver functions of libc are the record \<open>net\<close>: what they answer to a call
  with given arguments. An operation returns its value and the system calls it makes, in order.
  A \<open>const char*\<close> is a value of \<open>cstr\<close>: null, the static buffer of \<open>inet_ntoa\<close> (whose content
  changes with every call of it), a string its owner keeps, or the storage of a dead temporary.
\<close>

unbundle bit_operations_syntax

section \<open>Addresses and the kernel's answers\<close>

datatype in_addr = In4 u8 u8 u8 u8

type_synonym in6_addr = "128 word"

text \<open>Ports are stored in network byte order.\<close>

datatype sockaddr = Sin in_addr "16 word" | Sin6 in6_addr "16 word"

datatype iface = If_null | If_inet in_addr | If_inet6 in6_addr

record net =
  net_socket :: "bool \<Rightarrow> sysret"
  net_dgram :: sysret
  net_getfl :: "int \<Rightarrow> u32"
  net_connect :: "int \<Rightarrow> sockaddr \<Rightarrow> sysret"
  net_bind :: "int \<Rightarrow> sockaddr \<Rightarrow> sysret"
  net_close :: "int \<Rightarrow> sysret"
  net_fionread :: "int \<Rightarrow> sysret"
  net_eth0 :: "in_addr option"
  net_ifaddrs :: "iface list option"
  net_pton4 :: "string \<Rightarrow> in_addr option"
  net_pton6 :: "string \<Rightarrow> in6_addr option"
  net_ntop6 :: "in6_addr \<Rightarrow> string"
  net_peername :: "int \<Rightarrow> (in_addr \<times> 16 word) option"
  net_sockname :: "int \<Rightarrow> (in_addr \<times> 16 word) option"
  net_peername6 :: "int \<Rightarrow> (in6_addr \<times> 16 word) option"
  net_sockname6 :: "int \<Rightarrow> (in6_addr \<times> 16 word) option"

datatype sys_call =
    Sys_socket bool
  | Sys_setfl int u32
  | Sys_connect int sockaddr
  | Sys_bind int sockaddr
  | Sys_close int
  | Sys_dgram

text \<open>\<open>htons\<close> and \<open>ntohs\<close> on a little-endian target, and the narrowing of the port argument.\<close>

definition swap16 :: "16 word \<Rightarrow> 16 word" where
  "swap16 w = push_bit 8 w OR drop_bit 8 w"

definition htons :: "int \<Rightarrow> 16 word" where
  "htons port = swap16 (word_of_int port)"

definition ntohs :: "16 word \<Rightarrow> nat" where
  "ntohs w = unat (swap16 w)"

definition inet_ntoa :: "in_addr \<Rightarrow> string" where
  "inet_ntoa a = (case a of In4 w x y z \<Rightarrow>
     dec (unat w) @ ''.'' @ dec (unat x) @ ''.'' @ dec (unat y) @ ''.'' @ dec (unat z))"

section \<open>Strings behind pointers\<close>

datatype cstr = C_null | C_static | C_str string | C_dangling

record raw_info =
  raw_src_ip :: cstr
  raw_src_port :: nat
  raw_dst_ip :: cstr
  raw_dst_port :: nat

definition raw_of :: "conn_info \<Rightarrow> raw_info" where
  "raw_of i =
     (let ptr = (\<lambda>s. case s of None \<Rightarrow> C_null | Some x \<Rightarrow> C_str x)
      in \<lparr>raw_src_ip = ptr (src_ip i), raw_src_port = src_port i,
          raw_dst_ip = ptr (dst_ip i), raw_dst_port = dst_port i\<rparr>)"

text \<open>Reading a string; the first argument is what the static buffer holds now.\<close>

definition cstr_read :: "string \<Rightarrow> cstr \<Rightarrow> fault + string" where
  "cstr_read buf p = (case p of C_null \<Rightarrow> Inl Null_deref | C_static \<Rightarrow> Inr buf | C_str s \<Rightarrow> Inr s
     | C_dangling \<Rightarrow> Inl Dangling)"

definition copy_connect_info :: "string \<Rightarrow> raw_info \<Rightarrow> fault + conn_info" where
  "copy_connect_info buf i =
     (case cstr_read buf (raw_src_ip i) of
        Inl f \<Rightarrow> Inl f
      | Inr s \<Rightarrow>
          (case cstr_read buf (raw_dst_ip i) of
             Inl f \<Rightarrow> Inl f
           | Inr d \<Rightarrow> Inr \<lparr>src_ip = Some s, src_port = raw_src_port i, dst_ip = Some d, dst_port = raw_dst_port i\<rparr>))"

text \<open>
  \<open>free_connect_info\<close> takes its argument by value: it frees the strings, and the null it writes
  afterwards is lost. The result is the strings freed; the caller's copy is unchanged.
\<close>

definition free_connect_info :: "conn_info \<Rightarrow> string list" where
  "free_connect_info i =
     (case src_ip i of None \<Rightarrow> [] | Some s \<Rightarrow> [s]) @ (case dst_ip i of None \<Rightarrow> [] | Some d \<Rightarrow> [d])"

section \<open>Sockets\<close>

definition O_NONBLOCK :: u32 where [simp]: "O_NONBLOCK = 0x800"

definition SetNonBlocking :: "net \<Rightarrow> int \<Rightarrow> u32 \<times> sys_call list" where
  "SetNonBlocking net fd =
     (let old_opt = net_getfl net fd; new_opt = old_opt OR O_NONBLOCK in (old_opt, [Sys_setfl fd new_opt]))"

definition Socket :: "net \<Rightarrow> bool \<Rightarrow> int \<times> sys_call list" where
  "Socket net use_ipv6 =
     (case net_socket net use_ipv6 of
        Err e \<Rightarrow> (- 1, [Sys_socket use_ipv6])
      | Ret fd \<Rightarrow> (fd, Sys_socket use_ipv6 # snd (SetNonBlocking net fd)))"

text \<open>\<open>ConnectV4\<close> and \<open>ConnectV6\<close> on an address have the same body.\<close>

definition connect_addr :: "net \<Rightarrow> int \<Rightarrow> sockaddr \<Rightarrow> int \<times> sys_call list" where
  "connect_addr net fd addr =
     (case net_connect net fd addr of
        Ret r \<Rightarrow> (EDN_OK, [Sys_connect fd addr])
      | Err e \<Rightarrow> if e = EINPROGRESS then (EDN_OK, [Sys_connect fd addr])
                 else (EDN_ERR_SYS_ERROR, [Sys_connect fd addr]))"

definition bind_addr :: "net \<Rightarrow> int \<Rightarrow> sockaddr \<Rightarrow> int \<times> sys_call list" where
  "bind_addr net fd addr =
     (case net_bind net fd addr of
        Ret r \<Rightarrow> (EDN_OK, [Sys_bind fd addr])
      | Err e \<Rightarrow> (EDN_ERR_SYS_ERROR, [Sys_bind fd addr]))"

definition BindV4 :: "net \<Rightarrow> int \<Rightarrow> string \<Rightarrow> int \<Rightarrow> int \<times> sys_call list" where
  "BindV4 net fd ip port =
     (if ip = [] \<and> ip = DEFAULT_IVP4_ADDR then (EDN_OK, [])
      else case net_pton4 net ip of
        None \<Rightarrow> (EDN_ERR_SYS_ERROR, [])
      | Some a \<Rightarrow> bind_addr net fd (Sin a (htons port)))"

definition BindV6 :: "net \<Rightarrow> int \<Rightarrow> string \<Rightarrow> int \<Rightarrow> int \<times> sys_call list" where
  "BindV6 net fd addr port =
     (if addr = [] \<and> addr = DEFAULT_IVP6_ADDR then (EDN_OK, [])
      else case net_pton6 net addr of
        None \<Rightarrow> (EDN_ERR_SYS_ERROR, [])
      | Some a \<Rightarrow> bind_addr net fd (Sin6 a (htons port)))"

definition IsIpV6 :: "string \<Rightarrow> bool" where
  "IsIpV6 ip \<longleftrightarrow> CHR '':'' \<in> set ip"

definition Bind :: "net \<Rightarrow> int \<Rightarrow> string \<Rightarrow> int \<Rightarrow> int \<times> sys_call list" where
  "Bind net fd ip port = (if CHR '':'' \<in> set ip then BindV6 net fd ip port else BindV4 net fd ip port)"

definition ConnectV4 :: "net \<Rightarrow> int \<Rightarrow> string \<Rightarrow> int \<Rightarrow> int \<times> sys_call list" where
  "ConnectV4 net fd addr port =
     (case net_pton4 net addr of
        None \<Rightarrow> (EDN_ERR_SYS_ERROR, [])
      | Some a \<Rightarrow> connect_addr net fd (Sin a (htons port)))"

definition ConnectV6 :: "net \<Rightarrow> int \<Rightarrow> string \<Rightarrow> int \<Rightarrow> int \<times> sys_call list" where
  "ConnectV6 net fd addr port =
     (case net_pton6 net addr of
        None \<Rightarrow> (EDN_ERR_SYS_ERROR, [])
      | Some a \<Rightarrow> connect_addr net fd (Sin6 a (htons port)))"

definition Connect :: "net \<Rightarrow> int \<Rightarrow> string \<Rightarrow> int \<Rightarrow> int \<times> sys_call list" where
  "Connect net fd ip port = (if CHR '':'' \<in> set ip then ConnectV6 net fd ip port else ConnectV4 net fd ip port)"

definition Close :: "net \<Rightarrow> int \<Rightarrow> int \<times> sys_call list" where
  "Close net fd =
     (if fd = INVALID_FD then (EDN_ERR_PARAMS_INVALID, [])
      else case net_close net fd of
        Err e \<Rightarrow> (EDN_ERR_SYS_ERROR, [Sys_close fd])
      | Ret r \<Rightarrow> (EDN_OK, [Sys_close fd]))"

definition GetReadableBytes :: "net \<Rightarrow> int \<Rightarrow> int" where
  "GetReadableBytes net fd = (case net_fionread net fd of Err e \<Rightarrow> - 1 | Ret n \<Rightarrow> n)"

section \<open>Local addresses\<close>

text \<open>The address of \<open>eth0\<close>; the branch that fails returns before the descriptor is closed.\<close>

definition GetDefaultIpV4 :: "net \<Rightarrow> string \<times> sys_call list" where
  "GetDefaultIpV4 net =
     (case net_dgram net of
        Err e \<Rightarrow> (DEFAULT_IVP4_ADDR, [Sys_dgram])
      | Ret sockfd \<Rightarrow>
          (case net_eth0 net of
             None \<Rightarrow> (DEFAULT_IVP4_ADDR, [Sys_dgram])
           | Some a \<Rightarrow> (inet_ntoa a, [Sys_dgram, Sys_close sockfd])))"

definition is_loopback6 :: "in6_addr \<Rightarrow> bool" where
  "is_loopback6 a \<longleftrightarrow> a = 1"

fun first_global6 :: "net \<Rightarrow> iface list \<Rightarrow> string" where
  "first_global6 net [] = DEFAULT_IVP6_ADDR"
| "first_global6 net (If_null # ifs) = first_global6 net ifs"
| "first_global6 net (If_inet a # ifs) = first_global6 net ifs"
| "first_global6 net (If_inet6 a # ifs) = (if is_loopback6 a then first_global6 net ifs else net_ntop6 net a)"

definition GetDefaultIpV6 :: "net \<Rightarrow> string" where
  "GetDefaultIpV6 net = (case net_ifaddrs net of None \<Rightarrow> DEFAULT_IVP6_ADDR | Some ifs \<Rightarrow> first_global6 net ifs)"

text \<open>
  \<open>GetRealConnectInfo\<close>: in the IPv4 branch both addresses are pointers to the static buffer when
  they are copied; in the IPv6 branch \<open>inet_ntop\<close> is given no buffer and returns null.
\<close>

definition GetRealConnectInfo :: "net \<Rightarrow> int \<Rightarrow> bool \<Rightarrow> fault + conn_info" where
  "GetRealConnectInfo net fd is_ipv6 =
     (if is_ipv6 then
        (case net_peername6 net fd of
           None \<Rightarrow> Inr EDN_CONNECT_INFO_INIT
         | Some (a, p) \<Rightarrow>
             (case net_sockname6 net fd of
                None \<Rightarrow> Inr EDN_CONNECT_INFO_INIT
              | Some (la, lp) \<Rightarrow>
                  copy_connect_info [] \<lparr>raw_src_ip = C_null, raw_src_port = ntohs lp,
                                        raw_dst_ip = C_null, raw_dst_port = ntohs p\<rparr>))
      else
        (case net_peername net fd of
           None \<Rightarrow> Inr EDN_CONNECT_INFO_INIT
         | Some (a, p) \<Rightarrow>
             let buf = inet_ntoa a in
             (case net_sockname net fd of
                None \<Rightarrow> Inr EDN_CONNECT_INFO_INIT
              | Some (la, lp) \<Rightarrow>
                  let buf = inet_ntoa la in
                  copy_connect_info buf \<lparr>raw_src_ip = C_static, raw_src_port = ntohs lp,
                                         raw_dst_ip = C_static, raw_dst_port = ntohs p\<rparr>)))"

end
