(* ===== verification/Edn_Connect.thy ===== *)
theory Edn_Connect
  imports Edn_Context Edn_Buffer Edn_Socket
begin

text \<open>
  Connections (\<open>core/edn_connect.h\<close>, \<open>core/edn_connect.cpp\<close>): their constructors, the five callbacks they
  install, sending, closing and address handling, and the pool tasks of \<open>EdnIOEvent::handler\<close> that run the
  callbacks.

  A connection is an I/O event extended by \<open>as_connect\<close>: \<open>None\<close> for an event of another class, so that a cast
  to \<open>EdnConnect\<close> is a case distinction. All the state the operations share is the record \<open>world\<close>: the
  context with its objects, \<open>conn_table\<close>, the id counter, the kernel's answers that are still to come, and what
  was observable so far (system calls, bytes on the wire, callbacks). What does not change is the record
  \<open>env\<close>. The completion callbacks are the functions of the C interface: \<open>edn.cpp\<close> wraps each in a lambda that
  passes \<open>edn_code\<close> on, and a run of one is recorded with that code.
\<close>

section \<open>State\<close>

record connect_part =
  input_buffer :: "edn_buffer option"
  output_buffer :: "edn_buffer option"
  connect_info :: conn_info
  conn_timer :: "nat option"

record dyn_io = io_event +
  as_connect :: "connect_part option"

type_synonym conn_ctx = "(unit dyn_io_ext) ctx"

record env =
  e_net :: net
  e_os :: os
  e_cfg :: edn_config
  e_hs :: "string \<Rightarrow> nat"
  e_hi :: "nat \<Rightarrow> nat"
  e_errno :: int
  e_errmsg :: string
  e_sockopt :: bool
  e_fuel :: nat
  e_bytes :: "nat \<Rightarrow> u8"
  e_nodes :: "nat \<Rightarrow> buffer_node"

text \<open>
  \<open>w_io\<close> and \<open>w_tm\<close> are the next free addresses; \<open>w_timeout\<close> holds what the callback of a connect timer
  captured: the connection and the user's callback.
\<close>

record world =
  w_ctx :: conn_ctx
  w_table :: hash_table
  w_uuid :: int
  w_io :: nat
  w_tm :: nat
  w_timeout :: "nat \<rightharpoonup> nat \<times> nat"
  w_send :: "int \<Rightarrow> sysret list"
  w_recv :: "int \<Rightarrow> recv_ev list"
  w_sys :: "sys_call list"
  w_wire :: "int \<Rightarrow> u8 list"
  w_data :: "(u8 list \<times> int) list"
  w_cbs :: "(nat \<times> int) list"

section \<open>Access\<close>

text \<open>Sequencing: a statement after one that may have gone wrong.\<close>

definition try_then :: "fault + 'a \<Rightarrow> ('a \<Rightarrow> fault + 'b) \<Rightarrow> fault + 'b" where
  "try_then r f = (case r of Inl e \<Rightarrow> Inl e | Inr x \<Rightarrow> f x)"

lemma try_then_simps [simp]: "try_then (Inl e) f = Inl e" "try_then (Inr x) f = f x"
  by (simp_all add: try_then_def)

lemma try_then_Inr: "try_then r f = Inr y \<longleftrightarrow> (\<exists>x. r = Inr x \<and> f x = Inr y)"
  by (cases r) simp_all

abbreviation io_at :: "nat \<Rightarrow> world \<Rightarrow> dyn_io" where
  "io_at a w \<equiv> c_ios (w_ctx w) a"

abbreviation fd_at :: "nat \<Rightarrow> world \<Rightarrow> int" where
  "fd_at a w \<equiv> ev_fd (io_at a w)"

text \<open>\<open>(EdnConnect*)p\<close>, and the buffers behind their pointers.\<close>

definition the_conn :: "nat \<Rightarrow> world \<Rightarrow> fault + connect_part" where
  "the_conn a w = (case as_connect (io_at a w) of None \<Rightarrow> Inl Null_deref | Some p \<Rightarrow> Inr p)"

definition deref :: "'a option \<Rightarrow> fault + 'a" where
  "deref q = (case q of None \<Rightarrow> Inl Null_deref | Some x \<Rightarrow> Inr x)"

definition upd_io :: "nat \<Rightarrow> (dyn_io \<Rightarrow> dyn_io) \<Rightarrow> world \<Rightarrow> world" where
  "upd_io a f w = w\<lparr>w_ctx := set_io a (f (io_at a w)) (w_ctx w)\<rparr>"

definition upd_conn :: "nat \<Rightarrow> (connect_part \<Rightarrow> connect_part) \<Rightarrow> world \<Rightarrow> world" where
  "upd_conn a f = upd_io a (\<lambda>e. e\<lparr>as_connect := map_option f (as_connect e)\<rparr>)"

definition with_ctx :: "(conn_ctx \<Rightarrow> fault + conn_ctx) \<Rightarrow> world \<Rightarrow> fault + world" where
  "with_ctx f w = (case f (w_ctx w) of Inl e \<Rightarrow> Inl e | Inr c \<Rightarrow> Inr (w\<lparr>w_ctx := c\<rparr>))"

definition run_cbs :: "(nat \<times> edn_error) list \<Rightarrow> world \<Rightarrow> world" where
  "run_cbs cs w = w\<lparr>w_cbs := w_cbs w @ map (\<lambda>(c, err). (c, edn_code err)) cs\<rparr>"

definition syscalls :: "sys_call list \<Rightarrow> world \<Rightarrow> world" where
  "syscalls cs w = w\<lparr>w_sys := w_sys w @ cs\<rparr>"

text \<open>\<open>context_.lock()->GetListener()->add(shared_from_this())\<close>; the clock is not read for a descriptor.\<close>

definition add_again :: "env \<Rightarrow> nat \<Rightarrow> world \<Rightarrow> fault + (int \<times> world)" where
  "add_again env a w =
     (case epoll_add (e_os env) 0 (Io a) (w_ctx w) of
        Inl f \<Rightarrow> Inl f
      | Inr (ret, c) \<Rightarrow> Inr (ret, w\<lparr>w_ctx := c\<rparr>))"

section \<open>Addresses\<close>

text \<open>\<open>c_str()\<close> of a temporary, used after the statement that made it.\<close>

definition temp_c_str :: "string \<Rightarrow> cstr" where
  "temp_c_str s = C_dangling"

definition ConnectInfoNomalize :: "net \<Rightarrow> conn_info \<Rightarrow> fault + conn_info" where
  "ConnectInfoNomalize net info =
     (let c = raw_of info;
          v4 = temp_c_str (fst (GetDefaultIpV4 net));
          v6 = temp_c_str (GetDefaultIpV6 net) in
      try_then
        (if src_ip info = None \<or> src_ip info = Some [] then
           try_then (deref (dst_ip info)) (\<lambda>d. Inr (c\<lparr>raw_src_ip := if IsIpV6 d then v6 else v4\<rparr>))
         else if src_ip info = Some DEFAULT_IVP4_ADDR then Inr (c\<lparr>raw_src_ip := v4\<rparr>)
         else if src_ip info = Some DEFAULT_IVP6_ADDR then Inr (c\<lparr>raw_src_ip := v6\<rparr>)
         else Inr c)
        (copy_connect_info []))"

definition SetConnectInfo :: "env \<Rightarrow> nat \<Rightarrow> conn_info \<Rightarrow> world \<Rightarrow> fault + world" where
  "SetConnectInfo env a info w =
     (if dst_ip info = None \<or> dst_ip info = Some [] then Inr w
      else try_then (ConnectInfoNomalize (e_net env) info)
             (\<lambda>i. Inr (upd_conn a (\<lambda>p. p\<lparr>connect_info := i\<rparr>) w)))"

definition GetConnectInfo :: "connect_part \<Rightarrow> conn_info" where
  "GetConnectInfo p = connect_info p"

definition SetTimer :: "nat \<Rightarrow> nat option \<Rightarrow> world \<Rightarrow> world" where
  "SetTimer a t = upd_conn a (\<lambda>p. p\<lparr>conn_timer := t\<rparr>)"

definition GetTimer :: "connect_part \<Rightarrow> nat option" where
  "GetTimer p = conn_timer p"

definition Format :: "conn_info \<Rightarrow> string" where
  "Format info =
     ''Connect info:'' @ [CHR 0x0A] @
     (case src_ip info of None \<Rightarrow> [] | Some s \<Rightarrow> ''src_ip: '' @ s @ [CHR 0x0A]) @
     (if src_port info \<noteq> 0 then ''src_port: '' @ dec (src_port info) @ [CHR 0x0A] else []) @
     (case dst_ip info of None \<Rightarrow> [] | Some s \<Rightarrow> ''dst_ip: '' @ s @ [CHR 0x0A]) @
     (if dst_port info \<noteq> 0 then ''dst_port: '' @ dec (dst_port info) @ [CHR 0x0A] else [])"

section \<open>Constructors\<close>

text \<open>
  The object after the base class's constructor, with the descriptor then stored in it, and after a
  constructor that came to its end. The first keeps the default callbacks and has no buffers.
\<close>

definition bare_connect :: "int \<Rightarrow> int \<Rightarrow> conn_info \<Rightarrow> dyn_io" where
  "bare_connect uuid fd info =
     io_event.extend ((EdnIOEvent uuid INVALID_FD True)\<lparr>ev_fd := fd\<rparr>)
       (dyn_io.fields (Some \<lparr>input_buffer = None, output_buffer = None, connect_info = info, conn_timer = None\<rparr>))"

definition ready_connect :: "env \<Rightarrow> int \<Rightarrow> int \<Rightarrow> nat option \<Rightarrow> dyn_io" where
  "ready_connect env uuid fd cb =
     (let buf = EdnBuffer (e_cfg env) (e_bytes env) (e_nodes env) in
      (bare_connect uuid fd EDN_CONNECT_INFO_INIT)
        \<lparr>conn_cb := On_conn, read_cb := On_read, write_cb := On_write, error_cb := On_error, close_cb := On_close,
         as_connect := Some \<lparr>input_buffer = Some buf, output_buffer = Some (SetCallback_opt cb buf),
                             connect_info = EDN_CONNECT_INFO_INIT, conn_timer = None\<rparr>\<rparr>)"

text \<open>
  \<open>EdnConnect(info, cb)\<close>: a failed bind is only logged; after a failed connect the descriptor is closed and
  stays in \<open>fd_\<close>.
\<close>

definition EdnConnect_info :: "env \<Rightarrow> int \<Rightarrow> conn_info \<Rightarrow> nat option \<Rightarrow> fault + (dyn_io \<times> sys_call list)" where
  "EdnConnect_info env uuid info cb =
     (case Socket (e_net env) False of (fd, c1) \<Rightarrow>
        if fd = - 1 then Inr (bare_connect uuid fd EDN_CONNECT_INFO_INIT, c1)
        else
          try_then (deref (src_ip info)) (\<lambda>s.
            case Bind (e_net env) fd s (wrap32 (int (src_port info))) of (r, c2) \<Rightarrow>
          try_then (deref (dst_ip info)) (\<lambda>d.
            case Connect (e_net env) fd d (wrap32 (int (dst_port info))) of (ret, c3) \<Rightarrow>
              if ret \<noteq> EDN_OK
              then Inr (bare_connect uuid fd EDN_CONNECT_INFO_INIT, c1 @ c2 @ c3 @ [Sys_close fd])
              else Inr (ready_connect env uuid fd cb, c1 @ c2 @ c3))))"

text \<open>
  \<open>EdnConnect(ip, port)\<close>: \<open>connect_info_\<close> is written last; \<open>garbage\<close> is what it holds when the constructor
  returns early.
\<close>

definition EdnConnect_addr :: "env \<Rightarrow> int \<Rightarrow> conn_info \<Rightarrow> string \<Rightarrow> int \<Rightarrow> dyn_io \<times> sys_call list" where
  "EdnConnect_addr env uuid garbage ip port =
     (case Socket (e_net env) False of (fd, c1) \<Rightarrow>
        if fd = - 1 then (bare_connect uuid INVALID_FD garbage, c1)
        else (case Connect (e_net env) fd ip port of (ret, c2) \<Rightarrow>
                if ret \<noteq> EDN_OK then (bare_connect uuid fd garbage, c1 @ c2 @ [Sys_close fd])
                else (ready_connect env uuid fd None, c1 @ c2)))"

section \<open>Closing\<close>

text \<open>\<open>EdnConnect::Close\<close> always returns \<open>EDN_OK\<close>; it does not reset \<open>fd_\<close>.\<close>

definition conn_Close :: "env \<Rightarrow> nat \<Rightarrow> world \<Rightarrow> fault + world" where
  "conn_Close env a w =
     try_then (the_conn a w) (\<lambda>p.
     try_then
       (case conn_timer p of
          None \<Rightarrow> Inr w
        | Some t \<Rightarrow> try_then (with_ctx (DelEvent (e_os env) (Some (Tm t))) w) (\<lambda>w1. Inr (SetTimer a None w1)))
       (\<lambda>w2. Inr (syscalls (snd (Close (e_net env) (fd_at a w2))) w2)))"

text \<open>
  The destructors, when the last owner lets go: \<open>~EdnConnect\<close>, then \<open>~EdnIOEvent\<close>. The first result is the
  strings freed.
\<close>

definition destroy_io :: "env \<Rightarrow> nat \<Rightarrow> world \<Rightarrow> world" where
  "destroy_io env a w =
     (if fd_at a w \<noteq> INVALID_FD
      then upd_io a (\<lambda>e. e\<lparr>ev_fd := INVALID_FD\<rparr>) (syscalls (snd (Close (e_net env) (fd_at a w))) w)
      else w)"

definition destroy_connect :: "env \<Rightarrow> nat \<Rightarrow> world \<Rightarrow> fault + (string list \<times> world)" where
  "destroy_connect env a w =
     try_then (the_conn a w) (\<lambda>p.
     try_then (conn_Close env a w) (\<lambda>w1. Inr (free_connect_info (connect_info p), destroy_io env a w1)))"

section \<open>Sending\<close>

definition SendData :: "env \<Rightarrow> nat \<Rightarrow> u8 list option \<Rightarrow> nat \<Rightarrow> nat option \<Rightarrow> world \<Rightarrow> fault + (int \<times> world)" where
  "SendData env a data len cb w =
     (case data of
        None \<Rightarrow> Inr (EDN_ERR_PARAMS_INVALID, w)
      | Some d \<Rightarrow>
          if len = 0 then Inr (EDN_ERR_PARAMS_INVALID, w)
          else if status_num (connect_status (io_at a w)) < status_num CS_CONNECTED
               \<or> status_num CS_WRITE < status_num (connect_status (io_at a w)) then
            (case cb of
               None \<Rightarrow> Inl Bad_function_call
             | Some c \<Rightarrow>
                 Inr (EDN_ERROR_CONNECT_UNAVAILABLE,
                   run_cbs [(c, \<lparr>edn_code = EDN_ERROR_CONNECT_UNAVAILABLE, sys_code = e_errno env,
                                 errmsg = ''connect unavailable.''\<rparr>)] w))
          else
            try_then (the_conn a w) (\<lambda>p.
            try_then (deref (output_buffer p)) (\<lambda>b0.
            try_then (buf_write (e_cfg env) (take len d) (SetCallback_opt cb b0)) (\<lambda>(ret, b).
              let w1 = upd_conn a (\<lambda>p. p\<lparr>output_buffer := Some b\<rparr>) w in
              if ret \<noteq> EDN_OK then Inr (ret, w1)
              else if 0 < GetSize b then
                if has (ev_events (io_at a w1)) EV_WRITE then Inr (EDN_OK, w1)
                else try_then (add_again env a (upd_io a (SetEvents EV_WRITE True) w1)) (\<lambda>(ret, w2).
                       if ret \<noteq> EDN_OK then Inr (ret, w2) else Inr (EDN_OK, w2))
              else Inr (EDN_OK, w1)))))"

definition SetHandleDataCallback :: "nat \<Rightarrow> (u8 list \<Rightarrow> int \<Rightarrow> int) option \<Rightarrow> world \<Rightarrow> fault + (int \<times> world)" where
  "SetHandleDataCallback a cb w =
     (case cb of
        None \<Rightarrow> Inr (EDN_ERR_PARAMS_INVALID, w)
      | Some f \<Rightarrow>
          try_then (the_conn a w) (\<lambda>p.
          try_then (deref (input_buffer p)) (\<lambda>b.
            Inr (EDN_OK, upd_conn a (\<lambda>p. p\<lparr>input_buffer := Some (SetCallback_handle f b)\<rparr>) w))))"

definition SetMessageEndCallback :: "nat \<Rightarrow> (u8 list \<Rightarrow> int \<Rightarrow> nat) option \<Rightarrow> world \<Rightarrow> fault + (int \<times> world)" where
  "SetMessageEndCallback a cb w =
     (case cb of
        None \<Rightarrow> Inr (EDN_ERR_PARAMS_INVALID, w)
      | Some f \<Rightarrow>
          try_then (the_conn a w) (\<lambda>p.
          try_then (deref (input_buffer p)) (\<lambda>b.
            Inr (EDN_OK, upd_conn a (\<lambda>p. p\<lparr>input_buffer := Some (SetCallback_end f b)\<rparr>) w))))"

section \<open>Callbacks\<close>

definition on_conn :: "env \<Rightarrow> nat \<Rightarrow> world \<Rightarrow> fault + (int \<times> world)" where
  "on_conn env a w =
     try_then (GetRealConnectInfo (e_net env) (fd_at a w) False) (\<lambda>real.
     try_then (SetConnectInfo env a real w) (\<lambda>w1.
     try_then (the_conn a w1) (\<lambda>p.
     try_then (table_insert (e_hs env) (e_hi env) (GetConnectInfo p) (fd_at a w1) (w_table w1)) (\<lambda>t.
     try_then (with_ctx (DelEvent (e_os env) (map_option Tm (GetTimer p))) (w1\<lparr>w_table := t\<rparr>)) (\<lambda>w2.
       Inr (EDN_OK, SetTimer a None w2))))))"

definition on_read :: "env \<Rightarrow> nat \<Rightarrow> world \<Rightarrow> fault + (int \<times> world)" where
  "on_read env a w =
     try_then (the_conn a w) (\<lambda>p.
     try_then (deref (input_buffer p)) (\<lambda>b.
       let fd = fd_at a w in
     try_then (RecvAtMost (e_cfg env) (e_fuel env) (GetReadableBytes (e_net env) fd) (w_recv w fd) b)
       (\<lambda>(ret, b', rest, calls).
         let w1 = upd_conn a (\<lambda>p. p\<lparr>input_buffer := Some b'\<rparr>)
                    (w\<lparr>w_recv := (w_recv w)(fd := rest), w_data := w_data w @ calls\<rparr>) in
         if ret < 0 then Inr (ret, w1) else Inr (EDN_OK, w1))))"

definition on_write :: "env \<Rightarrow> nat \<Rightarrow> world \<Rightarrow> fault + (int \<times> world)" where
  "on_write env a w =
     try_then (the_conn a w) (\<lambda>p.
     try_then (deref (output_buffer p)) (\<lambda>b.
       let fd = fd_at a w;
           finish = (\<lambda>b' w'. if GetSize b' = 0 then Inr (EDN_OK, upd_io a (SetEvents EV_WRITE False) w')
                             else Inr (EDN_OK, w')) in
       if 0 < GetSize b then
         try_then (SendAtMost (w_send w fd) b) (\<lambda>(ret, b', out, rest).
           let w1 = upd_conn a (\<lambda>p. p\<lparr>output_buffer := Some b'\<rparr>)
                      (w\<lparr>w_send := (w_send w)(fd := rest), w_wire := (w_wire w)(fd := w_wire w fd @ out)\<rparr>) in
           if ret < 0 then try_then (conn_Close env a w1) (\<lambda>w2. Inr (ret, w2))
           else if GetLowWaterMark b' = 0 \<or> GetSize b' < GetLowWaterMark b' then
             finish b' (run_cbs (CallBack \<lparr>edn_code = EDN_OK, sys_code = 0, errmsg = dec_int ret\<rparr> b') w1)
           else finish b' w1)
       else finish b w))"

definition on_close :: "env \<Rightarrow> nat \<Rightarrow> world \<Rightarrow> fault + (int \<times> world)" where
  "on_close env a w =
     try_then (conn_Close env a w) (\<lambda>w1.
     try_then (with_ctx (DelEvent (e_os env) (Some (Io a))) w1) (\<lambda>w2. Inr (EDN_OK, w2)))"

definition on_error :: "env \<Rightarrow> nat \<Rightarrow> world \<Rightarrow> fault + (int \<times> world)" where
  "on_error env a w =
     try_then (the_conn a w) (\<lambda>p.
     try_then (deref (output_buffer p)) (\<lambda>b.
       on_close env a
         (run_cbs (CallBack \<lparr>edn_code = EDN_ERR_SOCK_ERROR, sys_code = e_errno env, errmsg = e_errmsg env\<rparr> b) w)))"

section \<open>Tasks\<close>

text \<open>
  Calling a stored callback; \<open>user\<close> is what the callbacks that are not of the library do. The default ones
  only log, and \<open>def_error_cb\<close> asks for the socket's error.
\<close>

definition run_cb :: "(nat \<Rightarrow> nat \<Rightarrow> world \<Rightarrow> fault + (int \<times> world)) \<Rightarrow> env \<Rightarrow> nat \<Rightarrow> io_cb \<Rightarrow> world \<Rightarrow>
    fault + (int \<times> world)" where
  "run_cb user env a cb w =
     (case cb of
        Cb_empty \<Rightarrow> Inl Bad_function_call
      | Def_conn_cb \<Rightarrow> Inr (EDN_OK, w)
      | Def_read_cb \<Rightarrow> Inr (EDN_OK, w)
      | Def_write_cb \<Rightarrow> Inr (EDN_OK, w)
      | Def_error_cb \<Rightarrow> Inr (if e_sockopt env then EDN_OK else EDN_ERR_SYS_ERROR, w)
      | Def_close_cb \<Rightarrow> Inr (EDN_OK, w)
      | On_conn \<Rightarrow> on_conn env a w
      | On_read \<Rightarrow> on_read env a w
      | On_write \<Rightarrow> on_write env a w
      | On_error \<Rightarrow> on_error env a w
      | On_close \<Rightarrow> on_close env a w
      | Cb_user n \<Rightarrow> user n a w)"

text \<open>
  A task of \<open>EdnIOEvent::handler\<close>: the callback, whose result is ignored, then for the first three kinds the
  interest mask and a new registration, whose failure is only logged.
\<close>

definition rearm :: "env \<Rightarrow> nat \<Rightarrow> io_task \<Rightarrow> world \<Rightarrow> fault + world" where
  "rearm env a t w = try_then (add_again env a (upd_io a (task_rearm t) w)) (\<lambda>(ret, w'). Inr w')"

definition run_io_task :: "(nat \<Rightarrow> nat \<Rightarrow> world \<Rightarrow> fault + (int \<times> world)) \<Rightarrow> env \<Rightarrow> nat \<Rightarrow> io_task \<Rightarrow> world \<Rightarrow>
    fault + world" where
  "run_io_task user env a t w =
     (case t of
        Conn_task cb \<Rightarrow> try_then (run_cb user env a cb w) (\<lambda>(r, w1). rearm env a t w1)
      | Read_task cb \<Rightarrow> try_then (run_cb user env a cb w) (\<lambda>(r, w1). rearm env a t w1)
      | Write_task cb \<Rightarrow> try_then (run_cb user env a cb w) (\<lambda>(r, w1). rearm env a t w1)
      | Close_task cb \<Rightarrow> try_then (run_cb user env a cb w) (\<lambda>(r, w1). Inr w1)
      | Error_task cb \<Rightarrow> try_then (run_cb user env a cb w) (\<lambda>(r, w1). Inr w1))"

end
