(* ===== verification/Edn_Api.thy ===== *)
theory Edn_Api
  imports Edn_Connect Edn_Log
begin

text \<open>
  The C interface (\<open>edn.h\<close>, \<open>edn.cpp\<close>) over the world of the connections. A connection id is a descriptor;
  looking it up is \<open>GetEvent\<close> followed by a cast.

  \<open>edn_connect\<close> is two steps, because the event loop and its workers run beside it: first the connection is made
  and registered, then its timer. The timer's callback is the lambda of \<open>edn_connect\<close>; who owns the timer while
  it runs matters, since the lambda lives in the timer.
\<close>

section \<open>Connection ids\<close>

text \<open>\<open>dynamic_pointer_cast<EdnConnect>(ctx->GetEvent(id))\<close>.\<close>

definition find_conn :: "int \<Rightarrow> world \<Rightarrow> fault + nat option" where
  "find_conn cid w =
     try_then (GetEvent cid (w_ctx w)) (\<lambda>q.
       Inr (case q of
              Some (Io a) \<Rightarrow> if as_connect (io_at a w) \<noteq> None then Some a else None
            | _ \<Rightarrow> None))"

section \<open>Connecting\<close>

text \<open>Up to the registration: an existing descriptor, or the address of the new connection.\<close>

definition edn_connect_open :: "env \<Rightarrow> conn_info \<Rightarrow> nat \<Rightarrow> world \<Rightarrow> fault + ((int + nat) \<times> world)" where
  "edn_connect_open env info cb w =
     try_then (ConnectInfoNomalize (e_net env) info) (\<lambda>i.
     try_then (table_get (e_hs env) (e_hi env) i (w_table w)) (\<lambda>fd.
       if fd \<noteq> - 1 then Inr (Inl fd, w)
       else case GetUUID (w_uuid w) of (u, s) \<Rightarrow>
         try_then (EdnConnect_info env u i (Some cb)) (\<lambda>(e, calls).
           let a = w_io w;
               w1 = syscalls calls (upd_io a (\<lambda>_. e) (w\<lparr>w_uuid := s, w_io := Suc a\<rparr>)) in
           try_then (with_ctx (AddEvent (e_os env) 0 (Io a)) w1) (\<lambda>w2. Inr (Inr a, w2)))))"

text \<open>The rest; \<open>n1\<close> and \<open>n2\<close> are the clock readings of \<open>EdnTimer\<close>'s constructor and of \<open>EdnEpoll::add\<close>.\<close>

definition edn_connect_arm :: "env \<Rightarrow> nat \<Rightarrow> int \<Rightarrow> nat \<Rightarrow> int \<Rightarrow> int \<Rightarrow> world \<Rightarrow> fault + (int \<times> world)" where
  "edn_connect_arm env a tmo cb n1 n2 w =
     (case GetUUID (w_uuid w) of (u, s) \<Rightarrow>
        let t = w_tm w;
            w1 = w\<lparr>w_uuid := s, w_tm := Suc t, w_timeout := (w_timeout w)(t \<mapsto> (a, cb)),
                   w_ctx := (w_ctx w)\<lparr>c_tg := set_timer t (\<lambda>_. SetCallback_timer (Some t) (EdnTimer u n1 tmo False None)) (c_tg (w_ctx w))\<rparr>\<rparr>;
            w2 = SetTimer a (Some t) w1 in
        try_then (with_ctx (AddEvent (e_os env) n2 (Tm t)) w2) (\<lambda>w3. Inr (fd_at a w3, w3)))"

definition edn_connect :: "env \<Rightarrow> conn_info \<Rightarrow> int \<Rightarrow> nat \<Rightarrow> int \<Rightarrow> int \<Rightarrow> world \<Rightarrow> fault + (int \<times> world)" where
  "edn_connect env info tmo cb n1 n2 w =
     try_then (edn_connect_open env info cb w) (\<lambda>(r, w1).
       case r of Inl fd \<Rightarrow> Inr (fd, w1) | Inr a \<Rightarrow> edn_connect_arm env a tmo cb n1 n2 w1)"

section \<open>The connect timer\<close>

abbreviation timer_at :: "nat \<Rightarrow> world \<Rightarrow> edn_timer" where
  "timer_at t w \<equiv> t_objs (c_tg (w_ctx w)) t"

text \<open>The owners of a timer: the group's queue and map, and the connections made so far.\<close>

definition owns_timer :: "nat \<Rightarrow> nat \<Rightarrow> world \<Rightarrow> bool" where
  "owns_timer i t w \<longleftrightarrow> (case as_connect (io_at i w) of None \<Rightarrow> False | Some p \<Rightarrow> conn_timer p = Some t)"

definition timer_held :: "nat \<Rightarrow> world \<Rightarrow> bool" where
  "timer_held t w \<longleftrightarrow>
     t \<in> set (t_queue (c_tg (w_ctx w))) \<or> t_map (c_tg (w_ctx w)) (ev_uuid (timer_at t w)) = Some t
     \<or> list_ex (\<lambda>i. owns_timer i t w) [0 ..< w_io w]"

text \<open>
  The lambda of \<open>edn_connect\<close>. \<open>held\<close> says whether the task that runs it owns the timer: the task of
  \<open>EdnEpoll::add\<close> does, the one of \<open>EdnEvent::Active\<close> has a bare \<open>this\<close>. Without an owner the timer, the lambda in
  it and what it captured are gone when \<open>Close\<close> returns.
\<close>

definition connect_timeout :: "env \<Rightarrow> bool \<Rightarrow> nat \<Rightarrow> nat \<Rightarrow> nat \<Rightarrow> world \<Rightarrow> fault + world" where
  "connect_timeout env held t a cb w =
     try_then (conn_Close env a w) (\<lambda>w1.
       if \<not> held \<and> \<not> timer_held t w1 then Inl Dangling
       else with_ctx (DelEvent (e_os env) (Some (Io a)))
              (run_cbs [(cb, \<lparr>edn_code = EDN_ERR_TIMEOUT, sys_code = 0, errmsg = []\<rparr>)] w1))"

text \<open>\<open>EdnTimer::handler\<close> in a task; \<open>user\<close> is what the callbacks of other timers do.\<close>

definition run_timer_task :: "(nat \<Rightarrow> world \<Rightarrow> fault + world) \<Rightarrow> env \<Rightarrow> bool \<Rightarrow> nat \<Rightarrow> world \<Rightarrow> fault + world" where
  "run_timer_task user env held t w =
     try_then (timer_handler (timer_at t w)) (\<lambda>(cid, code, tm').
     try_then (case w_timeout w cid of
                 None \<Rightarrow> user cid w
               | Some (a, cb) \<Rightarrow> connect_timeout env held t a cb w) (\<lambda>w1.
       Inr (w1\<lparr>w_ctx := (w_ctx w1)\<lparr>c_tg := set_timer t (\<lambda>x. snd (event_handler x)) (c_tg (w_ctx w1))\<rparr>\<rparr>)))"

section \<open>Sending, options, closing\<close>

text \<open>The result of \<open>SendData\<close> is not looked at.\<close>

definition edn_send_data :: "env \<Rightarrow> int \<Rightarrow> u8 list option \<Rightarrow> int \<Rightarrow> nat \<Rightarrow> world \<Rightarrow> fault + (int \<times> world)" where
  "edn_send_data env cid buffer len cb w =
     (if buffer = None \<or> len \<le> 0 then Inr (EDN_ERR_PARAMS_INVALID, w)
      else try_then (find_conn cid w) (\<lambda>it.
        case it of
          None \<Rightarrow> Inr (EDN_ERR_SOCK_ERROR, w)
        | Some a \<Rightarrow> try_then (SendData env a buffer (size_of_int len) (Some cb) w) (\<lambda>(r, w1). Inr (EDN_OK, w1))))"

text \<open>The option and its argument, a function pointer that may be null.\<close>

datatype edn_opt =
    OPT_HANDLE_DATA_CB "(u8 list \<Rightarrow> int \<Rightarrow> int) option"
  | OPT_MESSAGE_END_CB "(u8 list \<Rightarrow> int \<Rightarrow> nat) option"
  | OPT_OTHER int

definition edn_set_opt :: "int \<Rightarrow> edn_opt \<Rightarrow> world \<Rightarrow> fault + (int \<times> world)" where
  "edn_set_opt cid opt w =
     try_then (find_conn cid w) (\<lambda>it.
       case it of
         None \<Rightarrow> Inr (EDN_ERR_PARAMS_INVALID, w)
       | Some a \<Rightarrow>
           (case opt of
              OPT_HANDLE_DATA_CB cb \<Rightarrow> try_then (SetHandleDataCallback a cb w) (\<lambda>(r, w1). Inr (EDN_OK, w1))
            | OPT_MESSAGE_END_CB cb \<Rightarrow> try_then (SetMessageEndCallback a cb w) (\<lambda>(r, w1). Inr (EDN_OK, w1))
            | OPT_OTHER n \<Rightarrow> Inr (EDN_ERR_PARAMS_INVALID, w)))"

definition edn_close :: "env \<Rightarrow> int \<Rightarrow> world \<Rightarrow> fault + (int \<times> world)" where
  "edn_close env cid w =
     try_then (find_conn cid w) (\<lambda>it.
       case it of
         None \<Rightarrow> Inr (EDN_ERR_PARAMS_INVALID, w)
       | Some a \<Rightarrow>
           try_then (conn_Close env a w) (\<lambda>w1.
           try_then (with_ctx (DelEvent (e_os env) (Some (Io a))) w1) (\<lambda>w2. Inr (EDN_OK, w2))))"

definition edn_run :: "env \<Rightarrow> bool \<Rightarrow> int list \<Rightarrow> loop_round list \<Rightarrow> world \<Rightarrow> fault + (run_exit \<times> world \<times> int list)" where
  "edn_run env cs clock rounds w =
     try_then (Run (e_os env) cs clock rounds (w_ctx w)) (\<lambda>(x, c, waits). Inr (x, w\<lparr>w_ctx := c\<rparr>, waits))"

definition edn_set_log_cb :: "log_sink option \<Rightarrow> edn_logger \<Rightarrow> edn_logger" where
  "edn_set_log_cb cb l = SetLogCb cb l"

end
