(* ===== verification/Edn_System.thy ===== *)
theory Edn_System
  imports Edn_Api
begin

text \<open>
  The running library: the calls of the C interface, the event loop, the workers of the thread pool and the
  kernel's answers as steps over one world.

  The pool holds the tasks its clients enqueued (\<open>EdnEvent::Active\<close>, \<open>EdnIOEvent::handler\<close>,
  \<open>EdnEpoll::add\<close>). A worker takes one and runs it to its end; which of several workers gets on first is open, so any
  task of the queue may be next. A step of the relation is one call, one round of the loop or one task; the
  order inside the mutexes and the interleaving inside a handler are the matter of the component theories.
  \<open>edn_connect\<close> is two steps. Only the C interface is used: there are no signals and no other events or timers.
\<close>

section \<open>Running a task\<close>

text \<open>\<open>EdnIOEvent::handler\<close> in a worker: it enqueues a task per readiness bit.\<close>

definition run_io_handler :: "nat \<Rightarrow> world \<Rightarrow> world" where
  "run_io_handler a w =
     (case io_handler (io_at a w) of (ts, code, e) \<Rightarrow>
        (let w1 = upd_io a (\<lambda>_. e) w in
         w1\<lparr>w_ctx := (w_ctx w1)\<lparr>c_pool := c_pool (w_ctx w1) @ map (T_io a) ts\<rparr>\<rparr>))"

definition run_signal_handler :: "nat \<Rightarrow> world \<Rightarrow> fault + world" where
  "run_signal_handler s w =
     try_then (signal_handler (c_sigs (w_ctx w) s)) (\<lambda>(cb, code, sig').
       Inr (w\<lparr>w_ctx := (w_ctx w)\<lparr>c_sigs := (c_sigs (w_ctx w))(s := sig')\<rparr>\<rparr>))"

text \<open>No event of the C interface has a callback of another kind, and every timer is a connect timer.\<close>

definition no_user :: "nat \<Rightarrow> nat \<Rightarrow> world \<Rightarrow> fault + (int \<times> world)" where
  "no_user n a w = Inl Bad_function_call"

definition no_user_timer :: "nat \<Rightarrow> world \<Rightarrow> fault + world" where
  "no_user_timer n w = Inl Bad_function_call"

definition run_pool_task :: "env \<Rightarrow> pool_task \<Rightarrow> world \<Rightarrow> fault + world" where
  "run_pool_task env t w =
     (case t of
        T_handler p \<Rightarrow>
          (case p of
             Tm a \<Rightarrow> run_timer_task no_user_timer env False a w
           | Sg a \<Rightarrow> run_signal_handler a w
           | Io a \<Rightarrow> Inr (run_io_handler a w))
      | T_timer a \<Rightarrow> run_timer_task no_user_timer env True a w
      | T_io a io \<Rightarrow> run_io_task no_user env a io w)"

definition take_task :: "nat \<Rightarrow> world \<Rightarrow> world" where
  "take_task i w =
     w\<lparr>w_ctx := (w_ctx w)\<lparr>c_pool := take i (c_pool (w_ctx w)) @ drop (Suc i) (c_pool (w_ctx w))\<rparr>\<rparr>"

section \<open>Steps\<close>

text \<open>A program start: nothing made, nothing queued, a listener with its timer group.\<close>

definition start_world :: "world \<Rightarrow> bool" where
  "start_world w \<longleftrightarrow> w_io w = 0 \<and> w_tm w = 0 \<and> w_timeout w = Map.empty \<and> c_list (w_ctx w) = [] \<and> c_pool (w_ctx w) = []
     \<and> c_has_tg (w_ctx w)"

inductive sys_step :: "env \<Rightarrow> world \<Rightarrow> world \<Rightarrow> bool" for env :: env where
  opens: "edn_connect_open env info cb w = Inr (r, w') \<Longrightarrow> sys_step env w w'"
| arms: "a < w_io w \<Longrightarrow> edn_connect_arm env a tmo cb n1 n2 w = Inr (fd, w') \<Longrightarrow> sys_step env w w'"
| sends: "edn_send_data env cid buffer len cb w = Inr (r, w') \<Longrightarrow> sys_step env w w'"
| options: "edn_set_opt cid opt w = Inr (r, w') \<Longrightarrow> sys_step env w w'"
| closes: "edn_close env cid w = Inr (r, w') \<Longrightarrow> sys_step env w w'"
| rounds: "dispatch (e_os env) cs rd tmo (w_ctx w) = Inr (ret, tmo', c) \<Longrightarrow> sys_step env w (w\<lparr>w_ctx := c\<rparr>)"
| tasks: "i < length (c_pool (w_ctx w)) \<Longrightarrow> run_pool_task env (c_pool (w_ctx w) ! i) (take_task i w) = Inr w' \<Longrightarrow>
    sys_step env w w'"
| kernel: "sys_step env w (w\<lparr>w_send := s, w_recv := r\<rparr>)"

inductive sys_reachable :: "env \<Rightarrow> world \<Rightarrow> world \<Rightarrow> bool" for env :: env and w0 :: world where
  start: "sys_reachable env w0 w0"
| step: "sys_reachable env w0 w \<Longrightarrow> sys_step env w w' \<Longrightarrow> sys_reachable env w0 w'"

end
