(* ===== verification/Edn_Timer_Properties.thy ===== *)
theory Edn_Timer_Properties
  imports Edn_Timer "HOL-Library.Multiset"
begin

text \<open>
  The priority queue as an interface, the invariant of the timer group, and what \<open>Dispatch\<close> fires:
  exactly the timers that are due, in the order they expire, and never a deleted one.
\<close>

section \<open>Priority queues\<close>

locale prio_queue =
  fixes key :: "'a \<Rightarrow> int"
    and push :: "'a \<Rightarrow> 'q \<Rightarrow> 'q"
    and elems :: "'q \<Rightarrow> 'a list"
  assumes push_elems: "mset (elems (push a q)) = add_mset a (mset (elems q))"
    and push_sorted: "sorted (map key (elems q)) \<Longrightarrow> sorted (map key (elems (push a q)))"
begin

lemma set_push: "set (elems (push a q)) = insert a (set (elems q))"
  using arg_cong [OF push_elems [of a q], of set_mset] by simp

lemma distinct_push: "distinct (elems (push a q)) \<longleftrightarrow> a \<notin> set (elems q) \<and> distinct (elems q)"
  by (metis distinct.simps(2) mset.simps(2) mset_eq_imp_distinct_iff push_elems)

lemma push_all_sorted: "sorted (map key (elems q)) \<Longrightarrow> sorted (map key (elems (foldr push xs q)))"
  by (induction xs) (simp_all add: push_sorted)

lemma head_least:
  "sorted (map key (elems q)) \<Longrightarrow> elems q = a # r \<Longrightarrow> b \<in> set (elems q) \<Longrightarrow> key a \<le> key b"
  by auto

end

lemma pq_push_mset: "mset (pq_push key a q) = add_mset a (mset q)"
  by (induction q) auto

lemma pq_push_set [simp]: "set (pq_push key a q) = insert a (set q)"
  using arg_cong [OF pq_push_mset [of key a q], of set_mset] by simp

lemma pq_push_sorted: "sorted (map key q) \<Longrightarrow> sorted (map key (pq_push key a q))"
  by (induction q) auto

interpretation pq: prio_queue key "pq_push key" "\<lambda>q. q" for key
  by unfold_locales (simp_all add: pq_push_mset pq_push_sorted)

lemma pq_push_filter: "\<not> P a \<Longrightarrow> filter P (pq_push key a q) = filter P q"
  by (induction q) auto

lemma pq_push_cong: "(\<And>b. b \<in> insert a (set q) \<Longrightarrow> key b = key' b) \<Longrightarrow> pq_push key a q = pq_push key' a q"
  by (induction q) auto

section \<open>The invariant of the group\<close>

definition tg_inv :: "timer_group \<Rightarrow> bool" where
  "tg_inv g \<longleftrightarrow> distinct (t_queue g) \<and> sorted (map (expiry g) (t_queue g))
     \<and> (\<forall>a b. ev_uuid (t_objs g a) = ev_uuid (t_objs g b) \<longrightarrow> a = b)
     \<and> (\<forall>a\<in>set (t_queue g). enabled (t_objs g a) \<longrightarrow> t_map g (ev_uuid (t_objs g a)) = Some a)
     \<and> (\<forall>u a. t_map g u = Some a \<longrightarrow> a \<in> set (t_queue g) \<and> enabled (t_objs g a) \<and> ev_uuid (t_objs g a) = u)"

lemma set_timer_sel [simp]:
  "t_objs (set_timer a f g) = (t_objs g)(a := f (t_objs g a))" "t_queue (set_timer a f g) = t_queue g"
  "t_map (set_timer a f g) = t_map g"
  by (simp_all add: set_timer_def)

lemma timer_upd_sel [simp]:
  "ev_uuid (SetEnabled b t) = ev_uuid t" "expire_time (SetEnabled b t) = expire_time t"
  "enabled (SetEnabled b t) = b" "ev_uuid (SetExpireTime e t) = ev_uuid t"
  "expire_time (SetExpireTime e t) = e" "enabled (SetExpireTime e t) = enabled t"
  "timeout (SetExpireTime e t) = timeout t" "ev_events (SetExpireTime e t) = ev_events t"
  "ev_events (SetEnabled b t) = ev_events t" "timeout (SetEnabled b t) = timeout t"
  by (simp_all add: SetEnabled_def SetExpireTime_def)

lemma tg_invI:
  "distinct (t_queue g) \<Longrightarrow> sorted (map (expiry g) (t_queue g)) \<Longrightarrow>
   (\<And>a b. ev_uuid (t_objs g a) = ev_uuid (t_objs g b) \<Longrightarrow> a = b) \<Longrightarrow>
   (\<And>a. a \<in> set (t_queue g) \<Longrightarrow> enabled (t_objs g a) \<Longrightarrow> t_map g (ev_uuid (t_objs g a)) = Some a) \<Longrightarrow>
   (\<And>u a. t_map g u = Some a \<Longrightarrow> a \<in> set (t_queue g) \<and> enabled (t_objs g a) \<and> ev_uuid (t_objs g a) = u) \<Longrightarrow>
   tg_inv g"
  by (simp add: tg_inv_def)

lemma tg_invD:
  assumes "tg_inv g"
  shows "distinct (t_queue g)" "sorted (map (expiry g) (t_queue g))"
    "a \<in> set (t_queue g) \<Longrightarrow> enabled (t_objs g a) \<Longrightarrow> t_map g (ev_uuid (t_objs g a)) = Some a"
  using assms by (simp_all add: tg_inv_def)

lemma tg_inv_uuid: "tg_inv g \<Longrightarrow> ev_uuid (t_objs g a) = ev_uuid (t_objs g b) \<longleftrightarrow> a = b"
  unfolding tg_inv_def by metis

lemma tg_inv_map: "tg_inv g \<Longrightarrow> t_map g u = Some a \<Longrightarrow>
    a \<in> set (t_queue g) \<and> enabled (t_objs g a) \<and> ev_uuid (t_objs g a) = u"
  unfolding tg_inv_def by blast

lemma EdnTimerGroup_inv: "inj (\<lambda>a. ev_uuid (objs a)) \<Longrightarrow> tg_inv (EdnTimerGroup objs)"
  by (simp add: tg_inv_def EdnTimerGroup_def inj_def)

lemma AddTimer_inv:
  assumes "tg_inv g" "a \<notin> set (t_queue g)" "enabled (t_objs g a)"
  shows "tg_inv (snd (AddTimer a g))"
  using assms pq.distinct_push [of _ a "t_queue g"] pq_push_sorted [of "expiry g" "t_queue g" a]
  by (simp add: AddTimer_def tg_inv_def)

lemma DelTimer_front:
  assumes "tg_inv g" "t_queue g = a # q"
  shows "tg_inv (g\<lparr>t_queue := q, t_map := (t_map g)(ev_uuid (t_objs g a) := None)\<rparr>)"
proof (rule tg_invI)
  note inv = tg_invD [OF assms(1), unfolded assms(2)]
  let ?g = "g\<lparr>t_queue := q, t_map := (t_map g)(ev_uuid (t_objs g a) := None)\<rparr>"
  show "distinct (t_queue ?g)" "sorted (map (expiry ?g) (t_queue ?g))" using inv(1,2) by simp_all
  show "x = y" if "ev_uuid (t_objs ?g x) = ev_uuid (t_objs ?g y)" for x y
    using that tg_inv_uuid [OF assms(1)] by simp
  show "t_map ?g (ev_uuid (t_objs ?g x)) = Some x" if "x \<in> set (t_queue ?g)" "enabled (t_objs ?g x)" for x
    using that inv(1) inv(3) [of x] tg_inv_uuid [OF assms(1), of x a] by auto
  show "x \<in> set (t_queue ?g) \<and> enabled (t_objs ?g x) \<and> ev_uuid (t_objs ?g x) = u" if "t_map ?g u = Some x" for u x
    using that tg_inv_map [OF assms(1), of u x] assms(2) by (auto split: if_splits)
qed

lemma DelTimer_inner:
  assumes "tg_inv g"
  shows "tg_inv ((set_timer a (SetEnabled False) g)\<lparr>t_map := (t_map g)(ev_uuid (t_objs g a) := None)\<rparr>)"
    (is "tg_inv ?g")
proof (rule tg_invI)
  have o: "expiry ?g x = expiry g x" "ev_uuid (t_objs ?g x) = ev_uuid (t_objs g x)"
    "enabled (t_objs ?g x) = (enabled (t_objs g x) \<and> x \<noteq> a)" for x by simp_all
  show "distinct (t_queue ?g)" using tg_invD(1) [OF assms] by simp
  have "map (expiry ?g) (t_queue ?g) = map (expiry g) (t_queue g)" by simp
  with tg_invD(2) [OF assms] show "sorted (map (expiry ?g) (t_queue ?g))" by (simp only:)
  show "x = y" if "ev_uuid (t_objs ?g x) = ev_uuid (t_objs ?g y)" for x y
    using that unfolding o tg_inv_uuid [OF assms] .
  show "t_map ?g (ev_uuid (t_objs ?g x)) = Some x" if "x \<in> set (t_queue ?g)" "enabled (t_objs ?g x)" for x
    using that tg_invD(3) [OF assms, of x] tg_inv_uuid [OF assms, of x a] unfolding o by simp
  show "x \<in> set (t_queue ?g) \<and> enabled (t_objs ?g x) \<and> ev_uuid (t_objs ?g x) = u" if "t_map ?g u = Some x" for u x
    using that tg_inv_map [OF assms, of u x] unfolding o by (auto split: if_splits)
qed

lemma DelTimer_inv:
  assumes "tg_inv g"
  shows "\<exists>code g'. DelTimer a g = Inr (code, g') \<and> tg_inv g'
     \<and> (a \<notin> set (t_queue g') \<or> \<not> enabled (t_objs g' a))
     \<and> code = (if t_map g (ev_uuid (t_objs g a)) = None then EDN_ERR_PARAMS_INVALID else EDN_OK)"
proof (cases "t_map g (ev_uuid (t_objs g a))")
  case None
  moreover have "a \<notin> set (t_queue g) \<or> \<not> enabled (t_objs g a)" using tg_invD(3) [OF assms, of a] None by auto
  ultimately show ?thesis using assms by (simp add: DelTimer_def)
next
  case (Some b)
  note m = tg_inv_map [OF assms Some]
  have b: "b = a" using m tg_inv_uuid [OF assms, of b a] by simp
  have a: "a \<in> set (t_queue g)" using m b by simp
  then obtain front q where q: "t_queue g = front # q" by (cases "t_queue g") auto
  show ?thesis
  proof (cases "a = front")
    case True
    have "a \<notin> set q" using tg_invD(1) [OF assms] q True by simp
    with True Some b q DelTimer_front [OF assms q] show ?thesis by (simp add: DelTimer_def)
  next
    case False
    with Some b q DelTimer_inner [OF assms, of a] show ?thesis by (simp add: DelTimer_def)
  qed
qed

section \<open>The dispatch loop\<close>

text \<open>One iteration, by what is at the front of the queue.\<close>

definition fire :: "int \<Rightarrow> nat \<Rightarrow> nat list \<Rightarrow> timer_group \<Rightarrow> timer_group" where
  "fire now a q g =
     (let g2 = (set_timer a (\<lambda>t. t\<lparr>ev_status := ACTIVE\<rparr>) g)\<lparr>t_queue := q\<rparr> in
      if IsPersist (t_objs g a) then
        let g3 = set_timer a (\<lambda>t. SetExpireTime (wrap32 (now + timeout t)) t) g2
        in g3\<lparr>t_queue := pq_push (expiry g3) a (t_queue g3)\<rparr>
      else g2\<lparr>t_map := (t_map g2)(ev_uuid (t_objs g2 a) := None)\<rparr>)"

lemma dispatch_step:
  "t_queue g = [] \<Longrightarrow> dispatch_loop clock g fired = Inr (clock, g, fired)"
  "t_queue g = a # q \<Longrightarrow> \<not> enabled (t_objs g a) \<Longrightarrow>
     dispatch_loop clock g fired = dispatch_loop clock (g\<lparr>t_queue := q\<rparr>) fired"
  "t_queue g = a # q \<Longrightarrow> enabled (t_objs g a) \<Longrightarrow> dispatch_loop [] g fired = Inl Script_end"
  "t_queue g = a # q \<Longrightarrow> enabled (t_objs g a) \<Longrightarrow> now < expiry g a \<Longrightarrow>
     dispatch_loop (now # clock) g fired = Inr (clock, g, fired)"
  "t_queue g = a # q \<Longrightarrow> enabled (t_objs g a) \<Longrightarrow> expiry g a \<le> now \<Longrightarrow>
     dispatch_loop (now # clock) g fired = dispatch_loop clock (fire now a q g) (fired @ [a])"
  by (subst dispatch_loop.simps; simp add: fire_def Let_def IsPersist_def)+

lemma fire_sel:
  assumes "distinct (a # q)"
  shows "set (t_queue (fire now a q g)) = (if IsPersist (t_objs g a) then insert a (set q) else set q)"
    "x \<noteq> a \<Longrightarrow> t_objs (fire now a q g) x = t_objs g x"
    "IsPersist (t_objs g a) \<Longrightarrow> expiry (fire now a q g) a = wrap32 (now + timeout (t_objs g a))"
    "ev_events (t_objs (fire now a q g) x) = ev_events (t_objs g x)"
    "timeout (t_objs (fire now a q g) x) = timeout (t_objs g x)"
    "ev_uuid (t_objs (fire now a q g) x) = ev_uuid (t_objs g x)"
    "enabled (t_objs (fire now a q g) x) = enabled (t_objs g x)"
  by (simp_all add: fire_def Let_def)

lemma fire_others: "distinct (a # q) \<Longrightarrow> x \<in> set q \<Longrightarrow> t_objs (fire now a q g) x = t_objs g x"
  by (rule fire_sel(2)) auto

lemma fire_queue:
  "IsPersist (t_objs g a) \<Longrightarrow> t_queue (fire now a q g) = pq_push (expiry (fire now a q g)) a q"
  by (simp add: fire_def Let_def cong: if_cong)

lemma IsPersist_fire: "distinct (a # q) \<Longrightarrow> IsPersist (t_objs (fire now a q g) x) = IsPersist (t_objs g x)"
  by (simp add: IsPersist_def fire_sel)

lemma dispatch_induct [case_names empty drop no_clock later due]:
  assumes empty: "\<And>clock g fired. t_queue g = [] \<Longrightarrow> P clock g fired"
    and drop: "\<And>clock g fired a q. t_queue g = a # q \<Longrightarrow> \<not> enabled (t_objs g a) \<Longrightarrow>
      P clock (g\<lparr>t_queue := q\<rparr>) fired \<Longrightarrow> P clock g fired"
    and no_clock: "\<And>g fired a q. t_queue g = a # q \<Longrightarrow> enabled (t_objs g a) \<Longrightarrow> P [] g fired"
    and later: "\<And>now clock g fired a q. t_queue g = a # q \<Longrightarrow> enabled (t_objs g a) \<Longrightarrow> now < expiry g a \<Longrightarrow>
      P (now # clock) g fired"
    and due: "\<And>now clock g fired a q. t_queue g = a # q \<Longrightarrow> enabled (t_objs g a) \<Longrightarrow> expiry g a \<le> now \<Longrightarrow>
      P clock (fire now a q g) (fired @ [a]) \<Longrightarrow> P (now # clock) g fired"
  shows "P clock g fired"
proof (induction "(length clock, length (t_queue g))" arbitrary: clock g fired
    rule: wf_induct_rule [OF wf_lex_prod [OF wf_less_than wf_less_than]])
  case (1 clock g fired)
  show ?case
  proof (cases "t_queue g")
    case Nil
    then show ?thesis by (rule empty)
  next
    case (Cons a q)
    show ?thesis
    proof (cases "enabled (t_objs g a)")
      case False
      show ?thesis by (rule drop [OF Cons False], rule "1.hyps") (simp_all add: Cons)
    next
      case en: True
      show ?thesis
      proof (cases clock)
        case Nil
        with no_clock [OF Cons en] show ?thesis by simp
      next
        case clk: (Cons now clock1)
        show ?thesis
        proof (cases "expiry g a \<le> now")
          case True
          show ?thesis unfolding clk by (rule due [OF Cons en True], rule "1.hyps") (simp_all add: clk)
        next
          case False
          with later [OF Cons en] clk show ?thesis by simp
        qed
      qed
    qed
  qed
qed

text \<open>A timer that is out of the queue or disabled is never fired.\<close>

lemma fire_distinct: "distinct (a # q) \<Longrightarrow> distinct (t_queue (fire now a q g))"
  by (auto simp: fire_def Let_def pq.distinct_push)

lemma dispatch_never_fires:
  assumes "a \<notin> set (t_queue g) \<or> \<not> enabled (t_objs g a)" "dispatch_loop clock g fired = Inr (clock', g', fired')"
    "a \<notin> set fired" "distinct (t_queue g)"
  shows "a \<notin> set fired'"
  using assms
proof (induction clock g fired rule: dispatch_induct)
  case (drop clock g fired x q)
  show ?case
    by (rule drop.IH) (use drop.prems drop.hyps in \<open>auto simp: dispatch_step(2) [OF drop.hyps]\<close>)
next
  case (due now clock g fired x q)
  have d: "distinct (x # q)" and ax: "a \<noteq> x" using due.prems due.hyps by auto
  show ?case
    by (rule due.IH)
      (use due.prems due.hyps ax fire_sel [OF d] fire_distinct [OF d] in
        \<open>auto simp: dispatch_step(5) [OF due.hyps] split: if_splits\<close>)
qed (simp_all add: dispatch_step)

text \<open>A timer that is out of the queue stays out, and one that fires without being periodic goes out.\<close>

lemma dispatch_stays_out:
  assumes "a \<notin> set (t_queue g)" "dispatch_loop clock g fired = Inr (clock', g', fired')" "distinct (t_queue g)"
  shows "a \<notin> set (t_queue g')"
  using assms
proof (induction clock g fired rule: dispatch_induct)
  case (drop clock g fired x q)
  show ?case
    by (rule drop.IH) (use drop.prems drop.hyps in \<open>auto simp: dispatch_step(2) [OF drop.hyps]\<close>)
next
  case (due now clock g fired x q)
  have d: "distinct (x # q)" and ax: "a \<noteq> x" using due.prems due.hyps by auto
  show ?case
    by (rule due.IH)
      (use due.prems due.hyps ax fire_sel [OF d] fire_distinct [OF d] in
        \<open>auto simp: dispatch_step(5) [OF due.hyps] split: if_splits\<close>)
qed (auto simp: dispatch_step)

lemma dispatch_fired_gone:
  assumes "dispatch_loop clock g fired = Inr (clock', g', fired')" "a \<in> set fired'" "a \<notin> set fired"
    "\<not> IsPersist (t_objs g a)" "distinct (t_queue g)"
  shows "a \<notin> set (t_queue g')"
  using assms
proof (induction clock g fired rule: dispatch_induct)
  case (drop clock g fired x q)
  show ?case
    by (rule drop.IH) (use drop.prems drop.hyps in \<open>auto simp: dispatch_step(2) [OF drop.hyps]\<close>)
next
  case (due now clock g fired x q)
  have d: "distinct (x # q)" using due.prems(5) due.hyps(1) by simp
  have s: "dispatch_loop clock (fire now x q g) (fired @ [x]) = Inr (clock', g', fired')"
    using due.prems(1) by (simp add: dispatch_step(5) [OF due.hyps])
  show ?case
  proof (cases "x = a")
    case True
    then have "a \<notin> set (t_queue (fire now x q g))" using due.prems(4) d fire_sel(1) [OF d, of now g] by simp
    then show ?thesis by (rule dispatch_stays_out [OF _ s fire_distinct [OF d]])
  next
    case False
    then show ?thesis
      by (intro due.IH [OF s due.prems(2)]) (use due.prems(3,4) d fire_distinct [OF d] in \<open>auto simp: IsPersist_fire\<close>)
  qed
qed (auto simp: dispatch_step)

lemma fire_const:
  "timer_cb (t_objs (fire now a q g) x) = timer_cb (t_objs g x)" "ev_uuid (t_objs (fire now a q g) x) = ev_uuid (t_objs g x)"
  by (simp_all add: fire_def Let_def SetExpireTime_def)

lemma dispatch_const:
  assumes "dispatch_loop clock g fired = Inr (clock', g', fired')"
  shows "timer_cb (t_objs g' x) = timer_cb (t_objs g x)" "ev_uuid (t_objs g' x) = ev_uuid (t_objs g x)"
proof -
  have "timer_cb (t_objs g' x) = timer_cb (t_objs g x) \<and> ev_uuid (t_objs g' x) = ev_uuid (t_objs g x)"
    using assms
    by (induction clock g fired rule: dispatch_induct) (auto simp: dispatch_step fire_const)
  then show "timer_cb (t_objs g' x) = timer_cb (t_objs g x)" "ev_uuid (t_objs g' x) = ev_uuid (t_objs g x)" by simp_all
qed

section \<open>What a dispatch keeps\<close>

lemma drop_inv:
  assumes "tg_inv g" "t_queue g = a # q" "\<not> enabled (t_objs g a)"
  shows "tg_inv (g\<lparr>t_queue := q\<rparr>)"
proof (rule tg_invI)
  note inv = tg_invD [OF assms(1), unfolded assms(2)]
  show "distinct (t_queue (g\<lparr>t_queue := q\<rparr>))" "sorted (map (expiry (g\<lparr>t_queue := q\<rparr>)) (t_queue (g\<lparr>t_queue := q\<rparr>)))"
    using inv(1,2) by simp_all
  show "x = y" if "ev_uuid (t_objs (g\<lparr>t_queue := q\<rparr>) x) = ev_uuid (t_objs (g\<lparr>t_queue := q\<rparr>) y)" for x y
    using that tg_inv_uuid [OF assms(1)] by simp
  show "t_map (g\<lparr>t_queue := q\<rparr>) (ev_uuid (t_objs (g\<lparr>t_queue := q\<rparr>) x)) = Some x"
    if "x \<in> set (t_queue (g\<lparr>t_queue := q\<rparr>))" "enabled (t_objs (g\<lparr>t_queue := q\<rparr>) x)" for x
    using that inv(3) [of x] by simp
  show "x \<in> set (t_queue (g\<lparr>t_queue := q\<rparr>)) \<and> enabled (t_objs (g\<lparr>t_queue := q\<rparr>) x)
      \<and> ev_uuid (t_objs (g\<lparr>t_queue := q\<rparr>) x) = u"
    if "t_map (g\<lparr>t_queue := q\<rparr>) u = Some x" for u x
    using that tg_inv_map [OF assms(1), of u x] assms(2,3) by auto
qed

lemma fire_inv:
  assumes "tg_inv g" "t_queue g = a # q" "enabled (t_objs g a)"
  shows "tg_inv (fire now a q g)"
proof (rule tg_invI)
  let ?g = "fire now a q g"
  note inv = tg_invD [OF assms(1), unfolded assms(2)]
  note sel = fire_sel [OF inv(1)]
  show "distinct (t_queue ?g)" by (rule fire_distinct [OF inv(1)])
  show "sorted (map (expiry ?g) (t_queue ?g))"
  proof (cases "IsPersist (t_objs g a)")
    case True
    let ?k = "expiry ?g"
    have "map ?k q = map (expiry g) q" using inv(1) by (simp add: fire_others)
    moreover have "sorted (map (expiry g) q)" using inv(2) by simp
    ultimately have "sorted (map ?k q)" by (simp only:)
    from pq_push_sorted [OF this] have "sorted (map ?k (pq_push ?k a q))" .
    moreover have "t_queue ?g = pq_push ?k a q" using True by (rule fire_queue)
    ultimately show ?thesis by simp
  next
    case False
    have "map (expiry ?g) q = map (expiry g) q" using inv(1) by (simp add: fire_others)
    moreover have "sorted (map (expiry g) q)" using inv(2) by simp
    moreover have "t_queue ?g = q" using False by (simp add: fire_def Let_def)
    ultimately show ?thesis by (simp only:)
  qed
  show "x = y" if "ev_uuid (t_objs ?g x) = ev_uuid (t_objs ?g y)" for x y
    using that tg_inv_uuid [OF assms(1)] by (simp add: sel)
  have m: "t_map ?g = (if IsPersist (t_objs g a) then t_map g else (t_map g)(ev_uuid (t_objs g a) := None))"
    by (simp add: fire_def Let_def)
  show "t_map ?g (ev_uuid (t_objs ?g x)) = Some x" if "x \<in> set (t_queue ?g)" "enabled (t_objs ?g x)" for x
    using that inv(1) inv(3) [of x] tg_inv_uuid [OF assms(1), of x a] unfolding sel m by (auto split: if_splits)
  show "x \<in> set (t_queue ?g) \<and> enabled (t_objs ?g x) \<and> ev_uuid (t_objs ?g x) = u" if "t_map ?g u = Some x" for u x
    using that tg_inv_map [OF assms(1), of u x] assms(2) unfolding sel m by (auto split: if_splits)
qed

text \<open>The timers due at an instant, in queue order, and those that stay armed after they fire.\<close>

definition due :: "int \<Rightarrow> timer_group \<Rightarrow> nat list" where
  "due now g = filter (\<lambda>a. enabled (t_objs g a) \<and> expiry g a \<le> now) (t_queue g)"

definition armed :: "timer_group \<Rightarrow> nat set" where
  "armed g = {a \<in> set (t_queue g). enabled (t_objs g a)}"

definition periodic_ok :: "int \<Rightarrow> timer_group \<Rightarrow> bool" where
  "periodic_ok now g \<longleftrightarrow> (\<forall>a\<in>armed g. IsPersist (t_objs g a) \<longrightarrow> now < wrap32 (now + timeout (t_objs g a)))"

lemma due_drop: "t_queue g = a # q \<Longrightarrow> \<not> enabled (t_objs g a) \<Longrightarrow> due now (g\<lparr>t_queue := q\<rparr>) = due now g"
  and armed_drop: "t_queue g = a # q \<Longrightarrow> \<not> enabled (t_objs g a) \<Longrightarrow> armed (g\<lparr>t_queue := q\<rparr>) = armed g"
  by (auto simp: due_def armed_def)

lemma due_later:
  assumes "tg_inv g" "t_queue g = a # q" "now < expiry g a"
  shows "due now g = []" "\<forall>x\<in>armed g. now < expiry g x"
proof -
  have "\<forall>x\<in>set (t_queue g). now < expiry g x" using tg_invD(2) [OF assms(1)] assms(2,3) by auto
  then show "due now g = []" "\<forall>x\<in>armed g. now < expiry g x"
    by (fastforce simp: due_def armed_def filter_empty_conv)+
qed

lemma due_fire:
  assumes "tg_inv g" "t_queue g = a # q" "enabled (t_objs g a)" "expiry g a \<le> now" "periodic_ok now g"
  shows "due now g = a # due now (fire now a q g)"
    "armed (fire now a q g) = (if IsPersist (t_objs g a) then armed g else armed g - {a})"
    "periodic_ok now (fire now a q g)"
proof -
  let ?g = "fire now a q g"
  have d: "distinct (a # q)" using tg_invD(1) [OF assms(1)] assms(2) by simp
  note sel = fire_sel [OF d]
  have per: "now < wrap32 (now + timeout (t_objs g a))" if "IsPersist (t_objs g a)"
    using that assms(2,3,5) by (simp add: periodic_ok_def armed_def)
  have same: "filter (\<lambda>x. enabled (t_objs ?g x) \<and> expiry ?g x \<le> now) q
      = filter (\<lambda>x. enabled (t_objs g x) \<and> expiry g x \<le> now) q"
    using d by (intro filter_cong) (simp_all add: fire_others)
  show "due now g = a # due now ?g"
  proof (cases "IsPersist (t_objs g a)")
    case True
    have "t_queue ?g = pq_push (expiry ?g) a q" using True by (rule fire_queue)
    moreover have "\<not> (enabled (t_objs ?g a) \<and> expiry ?g a \<le> now)" using per True by (simp add: sel(3))
    ultimately have "due now ?g = filter (\<lambda>x. enabled (t_objs ?g x) \<and> expiry ?g x \<le> now) q"
      unfolding due_def by (metis (mono_tags, lifting) pq_push_filter)
    with same assms(2-4) show ?thesis by (simp add: due_def)
  next
    case False
    then have "t_queue ?g = q" by (simp add: fire_def Let_def)
    with same assms(2-4) show ?thesis by (simp add: due_def)
  qed
  show ar: "armed ?g = (if IsPersist (t_objs g a) then armed g else armed g - {a})"
    using d assms(2,3) unfolding armed_def sel by auto
  show "periodic_ok now ?g"
    using assms(5) unfolding periodic_ok_def ar IsPersist_fire [OF d] sel by (auto split: if_splits)
qed

lemma dispatch_constant:
  assumes "tg_inv g" "periodic_ok now g" "set clock \<subseteq> {now}" "length (due now g) < length clock"
  shows "\<exists>clock' g'. dispatch_loop clock g fired = Inr (clock', g', fired @ due now g)
    \<and> length clock \<le> length clock' + length (due now g) + 1 \<and> set clock' \<subseteq> {now}
    \<and> tg_inv g' \<and> due now g' = []
    \<and> armed g' = {a \<in> armed g. expiry g a \<le> now \<longrightarrow> IsPersist (t_objs g a)}"
  using assms
proof (induction clock g fired rule: dispatch_induct)
  case (empty clock g fired)
  then show ?case by (auto simp: dispatch_step due_def armed_def)
next
  case (drop clock g fired a q)
  have p: "periodic_ok now (g\<lparr>t_queue := q\<rparr>)"
    using drop.prems(2) by (simp add: periodic_ok_def armed_drop [OF drop.hyps])
  from drop.IH [OF drop_inv [OF drop.prems(1) drop.hyps] p drop.prems(3)] drop.prems(4)
  show ?case by (simp add: due_drop [OF drop.hyps] armed_drop [OF drop.hyps] dispatch_step(2) [OF drop.hyps])
next
  case (no_clock g fired a q)
  then show ?case by simp
next
  case (later now' clock g fired a q)
  then have "now' = now" by simp
  with later.hyps(3) have l: "now < expiry g a" by simp
  note dl = due_later [OF later.prems(1) later.hyps(1) l]
  have "armed g = {x \<in> armed g. expiry g x \<le> now \<longrightarrow> IsPersist (t_objs g x)}" using dl(2) by force
  with later.prems dl(1) show ?case
    unfolding \<open>now' = now\<close> dispatch_step(4) [OF later.hyps(1,2) l] by simp
next
  case (due now' clock g fired a q)
  then have n: "now' = now" by simp
  with due.hyps(3) have l: "expiry g a \<le> now" by simp
  note df = due_fire [OF due.prems(1) due.hyps(1,2) l due.prems(2)]
  have d: "distinct (a # q)" using tg_invD(1) [OF due.prems(1)] due.hyps(1) by simp
  note sel = fire_sel [OF d]
  have "length (due now (fire now a q g)) < length clock" using due.prems(4) df(1) by simp
  with due.IH [unfolded n, OF fire_inv [OF due.prems(1) due.hyps(1,2)] df(3)] due.prems(3)
  obtain clock' g' where *: "dispatch_loop clock (fire now a q g) (fired @ [a])
      = Inr (clock', g', (fired @ [a]) @ due now (fire now a q g))"
    "length clock \<le> length clock' + length (due now (fire now a q g)) + 1" "set clock' \<subseteq> {now}" "tg_inv g'"
    "due now g' = []"
    "armed g' = {x \<in> armed (fire now a q g). expiry (fire now a q g) x \<le> now \<longrightarrow> IsPersist (t_objs (fire now a q g) x)}"
    by auto
  have "armed g' = {x \<in> armed g. expiry g x \<le> now \<longrightarrow> IsPersist (t_objs g x)}"
  proof -
    have a: "a \<in> armed g" using due.hyps(1,2) by (simp add: armed_def)
    have "x \<in> armed g' \<longleftrightarrow> x \<in> armed g \<and> (expiry g x \<le> now \<longrightarrow> IsPersist (t_objs g x))" for x
      using a l by (cases "x = a") (auto simp: *(6) df(2) sel(2) IsPersist_fire [OF d])
    then show ?thesis by blast
  qed
  with * show ?case
    unfolding n dispatch_step(5) [OF due.hyps(1,2) l] df(1) by simp
qed

lemma dispatch_inv: "tg_inv g \<Longrightarrow> dispatch_loop clock g fired = Inr (clock', g', fired') \<Longrightarrow> tg_inv g'"
proof (induction clock g fired rule: dispatch_induct)
  case (drop clock g fired a q)
  then show ?case using drop_inv [OF drop.prems(1) drop.hyps] by (simp add: dispatch_step(2) [OF drop.hyps])
next
  case (due now clock g fired a q)
  then show ?case using fire_inv [OF due.prems(1) due.hyps(1,2)] by (simp add: dispatch_step(5) [OF due.hyps])
qed (simp_all add: dispatch_step)

lemma timer_dispatch_Inr:
  "timer_dispatch clock g = Inr (t, clock', g', fired) \<Longrightarrow> \<exists>clock1. dispatch_loop clock g [] = Inr (clock1, g', fired)"
  by (auto simp: timer_dispatch_def split: sum.splits prod.splits)

text \<open>The groups that arise from an empty one; a timer is added when it is new and not disabled.\<close>

inductive tg_reachable :: "timer_group \<Rightarrow> timer_group \<Rightarrow> bool" for g0 :: timer_group where
  start: "tg_reachable g0 g0"
| added: "tg_reachable g0 g \<Longrightarrow> a \<notin> set (t_queue g) \<Longrightarrow> enabled (t_objs g a) \<Longrightarrow>
    tg_reachable g0 (snd (AddTimer a g))"
| deleted: "tg_reachable g0 g \<Longrightarrow> DelTimer a g = Inr (code, g') \<Longrightarrow> tg_reachable g0 g'"
| dispatched: "tg_reachable g0 g \<Longrightarrow> timer_dispatch clock g = Inr (t, clock', g', fired) \<Longrightarrow> tg_reachable g0 g'"

lemma reachable_inv: "tg_reachable g0 g \<Longrightarrow> tg_inv g0 \<Longrightarrow> tg_inv g"
proof (induction rule: tg_reachable.induct)
  case (deleted g a code g')
  then show ?case using DelTimer_inv [of g a] by auto
next
  case (dispatched g clock t clock' g' fired)
  then show ?case using dispatch_inv timer_dispatch_Inr by blast
qed (simp_all add: AddTimer_inv)

section \<open>Properties\<close>

definition sample_store :: "nat \<Rightarrow> edn_timer" where
  "sample_store a = EdnTimer (int a) 1000 (10 * int a) (a = 2) (Some a)"

definition sample_group :: timer_group where
  "sample_group = snd (AddTimer 3 (snd (AddTimer 1 (snd (AddTimer 2 (EdnTimerGroup sample_store))))))"

lemma sample_group_eq:
  "sample_group = \<lparr>t_objs = sample_store, t_queue = [1, 2, 3], t_map = [2 \<mapsto> 2, 1 \<mapsto> 1, 3 \<mapsto> 3]\<rparr>"
  by (simp add: sample_group_def AddTimer_def EdnTimerGroup_def sample_store_def EdnTimer_def)

lemma sample_reachable: "tg_reachable (EdnTimerGroup sample_store) sample_group"
  unfolding sample_group_def
  by (intro tg_reachable.added tg_reachable.start)
    (simp_all add: AddTimer_def EdnTimerGroup_def sample_store_def EdnTimer_def)

lemma sample_start_inv: "tg_inv (EdnTimerGroup sample_store)"
  by (rule EdnTimerGroup_inv) (simp add: inj_def sample_store_def EdnTimer_def)

lemma sample_group_inv: "tg_inv sample_group"
  by (rule reachable_inv [OF sample_reachable sample_start_inv])



text \<open>C21: In every group reached from an empty one by additions, deletions and dispatches at any clock,
  the map holds exactly the enabled timers of the queue, so deleting a timer never looks at the top of an
  empty queue: it returns \<open>EDN_OK\<close> for an armed timer, an error otherwise.\<close>

theorem timer_group_sound:
  assumes "inj (\<lambda>a. ev_uuid (objs a))" "tg_reachable (EdnTimerGroup objs) g"
  shows "(\<forall>u a. t_map g u = Some a \<longleftrightarrow> a \<in> armed g \<and> ev_uuid (t_objs g a) = u)
    \<and> (\<exists>g'. DelTimer a g = Inr (if a \<in> armed g then EDN_OK else EDN_ERR_PARAMS_INVALID, g'))"
proof -
  have inv: "tg_inv g" using reachable_inv [OF assms(2)] EdnTimerGroup_inv [OF assms(1)] by blast
  have m: "t_map g u = Some a \<longleftrightarrow> a \<in> armed g \<and> ev_uuid (t_objs g a) = u" for u a
    using tg_inv_map [OF inv, of u a] tg_invD(3) [OF inv, of a] by (auto simp: armed_def)
  then have "t_map g (ev_uuid (t_objs g a)) = None \<longleftrightarrow> a \<notin> armed g"
    using tg_inv_uuid [OF inv] by (metis not_None_eq)
  with m DelTimer_inv [OF inv, of a] show ?thesis by auto
qed

theorem timer_group_sound_witness:
  "\<exists>g'. DelTimer 2 sample_group = Inr (EDN_OK, g')"
proof -
  have "inj (\<lambda>a. ev_uuid (sample_store a))" by (simp add: inj_def sample_store_def EdnTimer_def)
  moreover have "2 \<in> armed sample_group"
    by (simp add: armed_def sample_group_eq sample_store_def EdnTimer_def)
  ultimately show ?thesis using timer_group_sound [OF _ sample_reachable, of 2] by simp
qed

text \<open>C9: A timer that was deleted never fires again, at whatever times the group is dispatched.\<close>

theorem timer_deleted_never_fires:
  assumes "tg_inv g" "DelTimer a g = Inr (code, g')" "timer_dispatch clock g' = Inr (t, clock', g'', fired)"
  shows "a \<notin> set fired"
proof -
  have "tg_inv g'" "a \<notin> set (t_queue g') \<or> \<not> enabled (t_objs g' a)"
    using DelTimer_inv [OF assms(1), of a] assms(2) by auto
  with dispatch_never_fires [OF this(2)] timer_dispatch_Inr [OF assms(3)] tg_invD(1) show ?thesis by auto
qed

theorem timer_deleted_never_fires_witness:
  "\<exists>g' t clock' g'' fired. DelTimer 2 sample_group = Inr (EDN_OK, g')
    \<and> timer_dispatch [1050, 1050, 1050] g' = Inr (t, clock', g'', fired) \<and> 2 \<notin> set fired"
proof -
  obtain g' where g': "DelTimer 2 sample_group = Inr (EDN_OK, g')"
    and d: "t_queue g' = [1, 2, 3]" "t_objs g' = sample_store(2 := SetEnabled False (sample_store 2))"
    by (simp add: DelTimer_def Let_def sample_group_eq sample_store_def EdnTimer_def)
  have "\<exists>t clock' g'' fired. timer_dispatch [1050, 1050, 1050] g' = Inr (t, clock', g'', fired)"
    by (simp add: timer_dispatch_def dispatch_loop.simps d Let_def sample_store_def EdnTimer_def min_timeout_def
        IsPersist_def has_def)
  with timer_deleted_never_fires [OF sample_group_inv g'] g' show ?thesis by blast
qed

text \<open>A periodic timer whose interval is not positive keeps \<open>Dispatch\<close> in its loop, with the group's
  mutex held: while the clock stands still no number of iterations ends it.\<close>

theorem dispatch_periodic_diverges:
  assumes "t_queue g = [a]" "enabled (t_objs g a)" "IsPersist (t_objs g a)" "expiry g a \<le> now"
    "wrap32 (now + timeout (t_objs g a)) \<le> now"
  shows "timer_dispatch (replicate n now) g = Inl Script_end"
proof -
  have "dispatch_loop (replicate n now) g fired = Inl Script_end" for fired
    using assms
  proof (induction n arbitrary: g fired)
    case 0
    then show ?case by (simp add: dispatch_step)
  next
    case (Suc n)
    have d: "distinct [a]" by simp
    note sel = fire_sel [OF d]
    have "t_queue (fire now a [] g) = [a]" using fire_queue [OF Suc.prems(3)] by simp
    with Suc.IH [of "fire now a [] g"] Suc.prems show ?case
      by (simp add: dispatch_step(5) [OF Suc.prems(1,2,4)] sel IsPersist_fire [OF d])
  qed
  then show ?thesis by (simp add: timer_dispatch_def)
qed

theorem dispatch_periodic_diverges_witness:
  "timer_dispatch (replicate 50 1000) (snd (AddTimer 0 (EdnTimerGroup (\<lambda>a. EdnTimer (int a) 1000 0 True (Some 1)))))
    = Inl Script_end"
  by (rule dispatch_periodic_diverges [where a = 0])
    (simp_all add: AddTimer_def EdnTimerGroup_def EdnTimer_def IsPersist_def has_def)

text \<open>C39: The 32-bit millisecond clock. A timer whose deadline lies before the next wrap of the clock is due
  exactly from its deadline on; one whose deadline lies behind the wrap is due the moment it is made.\<close>

theorem timer_clock_wrap:
  assumes "0 \<le> clock_at ms" "0 < t" "t < 2147483648"
  shows "if clock_at ms + t < 2147483648
    then \<forall>d. 0 \<le> d \<and> clock_at ms + d < 2147483648 \<longrightarrow>
      (expire_time (EdnTimer u (clock_at ms) t p cb) \<le> clock_at (ms + d)) = (t \<le> d)
    else expire_time (EdnTimer u (clock_at ms) t p cb) \<le> clock_at ms"
proof (cases "clock_at ms + t < 2147483648")
  case True
  have "clock_at (ms + d) = clock_at ms + d" if "0 \<le> d" "clock_at ms + d < 2147483648" for d
    using that assms(1) wrap32_add_mod [of ms d] by (simp add: clock_at_eq)
  with True assms show ?thesis by (simp add: EdnTimer_def)
next
  case False
  have "wrap32 (clock_at ms + t) = clock_at ms + t - 4294967296"
  proof -
    have "clock_at ms < 2147483648" using wrap32_bounds [of ms] by (simp add: clock_at_eq)
    then have "wrap32 (clock_at ms + t - 4294967296) = clock_at ms + t - 4294967296"
      using False assms by (intro wrap32_id) auto
    moreover have "wrap32 (clock_at ms + t) = wrap32 (clock_at ms + t - 4294967296)"
      by (rule wrap32_cong) (simp add: mod_diff_right_eq [symmetric])
    ultimately show ?thesis by simp
  qed
  with False assms(3) show ?thesis by (simp add: EdnTimer_def)
qed

theorem timer_clock_wrap_witness:
  "expire_time (EdnTimer 1 (clock_at 2147483000) 5000 False None) \<le> clock_at 2147483000"
  using timer_clock_wrap [of 2147483000 5000 1 False None] by (simp add: clock_at_eq)

end
