(* ===== verification/Edn_Event_Properties.thy ===== *)
theory Edn_Event_Properties
  imports Edn_Event
begin

text \<open>
  Properties of the masks and of the status machine of \<open>ConvertEvents\<close>, and the handler's
  behaviour alone and beside the event loop.
\<close>

unbundle bit_operations_syntax

section \<open>Bits of the masks\<close>

lemma has_exp: "has x (2 ^ n) = bit x n"
  by (simp add: has_def bit_iff_and_push_bit_not_eq_0 push_bit_eq_mult)

lemma has_bits:
  "has x 0x1 = bit x 0" "has x 0x2 = bit x 1" "has x 0x4 = bit x 2" "has x 0x8 = bit x 3"
  "has x 0x10 = bit x 4" "has x 0x20 = bit x 5" "has x 0x40 = bit x 6" "has x 0x80 = bit x 7"
  "has x 0x100 = bit x 8" "has x 0x2000 = bit x 13" "has x 0x40000000 = bit x 30" "has x 0x80000000 = bit x 31"
  using has_exp [of x 0] has_exp [of x 1] has_exp [of x 2] has_exp [of x 3] has_exp [of x 4] has_exp [of x 5]
    has_exp [of x 6] has_exp [of x 7] has_exp [of x 8] has_exp [of x 13] has_exp [of x 30] has_exp [of x 31]
  by simp_all

lemma has_0 [simp]: "\<not> has 0 m"
  by (simp add: has_def)

lemma has_or [simp]: "has (x OR y) m \<longleftrightarrow> has x m \<or> has y m"
  by (simp add: has_def bit.conj_disj_distrib2 or_eq_0_iff)

lemma has_and_not_exp: "n < 32 \<Longrightarrow> has (x AND NOT (2 ^ m)) (2 ^ n) = (has x (2 ^ n) \<and> n \<noteq> m)"
  for x :: u32
  by (auto simp: has_exp bit_simps)

text \<open>Clearing a direction, with the complements in the form the simplifier gives them.\<close>

lemma has_clear [simp]:
  "\<not> has (w AND - 2) 1" "\<not> has (w AND - 3) 2" "has (w AND - 2) 2 = has w 2" "has (w AND - 3) 1 = has w 1"
  using has_and_not_exp [of 0 w 0] has_and_not_exp [of 1 w 1] has_and_not_exp [of 1 w 0] has_and_not_exp [of 0 w 1]
  by simp_all

text \<open>A mask without error and hang-up.\<close>

definition ready :: "u32 \<Rightarrow> bool" where
  "ready x \<longleftrightarrow> \<not> has x EPOLLERR \<and> \<not> has x (EPOLLHUP OR EPOLLRDHUP)"

lemma ConvertEvents_not_ready:
  "\<not> ready x \<Longrightarrow> ConvertEvents x e = (EV_ERROR, e\<lparr>connect_status := CS_ERROR\<rparr>)
      \<or> ConvertEvents x e = (EV_CLOSE, e\<lparr>connect_status := CS_CLOSE\<rparr>)"
  by (auto simp: ConvertEvents_def ready_def)

lemma SetEvents_sel [simp]:
  "ev_fd (SetEvents m a e) = ev_fd e" "ev_uuid (SetEvents m a e) = ev_uuid e"
  "ev_events (SetEvents m True e) = ev_events e OR m" "ev_events (SetEvents m False e) = ev_events e AND NOT m"
  by (simp_all add: SetEvents_def)

lemma SetEvents_io_sel [simp]:
  "real_events (SetEvents m a e) = real_events e" "connect_status (SetEvents m a e) = connect_status e"
  by (simp_all add: SetEvents_def)

text \<open>\<open>ConvertEvents\<close> on a mask without error and hang-up.\<close>

lemma ConvertEvents_fst:
  assumes "ready x"
  shows "fst (ConvertEvents x e) =
      (if has x EPOLLOUT \<and> connect_status e = CS_CONNECTING then EV_CONNECT else 0)
      OR (if has x EPOLLOUT then EV_WRITE else 0) OR (if has x EPOLLIN then EV_READ else 0)"
  using assms by (auto simp: ConvertEvents_def ready_def Let_def)

lemma ConvertEvents_snd:
  assumes "ready x"
  shows "ev_events (snd (ConvertEvents x e)) =
      (let w = (if has x EPOLLOUT then ev_events e AND NOT EV_WRITE else ev_events e)
       in if has x EPOLLIN then w AND NOT EV_READ else w)"
    and "connect_status (snd (ConvertEvents x e)) =
      (if has x EPOLLIN then CS_READ else if has x EPOLLOUT then CS_WRITE else connect_status e)"
  using assms by (auto simp: ConvertEvents_def ready_def Let_def)

section \<open>Properties\<close>

text \<open>The interest mask given to the kernel: \<open>EPOLLIN\<close> for read and signal interest, \<open>EPOLLOUT\<close> for write
  interest, one-shot and peer-shutdown reports exactly for read or write interest, edge triggering as
  asked, and no other bit.\<close>

theorem convert_events_exact:
  "has (convert_events ev) EPOLLIN = (has ev EV_READ \<or> has ev EV_SIGNAL)
   \<and> has (convert_events ev) EPOLLOUT = has ev EV_WRITE
   \<and> has (convert_events ev) EPOLLONESHOT = (has ev EV_READ \<or> has ev EV_WRITE)
   \<and> has (convert_events ev) EPOLLRDHUP = (has ev EV_READ \<or> has ev EV_WRITE)
   \<and> has (convert_events ev) EPOLLET = has ev EV_ET
   \<and> convert_events ev AND NOT (EPOLLIN OR EPOLLOUT OR EPOLLONESHOT OR EPOLLRDHUP OR EPOLLET) = 0"
  by (cases "has ev EV_WRITE"; cases "has ev EV_READ"; cases "has ev EV_SIGNAL"; cases "has ev EV_ET")
    (simp_all add: convert_events_def Let_def, simp_all add: has_def)

text \<open>C16: A direction reported as ready is no longer in the event's interest, so no second worker is started for
  it before its callback has asked for it again. Errors and hang-ups are reported alone.\<close>

theorem convert_disarms:
  "\<not> (has (fst (ConvertEvents x e)) EV_READ \<and> has (ev_events (snd (ConvertEvents x e))) EV_READ)
   \<and> \<not> (has (fst (ConvertEvents x e)) EV_WRITE \<and> has (ev_events (snd (ConvertEvents x e))) EV_WRITE)
   \<and> (ready x \<or> fst (ConvertEvents x e) = EV_ERROR \<or> fst (ConvertEvents x e) = EV_CLOSE)"
proof (cases "ready x")
  case True
  have c: "\<not> has 128 (2::u32)" "\<not> has 128 (1::u32)" "\<not> has 1 (2::u32)" "\<not> has 2 (1::u32)"
    by (simp_all add: has_def)
  show ?thesis
    using True by (simp add: ConvertEvents_fst ConvertEvents_snd Let_def c)
next
  case False
  then show ?thesis
    using ConvertEvents_not_ready [of x e] by (auto simp: has_def)
qed

text \<open>The readiness words of a sequence of masks.\<close>

fun convert_all :: "u32 list \<Rightarrow> 'a io_event_scheme \<Rightarrow> u32 list" where
  "convert_all [] e = []"
| "convert_all (x # xs) e = (case ConvertEvents x e of (r, e') \<Rightarrow> r # convert_all xs e')"

lemma ConvertEvents_status:
  "has (fst (ConvertEvents x e)) EV_CONNECT \<Longrightarrow>
     connect_status e = CS_CONNECTING \<and> connect_status (snd (ConvertEvents x e)) \<noteq> CS_CONNECTING"
  "connect_status e \<noteq> CS_CONNECTING \<Longrightarrow> connect_status (snd (ConvertEvents x e)) \<noteq> CS_CONNECTING"
proof -
  have c: "\<not> has 32 (128::u32)" "\<not> has 64 (128::u32)" "\<not> has 1 (128::u32)" "\<not> has 2 (128::u32)"
    by (simp_all add: has_def)
  show "has (fst (ConvertEvents x e)) EV_CONNECT \<Longrightarrow>
     connect_status e = CS_CONNECTING \<and> connect_status (snd (ConvertEvents x e)) \<noteq> CS_CONNECTING"
    using ConvertEvents_not_ready [of x e]
    by (cases "ready x") (auto simp: ConvertEvents_fst ConvertEvents_snd c split: if_splits)
  show "connect_status e \<noteq> CS_CONNECTING \<Longrightarrow> connect_status (snd (ConvertEvents x e)) \<noteq> CS_CONNECTING"
    using ConvertEvents_not_ready [of x e]
    by (cases "ready x") (auto simp: ConvertEvents_snd split: if_splits)
qed

lemma convert_all_established:
  "connect_status e \<noteq> CS_CONNECTING \<Longrightarrow> filter (\<lambda>r. has r EV_CONNECT) (convert_all xs e) = []"
proof (induction xs arbitrary: e)
  case (Cons x xs)
  have "\<not> has (fst (ConvertEvents x e)) EV_CONNECT" using ConvertEvents_status(1) [of x e] Cons.prems by blast
  with Cons.IH [OF ConvertEvents_status(2) [OF Cons.prems, of x]] show ?case
    by (simp add: case_prod_beta del: EV_CONNECT_def)
qed simp

text \<open>C15: Over any sequence of readiness masks the connection is reported as established at most once, and not
  again after a report.\<close>

theorem connect_reported_once:
  "length (filter (\<lambda>r. has r EV_CONNECT) (convert_all xs e)) \<le> 1"
proof (induction xs arbitrary: e)
  case (Cons x xs)
  show ?case
  proof (cases "has (fst (ConvertEvents x e)) EV_CONNECT")
    case True
    then have "connect_status (snd (ConvertEvents x e)) \<noteq> CS_CONNECTING" using ConvertEvents_status(1) by blast
    from convert_all_established [OF this, of xs] True show ?thesis
      by (simp add: case_prod_beta del: EV_CONNECT_def)
  next
    case False
    with Cons.IH [of "snd (ConvertEvents x e)"] show ?thesis by (simp add: case_prod_beta del: EV_CONNECT_def)
  qed
qed simp

section \<open>The handler\<close>

text \<open>Alone, the handler's steps are the function \<open>io_handler\<close>.\<close>

lemma handler_tests:
  "hpc r + k \<le> 5 \<Longrightarrow> handler_step\<^sup>*\<^sup>* r (r\<lparr>hpc := hpc r + k,
      htasks := htasks r @ concat (map (\<lambda>i. handler_test i (hevent r)) [hpc r ..< hpc r + k])\<rparr>)"
proof (induction k)
  case (Suc k)
  let ?r = "r\<lparr>hpc := hpc r + k, htasks := htasks r @ concat (map (\<lambda>i. handler_test i (hevent r)) [hpc r ..< hpc r + k])\<rparr>"
  from Suc have "handler_step\<^sup>*\<^sup>* r ?r" by simp
  also have "handler_step ?r (?r\<lparr>hpc := Suc (hpc ?r), htasks := htasks ?r @ handler_test (hpc ?r) (hevent ?r)\<rparr>)"
    by (rule handler_step.test) (use Suc.prems in simp)
  finally show ?case by simp
qed simp

lemma handler_tasks_tests: "handler_tasks e = concat (map (\<lambda>i. handler_test i e) [0 ..< 5])"
  by (simp add: handler_tasks_def handler_test_def numeral_eq_Suc)

lemma handler_refines:
  assumes "hpc r = 0" "htasks r = []"
  shows "handler_step\<^sup>*\<^sup>* r (r\<lparr>hpc := 6, htasks := fst (io_handler (hevent r)),
           hevent := snd (snd (io_handler (hevent r)))\<rparr>)"
proof -
  let ?r = "r\<lparr>hpc := 5, htasks := handler_tasks (hevent r)\<rparr>"
  have "handler_step\<^sup>*\<^sup>* r ?r"
    using handler_tests [of r 5] assms by (simp add: handler_tasks_tests)
  also have "handler_step ?r (?r\<lparr>hpc := 6, hevent := snd (event_handler ((hevent ?r)\<lparr>real_events := 0\<rparr>))\<rparr>)"
    by (rule handler_step.reset) simp
  also have "?r\<lparr>hpc := 6, hevent := snd (event_handler ((hevent ?r)\<lparr>real_events := 0\<rparr>))\<rparr>
      = r\<lparr>hpc := 6, htasks := fst (io_handler (hevent r)), hevent := snd (snd (io_handler (hevent r)))\<rparr>"
    by (simp add: io_handler_def)
  finally show ?thesis .
qed

text \<open>An activation that reaches the event between the handler's test and its reset of \<open>real_events_\<close> is
  lost: there is a schedule in which the loop delivers readability during the handler, the handler ends
  with no read task enqueued, and no readiness is left for the next one.\<close>

theorem handler_loses_activation:
  assumes "\<not> has (real_events e) EV_READ"
  shows "\<exists>r1 r2 r3. handler_step\<^sup>*\<^sup>* \<lparr>hpc = 0, hevent = e, htasks = []\<rparr> r1 \<and> loop_step EV_READ r1 r2
    \<and> handler_step\<^sup>*\<^sup>* r2 r3 \<and> hpc r3 = 6 \<and> real_events (hevent r3) = 0
    \<and> (\<forall>cb. Read_task cb \<notin> set (htasks r3))"
proof -
  let ?r0 = "\<lparr>hpc = 0, hevent = e, htasks = []\<rparr>"
  let ?r1 = "\<lparr>hpc = 5, hevent = e, htasks = handler_tasks e\<rparr>"
  let ?r2 = "?r1\<lparr>hevent := SetRealEvents EV_READ (hevent ?r1)\<rparr>"
  let ?r3 = "?r2\<lparr>hpc := 6, hevent := snd (event_handler ((hevent ?r2)\<lparr>real_events := 0\<rparr>))\<rparr>"
  have "handler_step\<^sup>*\<^sup>* ?r0 ?r1" using handler_tests [of ?r0 5] by (simp add: handler_tasks_tests)
  moreover have "loop_step EV_READ ?r1 ?r2" by (rule loop_step.activate)
  moreover have "handler_step\<^sup>*\<^sup>* ?r2 ?r3" by (rule r_into_rtranclp, rule handler_step.reset) simp
  moreover have "\<forall>cb. Read_task cb \<notin> set (htasks ?r3)" using assms by (simp add: handler_tasks_def)
  moreover have "hpc ?r3 = 6 \<and> real_events (hevent ?r3) = 0" by (simp add: event_handler_def)
  ultimately show ?thesis by blast
qed

theorem handler_loses_activation_witness:
  "\<exists>r1 r2 r3. handler_step\<^sup>*\<^sup>* \<lparr>hpc = 0, hevent = EdnIOEvent 1 7 True, htasks = []\<rparr> r1 \<and> loop_step EV_READ r1 r2
    \<and> handler_step\<^sup>*\<^sup>* r2 r3 \<and> hpc r3 = 6 \<and> real_events (hevent r3) = 0
    \<and> (\<forall>cb. Read_task cb \<notin> set (htasks r3))"
  by (rule handler_loses_activation) (simp add: EdnIOEvent_def EdnIOEvent_cbs_def)

end
