(* ===== verification/Edn_Context_Properties.thy ===== *)
theory Edn_Context_Properties
  imports Edn_Context Edn_Timer_Properties Edn_Event_Properties
begin

text \<open>
  The invariant that ties \<open>table_\<close> to \<open>idle_queue_\<close>, for any listener that leaves the two alone, and the
  behaviour of the loop: what ends it, what it survives, and what it should not.
\<close>

section \<open>What the table and the list depend on\<close>

definition reg_same :: "'a ctx \<Rightarrow> 'a ctx \<Rightarrow> bool" where
  "reg_same c c' \<longleftrightarrow> c_list c' = c_list c \<and> c_table c' = c_table c \<and> c_next c' = c_next c \<and> c_sigfd c' = c_sigfd c
     \<and> (\<forall>p. GetFd p c' = GetFd p c)"

lemma reg_same_refl [simp]: "reg_same c c"
  by (simp add: reg_same_def)

lemma reg_same_trans: "reg_same c c1 \<Longrightarrow> reg_same c1 c2 \<Longrightarrow> reg_same c c2"
  by (simp add: reg_same_def)

text \<open>Every key leads to the one node that holds its event, and every node is led to.\<close>

definition ctx_inv :: "'a ctx \<Rightarrow> bool" where
  "ctx_inv c \<longleftrightarrow> distinct (map fst (c_list c)) \<and> (\<forall>e\<in>set (c_list c). fst e < c_next c)
     \<and> (\<forall>e\<in>set (c_list c). GetFd (snd e) c \<noteq> INVALID_FD)
     \<and> (\<forall>fd n. c_table c fd = Some n \<longleftrightarrow> (\<exists>p. (n, p) \<in> set (c_list c) \<and> GetFd p c = fd))"

lemma ctx_inv_same: "reg_same c c' \<Longrightarrow> ctx_inv c' = ctx_inv c"
  by (simp add: reg_same_def ctx_inv_def)

lemma ctx_invD:
  assumes "ctx_inv c"
  shows "distinct (map fst (c_list c))" "e \<in> set (c_list c) \<Longrightarrow> fst e < c_next c"
    "c_table c fd = Some n \<longleftrightarrow> (\<exists>p. (n, p) \<in> set (c_list c) \<and> GetFd p c = fd)"
  using assms unfolding ctx_inv_def by blast+

lemma GetEvent_eq:
  assumes "ctx_inv c"
  shows "\<exists>e. GetEvent fd c = Inr e" "GetEvent fd c = Inr (Some p) \<longleftrightarrow> p \<in> snd ` set (c_list c) \<and> GetFd p c = fd"
proof -
  note d = ctx_invD(1) [OF assms] and t = ctx_invD(3) [OF assms, of fd]
  have m: "map_of (c_list c) n = Some q \<longleftrightarrow> (n, q) \<in> set (c_list c)" for n q using d by simp
  show "\<exists>e. GetEvent fd c = Inr e"
  proof (cases "c_table c fd")
    case (Some n)
    then obtain q where "(n, q) \<in> set (c_list c)" using t [of n] by blast
    then have "map_of (c_list c) n = Some q" using m by simp
    with Some show ?thesis by (simp add: GetEvent_def node_at_def)
  qed (simp add: GetEvent_def)
  show "GetEvent fd c = Inr (Some p) \<longleftrightarrow> p \<in> snd ` set (c_list c) \<and> GetFd p c = fd"
  proof
    assume "GetEvent fd c = Inr (Some p)"
    then obtain n where n: "c_table c fd = Some n" "map_of (c_list c) n = Some p"
      by (auto simp: GetEvent_def node_at_def split: option.splits)
    then have "(n, p) \<in> set (c_list c)" using m by simp
    moreover obtain q where "(n, q) \<in> set (c_list c)" "GetFd q c = fd" using t [of n] n(1) by blast
    moreover have "q = p" using m [of n q] m [of n p] calculation by simp
    ultimately show "p \<in> snd ` set (c_list c) \<and> GetFd p c = fd" by force
  next
    assume "p \<in> snd ` set (c_list c) \<and> GetFd p c = fd"
    then obtain n where "(n, p) \<in> set (c_list c)" "GetFd p c = fd" by auto
    then have "c_table c fd = Some n" "map_of (c_list c) n = Some p" using t [of n] m by blast+
    then show "GetEvent fd c = Inr (Some p)" by (simp add: GetEvent_def node_at_def)
  qed
qed

section \<open>Enlisting and delisting\<close>

lemma GetFd_upd [simp]:
  "GetFd p (c\<lparr>c_list := l\<rparr>) = GetFd p c" "GetFd p (c\<lparr>c_table := t\<rparr>) = GetFd p c" "GetFd p (c\<lparr>c_next := n\<rparr>) = GetFd p c"
  "GetFd p (c\<lparr>c_pool := q\<rparr>) = GetFd p c" "GetFd p (c\<lparr>c_ctl := k\<rparr>) = GetFd p c"
  "GetFd p (c\<lparr>c_sigaction := s\<rparr>) = GetFd p c" "GetFd p (c\<lparr>c_done := d\<rparr>) = GetFd p c"
  by (cases p; simp add: GetFd_def)+

lemma enlist_inv:
  assumes "ctx_inv c" "c_table c (GetFd p c) = None"
  shows "ctx_inv (enlist p c)"
proof (cases "GetFd p c = INVALID_FD")
  case False
  let ?c = "enlist p c" and ?n = "c_next c"
  have f: "\<forall>e\<in>set (c_list c). fst e < ?n" using ctx_invD(2) [OF assms(1)] by blast
  have t: "c_table ?c fd = Some n \<longleftrightarrow> (\<exists>q. (n, q) \<in> set (c_list ?c) \<and> GetFd q ?c = fd)" for fd n
  proof -
    have "(\<exists>q. (n, q) \<in> set (c_list c) \<and> GetFd q c = GetFd p c) = False"
      using ctx_invD(3) [OF assms(1), of "GetFd p c" n] assms(2) by simp
    then show ?thesis
      using False ctx_invD(3) [OF assms(1), of fd n] by (auto simp: enlist_def Let_def)
  qed
  moreover have "distinct (map fst (c_list ?c))" "\<forall>e\<in>set (c_list ?c). fst e < c_next ?c"
    using False f ctx_invD(1) [OF assms(1)] by (force simp: enlist_def Let_def)+
  moreover have "\<forall>e\<in>set (c_list ?c). GetFd (snd e) ?c \<noteq> INVALID_FD"
    using False assms(1) by (auto simp: enlist_def Let_def ctx_inv_def)
  ultimately show ?thesis unfolding ctx_inv_def by blast
qed (simp add: enlist_def assms)

lemma delist_inv:
  assumes "ctx_inv c" "delist p c = Inr c'"
  shows "ctx_inv c' \<and> (GetFd p c \<noteq> INVALID_FD \<longrightarrow> c_table c' (GetFd p c) = None)
    \<and> (\<forall>q. GetFd q c' = GetFd q c)"
proof (cases "GetFd p c = INVALID_FD")
  case False
  then obtain n where n: "c_table c (GetFd p c) = Some n"
    "c' = c\<lparr>c_list := filter (\<lambda>e. fst e \<noteq> n) (c_list c), c_table := (c_table c)(GetFd p c := None)\<rparr>"
    using assms(2) by (auto simp: delist_def Let_def split: option.splits if_splits)
  have "c_table c' fd = Some m \<longleftrightarrow> (\<exists>q. (m, q) \<in> set (c_list c') \<and> GetFd q c' = fd)" for fd m
  proof (cases "fd = GetFd p c")
    case True
    have "m = n" if "(m, q) \<in> set (c_list c)" "GetFd q c = GetFd p c" for q
      using that n(1) ctx_invD(3) [OF assms(1), of "GetFd p c" m] by auto
    with True show ?thesis by (auto simp: n(2))
  next
    case other: False
    have "m \<noteq> n" if m: "c_table c fd = Some m"
    proof
      assume "m = n"
      obtain q where "(n, q) \<in> set (c_list c)" "GetFd q c = fd"
        using m \<open>m = n\<close> ctx_invD(3) [OF assms(1), of fd n] by blast
      moreover obtain r where "(n, r) \<in> set (c_list c)" "GetFd r c = GetFd p c"
        using n(1) ctx_invD(3) [OF assms(1), of "GetFd p c" n] by blast
      ultimately have "q = r" using ctx_invD(1) [OF assms(1)] by (metis eq_key_imp_eq_value)
      with \<open>GetFd q c = fd\<close> \<open>GetFd r c = GetFd p c\<close> other show False by simp
    qed
    then show ?thesis using other ctx_invD(3) [OF assms(1), of fd m] by (auto simp: n(2))
  qed
  moreover have "distinct (map fst (c_list c'))" using ctx_invD(1) [OF assms(1)] by (simp add: n(2) distinct_map_filter)
  ultimately have "ctx_inv c'" using assms(1) unfolding ctx_inv_def by (simp add: n(2))
  then show ?thesis by (simp add: n(2))
next
  case True
  with assms show ?thesis by (simp add: delist_def)
qed

section \<open>The listener as an interface\<close>

text \<open>
  \<open>EdnEventListener\<close> is an abstract class: what the context relies on is that \<open>add\<close> and \<open>del\<close> leave
  its own table and list alone and change no event's key.
\<close>

locale event_listener =
  fixes add :: "event_ptr \<Rightarrow> 'a ctx \<Rightarrow> fault + (int \<times> 'a ctx)"
    and del :: "event_ptr \<Rightarrow> 'a ctx \<Rightarrow> fault + (int \<times> 'a ctx)"
  assumes add_frame: "add p c = Inr (ret, c') \<Longrightarrow> reg_same c c'"
    and del_frame: "del p c = Inr (ret, c') \<Longrightarrow> reg_same c c'"
begin

lemma added:
  assumes "ctx_inv c" "c_table c (GetFd p c) = None" "assert_zero (add p (enlist p c)) = Inr c'"
  shows "ctx_inv c'" "reg_same (enlist p c) c'"
proof -
  from assms(3) obtain ret where "add p (enlist p c) = Inr (ret, c')"
    by (auto simp: assert_zero_def split: sum.splits prod.splits if_splits)
  then show "reg_same (enlist p c) c'" by (rule add_frame)
  with enlist_inv [OF assms(1,2)] show "ctx_inv c'" using ctx_inv_same by blast
qed

lemma deleted:
  assumes "ctx_inv c" "delist p c = Inr c1" "assert_zero (del p c1) = Inr c'"
  shows "ctx_inv c'" "reg_same c1 c'"
proof -
  from assms(3) obtain ret where "del p c1 = Inr (ret, c')"
    by (auto simp: assert_zero_def split: sum.splits prod.splits if_splits)
  then show "reg_same c1 c'" by (rule del_frame)
  with delist_inv [OF assms(1,2)] show "ctx_inv c'" using ctx_inv_same by blast
qed

end

lemma reg_same_ctl: "ctl os opn fd ev c = (e, c') \<Longrightarrow> reg_same c c'"
  by (auto simp: ctl_def reg_same_def split: sysret.splits)

lemma reg_same_tg:
  assumes "\<And>a. ev_fd (t_objs g a) = ev_fd (t_objs (c_tg c) a)"
  shows "reg_same c (c\<lparr>c_tg := g\<rparr>)"
proof -
  have "GetFd p (c\<lparr>c_tg := g\<rparr>) = GetFd p c" for p by (cases p) (simp_all add: GetFd_def assms)
  then show ?thesis by (simp add: reg_same_def)
qed

lemma reg_same_sigs:
  assumes "\<And>a. sig_num (s a) = sig_num (c_sigs c a)"
  shows "reg_same c (c\<lparr>c_sigs := s\<rparr>)"
proof -
  have "GetFd p (c\<lparr>c_sigs := s\<rparr>) = GetFd p c" for p by (cases p) (simp_all add: GetFd_def signal_GetFd_def assms)
  then show ?thesis by (simp add: reg_same_def)
qed

lemma reg_same_io:
  assumes "ev_fd e = ev_fd (c_ios c a)"
  shows "reg_same c (set_io a e c)"
proof -
  have "GetFd p (set_io a e c) = GetFd p c" for p by (cases p) (simp_all add: GetFd_def set_io_def assms)
  then show ?thesis by (simp add: reg_same_def set_io_def)
qed

lemma reg_same_misc [simp]:
  "reg_same c (c\<lparr>c_pool := q\<rparr>)" "reg_same c (c\<lparr>c_sigaction := s\<rparr>)" "reg_same c (pool_enqueue t c)"
  by (simp_all add: reg_same_def pool_enqueue_def)

lemma DelTimer_fd: "DelTimer a g = Inr (r, g') \<Longrightarrow> ev_fd (t_objs g' x) = ev_fd (t_objs g x)"
  by (auto simp: DelTimer_def Let_def SetEnabled_def split: option.splits list.splits if_splits)

lemma SetOldSigaction_num [simp]: "sig_num (SetOldSigaction sa s) = sig_num s"
  by (simp add: SetOldSigaction_def)

lemma epoll_add_signal:
  "GetFd (Sg x) c \<noteq> INVALID_FD \<Longrightarrow> GetFd (Sg x) c < 0 \<Longrightarrow>
     epoll_add os now (Sg x) c =
       (let sig = sig_num (c_sigs c x) in
        if os_sigaction os sig then
          Inr (EDN_OK, c\<lparr>c_sigs := (c_sigs c)(x := SetOldSigaction (c_sigaction c sig) (c_sigs c x)),
                         c_sigaction := (c_sigaction c)(sig := SA_edn)\<rparr>)
        else Inr (EDN_OK, c\<lparr>c_sigs := (c_sigs c)(x := SetOldSigaction SA_zero (c_sigs c x))\<rparr>))"
  by (simp add: epoll_add_def)

lemma epoll_add_frame: "epoll_add os now p c = Inr (ret, c') \<Longrightarrow> reg_same c c'"
proof (cases "GetFd p c = INVALID_FD")
  case True
  assume "epoll_add os now p c = Inr (ret, c')"
  with True show ?thesis
    by (auto simp: epoll_add_def AddTimer_def intro!: reg_same_tg split: event_ptr.splits if_splits)
next
  case fd: False
  assume a: "epoll_add os now p c = Inr (ret, c')"
  show ?thesis
  proof (cases "GetFd p c < 0")
    case True
    with fd a obtain x where "p = Sg x" by (auto simp: epoll_add_def split: event_ptr.splits)
    have sg: "epoll_add os now (Sg x) c = Inr (ret, c')" using a \<open>p = Sg x\<close> by simp
    have "GetFd (Sg x) c \<noteq> INVALID_FD" "GetFd (Sg x) c < 0" using fd True \<open>p = Sg x\<close> by simp_all
    note sg = sg [unfolded epoll_add_signal [OF this] Let_def]
    let ?s = "\<lambda>sa. (c_sigs c)(x := SetOldSigaction sa (c_sigs c x))"
    have s: "reg_same c (c\<lparr>c_sigs := ?s sa\<rparr>)" for sa by (rule reg_same_sigs) simp
    show ?thesis
    proof (cases "os_sigaction os (sig_num (c_sigs c x))")
      case True
      with sg have "c' = (c\<lparr>c_sigs := ?s (c_sigaction c (sig_num (c_sigs c x)))\<rparr>)
          \<lparr>c_sigaction := (c_sigaction c)(sig_num (c_sigs c x) := SA_edn)\<rparr>" by simp
      then show ?thesis using reg_same_trans [OF s reg_same_misc(2)] by simp
    next
      case False
      with sg have "c' = c\<lparr>c_sigs := ?s SA_zero\<rparr>" by simp
      with s show ?thesis by simp
    qed
next
    case False
    with fd a show ?thesis
      by (auto simp: epoll_add_def Let_def dest!: reg_same_ctl intro: reg_same_trans
          split: prod.splits option.splits if_splits)
  qed
qed

lemma epoll_del_frame: "epoll_del os p c = Inr (ret, c') \<Longrightarrow> reg_same c c'"
proof (cases "GetFd p c < 0")
  case True
  assume "epoll_del os p c = Inr (ret, c')"
  with True show ?thesis
    by (auto simp: epoll_del_def Let_def intro!: reg_same_tg dest: DelTimer_fd
        split: event_ptr.splits if_splits sum.splits prod.splits)
next
  case False
  assume "epoll_del os p c = Inr (ret, c')"
  with False show ?thesis
    by (auto simp: epoll_del_def dest!: reg_same_ctl split: prod.splits option.splits if_splits)
qed

interpretation epoll: event_listener "epoll_add os now" "epoll_del os" for os now
  by unfold_locales (rule epoll_add_frame epoll_del_frame, assumption)+

section \<open>The invariant over every operation\<close>

lemma AddEvent_inv:
  assumes "ctx_inv c" "c_table c (GetFd p c) = None" "AddEvent os now p c = Inr c'"
  shows "ctx_inv c'" "reg_same (enlist p c) c'"
  using epoll.added [OF assms(1,2)] assms(3) by (auto simp: AddEvent_def)

lemma DelEvent_Inr:
  assumes "DelEvent os q c = Inr c'"
  obtains p c1 where "q = Some p" "delist p c = Inr c1" "assert_zero (epoll_del os p c1) = Inr c'"
  using assms by (auto simp: DelEvent_def split: option.splits sum.splits)

lemma DelEvent_inv:
  assumes "ctx_inv c" "DelEvent os q c = Inr c'"
  shows "ctx_inv c'"
  using assms(2) by (rule DelEvent_Inr) (rule epoll.deleted(1) [OF assms(1)])

lemma Active_same: "reg_same c (Active p c)"
proof -
  have e: "reg_same c1 (pool_enqueue t c1)" for c1 :: "'a ctx" and t by simp
  have tm: "reg_same c (c\<lparr>c_tg := set_timer a (\<lambda>t. t\<lparr>ev_status := ACTIVE\<rparr>) (c_tg c)\<rparr>)" for a
    by (rule reg_same_tg) simp
  have sg: "reg_same c (c\<lparr>c_sigs := (c_sigs c)(a := (c_sigs c a)\<lparr>ev_status := ACTIVE\<rparr>)\<rparr>)" for a
    by (rule reg_same_sigs) simp
  have io: "reg_same c (set_io a ((c_ios c a)\<lparr>ev_status := ACTIVE\<rparr>) c)" for a by (rule reg_same_io) simp
  show ?thesis
    unfolding Active_def by (cases p) (auto intro: reg_same_trans [OF _ e] tm sg io)
qed

lemma ConvertEvents_fd: "ConvertEvents x e = (r, e') \<Longrightarrow> ev_fd e' = ev_fd e"
  by (auto simp: ConvertEvents_def Let_def split: if_splits)

lemma ActiveEvent_inv:
  assumes "ctx_inv c" "ActiveEvent os key events c = Inr (ret, c')"
  shows "ctx_inv c'"
proof (cases "c_table c key")
  case None
  with assms show ?thesis by (simp add: ActiveEvent_def)
next
  case (Some n)
  from Some assms(2) obtain p where p: "node_at n c = Inr p"
    by (auto simp: ActiveEvent_def split: sum.splits)
  let ?r = "if GetFd p c \<noteq> c_sigfd c then
      (case p of Io a \<Rightarrow> (case ConvertEvents events (c_ios c a) of (ev, e) \<Rightarrow> Inr (set_io a (SetRealEvents ev e) c))
       | _ \<Rightarrow> Inl Null_deref) else Inr c"
  from Some assms(2) p obtain c1 where c1: "?r = Inr c1"
    by (cases ?r) (auto simp: ActiveEvent_def Let_def)
  have "reg_same c c1"
    using c1 by (auto simp: SetRealEvents_def dest: ConvertEvents_fd intro!: reg_same_io
        split: if_splits event_ptr.splits prod.splits)
  then have "ctx_inv (Active p c1)" using assms(1) Active_same ctx_inv_same by blast
  moreover have "c' = Active p c1 \<or> DelEvent os (Some p) (Active p c1) = Inr c'"
    using assms(2) Some p c1
    by (auto simp: ActiveEvent_def Let_def split: if_splits sum.splits)
  ultimately show ?thesis using DelEvent_inv by blast
qed

lemma dispatch_events_inv:
  "dispatch_events os cs evs pipes c = Inr (ret, c') \<Longrightarrow> ctx_inv c \<Longrightarrow> ctx_inv c'"
proof (induction os cs evs pipes c rule: dispatch_events.induct)
  case (2 os cs fd ev evs pipes c)
  show ?case
  proof (cases "fd = c_sigfd c")
    case True
    with "2.prems"(1) obtain ans pipes' r c1 where a: "pipes = ans # pipes'" "DispatchSignal os cs ans c = Inr (r, c1)"
      "dispatch_events os cs evs pipes' c1 = Inr (ret, c')"
      by (auto split: list.splits sum.splits prod.splits)
    then have "ctx_inv c1"
      using "2.prems"(2) ActiveEvent_inv
      by (fastforce simp: DispatchSignal_def split: pipe_ans.splits sum.splits prod.splits)
    with "2.IH"(1) [OF True a(1,2) refl a(3)] show ?thesis by blast
  next
    case False
    with "2.prems"(1) obtain r c1 where a: "ActiveEvent os fd ev c = Inr (r, c1)" by (auto split: sum.splits)
    have "ctx_inv c1" by (rule ActiveEvent_inv [OF "2.prems"(2) a])
    with "2.IH"(2) [OF False a refl] "2.prems"(1) False a show ?thesis by (auto split: if_splits)
  qed
qed simp

lemma dispatch_loop_fd:
  "dispatch_loop clock g fired = Inr (clock', g', fired') \<Longrightarrow> ev_fd (t_objs g' x) = ev_fd (t_objs g x)"
proof (induction clock g fired rule: dispatch_induct)
  case (drop clock g fired a q)
  then show ?case by (simp add: dispatch_step(2) [OF drop.hyps])
next
  case (due now clock g fired a q)
  have "ev_fd (t_objs (fire now a q g) x) = ev_fd (t_objs g x)" by (simp add: fire_def Let_def SetExpireTime_def)
  with due show ?case by (simp add: dispatch_step(5) [OF due.hyps])
qed (simp_all add: dispatch_step)

lemma dispatch_inv_ctx:
  assumes "ctx_inv c" "dispatch os cs r t c = Inr (ret, t', c')"
  shows "ctx_inv c'"
proof -
  have go: "ctx_inv c'" if e: "dispatch_events os cs evs (rd_pipes r) c = Inr (ret1, c1)"
    and d: "c' = c1 \<or> (\<exists>tt clk g fired. timer_dispatch (rd_clock r) (c_tg c1) = Inr (tt, clk, g, fired)
      \<and> c' = c1\<lparr>c_tg := g, c_pool := c_pool c1 @ map (\<lambda>a. T_handler (Tm a)) fired\<rparr>)" for evs ret1 c1
  proof -
    have i: "ctx_inv c1" by (rule dispatch_events_inv [OF e assms(1)])
    have "ctx_inv (c1\<lparr>c_tg := g, c_pool := q\<rparr>)" if td: "timer_dispatch clk0 (c_tg c1) = Inr (tt, clk, g, fired)"
      for tt clk0 clk g fired q
    proof -
      obtain clk1 where "dispatch_loop clk0 (c_tg c1) [] = Inr (clk1, g, fired)" using timer_dispatch_Inr [OF td] by blast
      then have "reg_same c1 (c1\<lparr>c_tg := g\<rparr>)" by (intro reg_same_tg) (rule dispatch_loop_fd)
      then have "reg_same c1 ((c1\<lparr>c_tg := g\<rparr>)\<lparr>c_pool := q\<rparr>)" using reg_same_trans reg_same_misc(1) by blast
      from ctx_inv_same [OF this] i show ?thesis by simp
    qed
    with d i show ?thesis by blast
  qed
  show ?thesis
  proof (cases "rd_wait r")
    case (Wait_err e)
    show ?thesis
    proof (cases "e = EINTR")
      case False
      with Wait_err assms show ?thesis by (simp add: dispatch_def)
    next
      case True
      with Wait_err assms(2) show ?thesis
        by (intro go [of "[]" EDN_OK c]) (auto simp: dispatch_def split: if_splits sum.splits prod.splits)
    qed
  next
    case (Wait_events evs)
    with assms(2) obtain ret1 c1 where e: "dispatch_events os cs evs (rd_pipes r) c = Inr (ret1, c1)"
      by (auto simp: dispatch_def split: sum.splits)
    with Wait_events assms(2) show ?thesis
      by (intro go [OF e]) (auto simp: dispatch_def split: if_splits sum.splits prod.splits)
  qed
qed

text \<open>
  The states of a context: events are added under keys that are free, and anything may be deleted,
  activated or dispatched; callbacks change I/O events but not their descriptors.
\<close>

inductive ctx_reachable :: "os \<Rightarrow> 'a ctx \<Rightarrow> 'a ctx \<Rightarrow> bool" for os :: os and c0 :: "'a ctx" where
  start: "ctx_reachable os c0 c0"
| added: "ctx_reachable os c0 c \<Longrightarrow> c_table c (GetFd p c) = None \<Longrightarrow> AddEvent os now p c = Inr c' \<Longrightarrow>
    ctx_reachable os c0 c'"
| deleted: "ctx_reachable os c0 c \<Longrightarrow> DelEvent os q c = Inr c' \<Longrightarrow> ctx_reachable os c0 c'"
| activated: "ctx_reachable os c0 c \<Longrightarrow> ActiveEvent os key ev c = Inr (ret, c') \<Longrightarrow> ctx_reachable os c0 c'"
| dispatched: "ctx_reachable os c0 c \<Longrightarrow> dispatch os cs r t c = Inr (ret, t', c') \<Longrightarrow> ctx_reachable os c0 c'"
| changed: "ctx_reachable os c0 c \<Longrightarrow> ev_fd e = ev_fd (c_ios c a) \<Longrightarrow> ctx_reachable os c0 (set_io a e c)"

lemma ctx_reachable_inv: "ctx_reachable os c0 c \<Longrightarrow> ctx_inv c0 \<Longrightarrow> ctx_inv c"
proof (induction rule: ctx_reachable.induct)
  case (changed c e a)
  then show ?case using ctx_inv_same [OF reg_same_io] by blast
qed (auto dest: AddEvent_inv(1) DelEvent_inv ActiveEvent_inv dispatch_inv_ctx)

lemma EdnContext_inv: "EdnContext os pair epfd gb ts ss ios sa = Inr c \<Longrightarrow> ctx_inv c"
  by (auto simp: EdnContext_def EdnEpoll_def ctx_inv_def Let_def split: option.splits sysret.splits if_splits)

section \<open>A context for the witnesses\<close>

definition sample_os :: os where
  "sample_os = \<lparr>os_ctl = (\<lambda>_ _ _. Ret 0), os_sigaction = (\<lambda>_. True)\<rparr>"

definition sample_ctx :: "unit ctx" where
  "sample_ctx =
     \<lparr>c_tg = EdnTimerGroup (\<lambda>a. EdnTimer (int a) 1000 (10 * int a) False (Some a)), c_has_tg = True,
      c_sigs = (\<lambda>a. EdnSignal 0 3 (int a) True (Some a) SA_zero), c_ios = (\<lambda>a. EdnIOEvent (int a) (10 + int a) True),
      c_list = [], c_next = 0, c_table = Map.empty, c_pool = [], c_sigfd = 3, c_sigaction = (\<lambda>_. SA_zero),
      c_ctl = [(CTL_ADD, 3, EPOLLIN)], c_done = False\<rparr>"

lemma sample_ctx_constructed:
  "EdnContext sample_os (Some 3) (Ret 4) False (\<lambda>a. EdnTimer (int a) 1000 (10 * int a) False (Some a))
     (\<lambda>a. EdnSignal 0 3 (int a) True (Some a) SA_zero) (\<lambda>a. EdnIOEvent (int a) (10 + int a) True) (\<lambda>_. SA_zero)
   = Inr sample_ctx"
  by (simp add: EdnContext_def EdnEpoll_def sample_os_def sample_ctx_def)

lemma sample_ctx_inv: "ctx_inv sample_ctx"
  by (rule EdnContext_inv [OF sample_ctx_constructed])

lemma sample_io [simp]: "GetFd (Io a) sample_ctx = 10 + int a" "c_list sample_ctx = []" "c_next sample_ctx = 0"
  "c_table sample_ctx = Map.empty" "c_sigfd sample_ctx = 3" "c_has_tg sample_ctx = True" "c_done sample_ctx = False"
  by (simp_all add: GetFd_def sample_ctx_def EdnIOEvent_def EdnIOEvent_cbs_def)

text \<open>The context after adding one I/O event.\<close>

definition sample_added :: "unit ctx" where
  "sample_added = (enlist (Io 0) sample_ctx)\<lparr>c_ctl := [(CTL_ADD, 3, EPOLLIN), (CTL_ADD, 10, GetEvents (c_ios sample_ctx 0))]\<rparr>"

lemma sample_added_eq: "AddEvent sample_os 1000 (Io 0) sample_ctx = Inr sample_added"
  by (simp add: AddEvent_def assert_zero_def epoll_add_def enlist_def Let_def ctl_def sample_os_def sample_added_def
      events_of_def GetEvents_def) (simp add: sample_ctx_def)

lemma sample_added_sel [simp]: "c_list sample_added = [(0, Io 0)]" "c_table sample_added = [10 \<mapsto> 0]"
  "GetFd p sample_added = GetFd p sample_ctx" "c_sigfd sample_added = 3" "c_done sample_added = False"
  by (simp_all add: sample_added_def enlist_def Let_def)

lemma sample_added_inv: "ctx_inv sample_added"
  by (rule AddEvent_inv(1) [OF sample_ctx_inv _ sample_added_eq]) simp

section \<open>Properties\<close>



text \<open>Deleting an event undoes adding it: the queue and the table are what they were.\<close>

theorem add_delete_roundtrip:
  assumes "ctx_inv c" "c_table c (GetFd p c) = None" "GetFd p c \<noteq> INVALID_FD"
    "AddEvent os now p c = Inr c1" "DelEvent os (Some p) c1 = Inr c2"
  shows "GetEvent (GetFd p c) c1 = Inr (Some p) \<and> c_list c2 = c_list c \<and> c_table c2 = c_table c"
proof -
  note a = AddEvent_inv [OF assms(1,2,4)]
  have e: "c_list c1 = c_list c @ [(c_next c, p)]" "c_table c1 = (c_table c)(GetFd p c \<mapsto> c_next c)"
    "GetFd q c1 = GetFd q c" for q
    using a(2) assms(3) by (auto simp: reg_same_def enlist_def Let_def)
  obtain d where d: "delist p c1 = Inr d" "assert_zero (epoll_del os p d) = Inr c2"
    using assms(5) by (rule DelEvent_Inr) simp
  have "\<forall>x\<in>set (c_list c). fst x \<noteq> c_next c" using ctx_invD(2) [OF assms(1)] by force
  then have "filter (\<lambda>x. fst x \<noteq> c_next c) (c_list c) = c_list c" by (simp add: filter_id_conv)
  then have "c_list d = c_list c" "c_table d = (c_table c)(GetFd p c := None)"
    using d(1) e assms(3) by (auto simp: delist_def Let_def)
  moreover have "reg_same d c2" by (rule epoll.deleted(2) [OF a(1) d])
  moreover have "GetEvent (GetFd p c) c1 = Inr (Some p)" using GetEvent_eq(2) [OF a(1)] e by simp
  ultimately show ?thesis using assms(2) by (auto simp: reg_same_def)
qed

theorem add_delete_roundtrip_witness:
  "\<exists>c2. DelEvent sample_os (Some (Io 0)) sample_added = Inr c2 \<and> c_list c2 = [] \<and> c_table c2 = Map.empty"
proof -
  obtain c2 where c2: "DelEvent sample_os (Some (Io 0)) sample_added = Inr c2"
    by (simp add: DelEvent_def delist_def Let_def assert_zero_def epoll_del_def ctl_def sample_os_def)
  have "c_table sample_ctx (GetFd (Io 0) sample_ctx) = None" "GetFd (Io 0) sample_ctx \<noteq> INVALID_FD" by simp_all
  from add_delete_roundtrip [OF sample_ctx_inv this sample_added_eq c2] c2 show ?thesis by simp
qed

text \<open>Deleting an event twice, as two of the callbacks or a callback and the user do when an error and a close
  meet, erases a singular iterator.\<close>

theorem double_delete_faults:
  assumes "ctx_inv c" "GetFd p c \<noteq> INVALID_FD" "DelEvent os (Some p) c = Inr c1"
  shows "DelEvent os (Some p) c1 = Inl Bad_iterator"
proof -
  obtain d where d: "delist p c = Inr d" "assert_zero (epoll_del os p d) = Inr c1"
    using assms(3) by (rule DelEvent_Inr) simp
  have "c_table c1 (GetFd p c) = None" "GetFd p c1 = GetFd p c"
    using delist_inv [OF assms(1) d(1)] epoll.deleted(2) [OF assms(1) d] assms(2) by (simp_all add: reg_same_def)
  with assms(2) show ?thesis by (simp add: DelEvent_def delist_def Let_def)
qed

theorem double_delete_faults_witness:
  "\<exists>c1. DelEvent sample_os (Some (Io 0)) sample_added = Inr c1
    \<and> DelEvent sample_os (Some (Io 0)) c1 = Inl Bad_iterator"
proof -
  obtain c1 where c1: "DelEvent sample_os (Some (Io 0)) sample_added = Inr c1"
    by (simp add: DelEvent_def delist_def Let_def assert_zero_def epoll_del_def ctl_def sample_os_def)
  have "GetFd (Io 0) sample_added \<noteq> INVALID_FD" by simp
  from double_delete_faults [OF sample_added_inv this c1] c1 show ?thesis by blast
qed

text \<open>A descriptor that is added again while an older event still has its key (it was closed but not deleted)
  leaks the older event: after the new one is deleted the old one stays in the queue, out of every lookup.\<close>

theorem duplicate_key_leaks:
  assumes "ctx_inv c" "(n, q) \<in> set (c_list c)" "GetFd q c = GetFd p c"
    "AddEvent os now p c = Inr c1" "DelEvent os (Some p) c1 = Inr c2"
  shows "(n, q) \<in> set (c_list c2) \<and> GetEvent (GetFd p c) c2 = Inr None"
proof -
  have fd: "GetFd p c \<noteq> INVALID_FD" using assms(1-3) unfolding ctx_inv_def by force
  obtain ret where "epoll_add os now p (enlist p c) = Inr (ret, c1)"
    using assms(4) by (auto simp: AddEvent_def assert_zero_def split: sum.splits prod.splits if_splits)
  from epoll_add_frame [OF this] fd
  have c1: "c_list c1 = c_list c @ [(c_next c, p)]" "c_table c1 = (c_table c)(GetFd p c \<mapsto> c_next c)"
    "GetFd p c1 = GetFd p c" by (auto simp: reg_same_def enlist_def Let_def)
  obtain d where d: "delist p c1 = Inr d" "assert_zero (epoll_del os p d) = Inr c2"
    using assms(5) by (rule DelEvent_Inr) simp
  have "n < c_next c" using ctx_invD(2) [OF assms(1,2)] by simp
  then have dd: "(n, q) \<in> set (c_list d)" "c_table d (GetFd p c) = None"
    using d(1) fd c1 assms(2) by (auto simp: delist_def Let_def)
  obtain ret where "epoll_del os p d = Inr (ret, c2)"
    using d(2) by (auto simp: assert_zero_def split: sum.splits prod.splits if_splits)
  from epoll_del_frame [OF this] dd show ?thesis by (simp add: reg_same_def GetEvent_def)
qed

theorem duplicate_key_leaks_witness:
  "\<exists>c1 c2. AddEvent sample_os 1000 (Io 0) sample_added = Inr c1 \<and> DelEvent sample_os (Some (Io 0)) c1 = Inr c2
    \<and> c_list c2 \<noteq> [] \<and> GetEvent 10 c2 = Inr None"
proof -
  obtain c1 where c1: "AddEvent sample_os 1000 (Io 0) sample_added = Inr c1"
    by (simp add: AddEvent_def assert_zero_def epoll_add_def enlist_def Let_def ctl_def sample_os_def)
  have k: "(0, Io 0) \<in> set (c_list sample_added)" "GetFd (Io 0) sample_added = GetFd (Io 0) sample_added" by simp_all
  obtain ret where "epoll_add sample_os 1000 (Io 0) (enlist (Io 0) sample_added) = Inr (ret, c1)"
    using c1 by (auto simp: AddEvent_def assert_zero_def split: sum.splits prod.splits if_splits)
  from epoll_add_frame [OF this]
  have s: "c_list c1 = [(0, Io 0), (c_next sample_added, Io 0)]" "c_table c1 = [10 \<mapsto> c_next sample_added]"
    "GetFd (Io 0) c1 = 10" by (auto simp: reg_same_def enlist_def Let_def)
  then obtain c2 where c2: "DelEvent sample_os (Some (Io 0)) c1 = Inr c2"
    by (simp add: DelEvent_def delist_def Let_def assert_zero_def epoll_del_def ctl_def sample_os_def)
  from duplicate_key_leaks [OF sample_added_inv k c1 c2] c1 c2 show ?thesis by force
qed

end
