(* ===== verification/Edn_Loop_Properties.thy ===== *)
theory Edn_Loop_Properties
  imports Edn_Context_Properties
begin

text \<open>
  Activation of an event, and the event loop: the errors it does not see, the stale reports and
  timers that end it, and the signals that fault in it.
\<close>

declare run_loop.simps [simp del]

lemma run_loop_step:
  "c_done c \<Longrightarrow> run_loop os cs rs t c ws = Inr (Exit_done, c, ws)"
  "\<not> c_done c \<Longrightarrow> t < 0 \<Longrightarrow> c_list c = [] \<Longrightarrow> run_loop os cs rs t c ws = Inr (Exit_no_event, c, ws)"
  "\<not> c_done c \<Longrightarrow> 0 \<le> t \<or> c_list c \<noteq> [] \<Longrightarrow> run_loop os cs [] t c ws = Inl Script_end"
  "\<not> c_done c \<Longrightarrow> 0 \<le> t \<or> c_list c \<noteq> [] \<Longrightarrow> dispatch os cs r t c = Inl f \<Longrightarrow>
     run_loop os cs (r # rs) t c ws = Inl f"
  "\<not> c_done c \<Longrightarrow> 0 \<le> t \<or> c_list c \<noteq> [] \<Longrightarrow> dispatch os cs r t c = Inr (ret, t', c') \<Longrightarrow>
     run_loop os cs (r # rs) t c ws =
       (if ret < 0 then Inr (Exit_error ret, c', ws @ [t]) else run_loop os cs rs t' c' (ws @ [t]))"
  by (subst run_loop.simps; auto)+

lemma GetEvent_Some:
  assumes "GetEvent fd c = Inr (Some p)"
  obtains n where "c_table c fd = Some n" "node_at n c = Inr p"
  using assms by (auto simp: GetEvent_def split: option.splits sum.splits)

section \<open>Activation\<close>

lemma ConvertEvents_real: "real_events (snd (ConvertEvents x e)) = real_events e"
  by (simp add: ConvertEvents_def Let_def)

lemma ConvertEvents_persist: "has (ev_events (snd (ConvertEvents x e))) EV_PERSIST = has (ev_events e) EV_PERSIST"
proof -
  have m: "has (w AND - 2) 4 = has w 4" "has (w AND - 3) 4 = has w 4" for w :: u32
    using has_and_not_exp [of 2 w 0] has_and_not_exp [of 2 w 1] by simp_all
  show ?thesis
  proof (cases "ready x")
    case True
    then show ?thesis by (simp add: ConvertEvents_snd Let_def m)
  next
    case False
    then show ?thesis using ConvertEvents_not_ready [of x e] by auto
  qed
qed

text \<open>The whole new context, for any conversion of the mask.\<close>

lemma ActiveEvent_io:
  assumes "GetEvent fd c = Inr (Some (Io a))" "GetFd (Io a) c \<noteq> c_sigfd c" "IsPersist (c_ios c a)"
    "ConvertEvents ev (c_ios c a) = (r, e)"
  shows "ActiveEvent os fd ev c = Inr (EDN_OK, Active (Io a) (set_io a (SetRealEvents r e) c))"
    "c_ios (Active (Io a) (set_io a (SetRealEvents r e) c)) a = (SetRealEvents r e)\<lparr>ev_status := ACTIVE\<rparr>"
proof -
  show io: "c_ios (Active (Io a) (set_io a (SetRealEvents r e) c)) a = (SetRealEvents r e)\<lparr>ev_status := ACTIVE\<rparr>"
    by (simp add: Active_def set_io_def pool_enqueue_def)
  obtain n where n: "c_table c fd = Some n" "node_at n c = Inr (Io a)" using assms(1) by (rule GetEvent_Some)
  have "has (ev_events e) EV_PERSIST"
    using ConvertEvents_persist [of ev "c_ios c a"] assms(3) unfolding assms(4) IsPersist_def by simp
  with n assms(2,4) io show "ActiveEvent os fd ev c = Inr (EDN_OK, Active (Io a) (set_io a (SetRealEvents r e) c))"
    by (simp add: ActiveEvent_def events_of_def SetRealEvents_def)
qed

lemma Active_io_sel [simp]:
  "c_pool (Active (Io a) (set_io a e c)) = c_pool c @ [T_handler (Io a)]" "c_list (Active (Io a) (set_io a e c)) = c_list c"
  "c_table (Active (Io a) (set_io a e c)) = c_table c" "c_tg (Active (Io a) (set_io a e c)) = c_tg c"
  "c_has_tg (Active (Io a) (set_io a e c)) = c_has_tg c" "b \<noteq> a \<Longrightarrow> c_ios (Active (Io a) (set_io a e c)) b = c_ios c b"
  by (simp_all add: Active_def set_io_def pool_enqueue_def)

text \<open>C18: Activating a registered persistent I/O event adds what \<open>ConvertEvents\<close> makes of the mask to its pending
  readiness, takes the reported directions out of its interest, marks it active and gives its handler to
  the pool, and leaves every other event, the queue and the table alone.\<close>

theorem activate_io:
  assumes "GetEvent fd c = Inr (Some (Io a))" "GetFd (Io a) c \<noteq> c_sigfd c" "IsPersist (c_ios c a)"
  shows "\<exists>c'. ActiveEvent os fd ev c = Inr (EDN_OK, c') \<and> c_pool c' = c_pool c @ [T_handler (Io a)]
    \<and> real_events (c_ios c' a) = real_events (c_ios c a) OR fst (ConvertEvents ev (c_ios c a))
    \<and> ev_events (c_ios c' a) = ev_events (snd (ConvertEvents ev (c_ios c a))) \<and> ev_status (c_ios c' a) = ACTIVE
    \<and> (\<forall>b. b \<noteq> a \<longrightarrow> c_ios c' b = c_ios c b) \<and> c_list c' = c_list c \<and> c_table c' = c_table c"
proof -
  obtain r e where re: "ConvertEvents ev (c_ios c a) = (r, e)" by fastforce
  have "real_events e = real_events (c_ios c a)" using ConvertEvents_real [of ev "c_ios c a"] re by simp
  with ActiveEvent_io(1) [OF assms re, of os] ActiveEvent_io(2) [OF assms re] re show ?thesis by (simp add: SetRealEvents_def)
qed

theorem activate_io_witness:
  "\<exists>c'. ActiveEvent sample_os 10 (EPOLLIN OR EPOLLOUT) sample_added = Inr (EDN_OK, c')
    \<and> real_events (c_ios c' 0) = EV_CONNECT OR EV_WRITE OR EV_READ"
proof -
  have g: "GetEvent 10 sample_added = Inr (Some (Io 0))" "GetFd (Io 0) sample_added \<noteq> c_sigfd sample_added"
    by (simp_all add: GetEvent_def node_at_def)
  have i: "c_ios sample_added 0 = EdnIOEvent 0 10 True"
    by (simp add: sample_added_def enlist_def Let_def) (simp add: sample_ctx_def)
  have "IsPersist (c_ios sample_added 0)"
    by (simp add: i EdnIOEvent_def EdnIOEvent_cbs_def io_events_mask_def IsPersist_def has_def)
  from activate_io [OF g this, of sample_os "EPOLLIN OR EPOLLOUT"] show ?thesis
    by (auto simp: i EdnIOEvent_def EdnIOEvent_cbs_def ConvertEvents_def has_def SetEvents_def Let_def)
qed

section \<open>Signals\<close>

text \<open>C38: A caught signal faults in the event loop: the activation looks at the event's key, which is never the
  pipe's descriptor, takes the event for an I/O event and uses the null result of the cast.\<close>

theorem signal_dispatch_faults:
  assumes "1 \<le> sig" "sig \<le> 64" "GetEvent (HASH sig) c = Inr (Some (Sg a))" "sig_num (c_sigs c a) = sig" "0 \<le> c_sigfd c"
  shows "DispatchSignal os cs (Pipe_byte (SigHandler sig)) c = Inl Null_deref"
proof -
  obtain n where n: "c_table c (HASH sig) = Some n" "node_at n c = Inr (Sg a)" using assms(3) by (rule GetEvent_Some)
  have "GetFd (Sg a) c \<noteq> c_sigfd c" using assms(1,4,5) by (simp add: GetFd_def signal_GetFd_def HASH_def)
  moreover have "HASH (read_signal cs (SigHandler sig)) = HASH sig"
  proof -
    have "sint (SigHandler sig) = sig" "uint (SigHandler sig) = sig"
      using assms(1,2) by (simp_all add: SigHandler_def signed_of_int signed_take_bit_int_eq_self uint_word_of_int)
    then show ?thesis by (simp add: read_signal_def)
  qed
  ultimately show ?thesis using n by (simp add: DispatchSignal_def ActiveEvent_def)
qed

theorem signal_dispatch_faults_witness:
  "\<exists>c. AddEvent sample_os 1000 (Sg 15) sample_ctx = Inr c
    \<and> DispatchSignal sample_os True (Pipe_byte (SigHandler 15)) c = Inl Null_deref"
proof -
  have f: "GetFd (Sg 15) sample_ctx = - 16"
    by (simp add: GetFd_def sample_ctx_def signal_GetFd_def EdnSignal_def HASH_def)
  let ?c0 = "enlist (Sg 15) sample_ctx"
  have e: "GetFd (Sg 15) ?c0 = - 16" by (simp add: enlist_def Let_def f)
  have s: "sig_num (c_sigs ?c0 15) = 15" "c_sigaction ?c0 = (\<lambda>_. SA_zero)"
    by (simp_all add: enlist_def Let_def) (simp_all add: sample_ctx_def EdnSignal_def)
  obtain c where c: "AddEvent sample_os 1000 (Sg 15) sample_ctx = Inr c"
    and cs: "sig_num (c_sigs c 15) = 15" "c_list c = c_list ?c0" "c_table c = c_table ?c0" "c_sigfd c = 3"
    using e s by (simp add: AddEvent_def epoll_add_signal assert_zero_def sample_os_def)
      (simp add: enlist_def Let_def)
  have "GetEvent (HASH 15) c = Inr (Some (Sg 15))"
    by (simp add: GetEvent_def cs HASH_def) (simp add: enlist_def Let_def f node_at_def cs)
  with signal_dispatch_faults [of 15 c 15 sample_os True] c cs show ?thesis by auto
qed

section \<open>The loop\<close>

text \<open>The loop does not see that \<open>epoll_wait\<close> fails: \<open>dispatch\<close> returns the positive \<open>errno\<close>, the test is for
  negative codes, so an error that persists keeps the loop spinning for as many rounds as there are.\<close>

theorem run_ignores_wait_errors:
  assumes "\<not> c_done c" "0 \<le> t \<or> c_list c \<noteq> []" "\<forall>r\<in>set rs. \<exists>e. rd_wait r = Wait_err e \<and> e \<noteq> EINTR \<and> 0 < errno_num e"
  shows "run_loop os cs rs t c ws = Inl Script_end"
  using assms(3)
proof (induction rs arbitrary: ws)
  case Nil
  show ?case by (rule run_loop_step(3) [OF assms(1,2)])
next
  case (Cons r rs)
  then obtain e where "rd_wait r = Wait_err e" "e \<noteq> EINTR" "0 < errno_num e" by auto
  then have "dispatch os cs r t c = Inr (errno_num e, t, c)" "\<not> errno_num e < 0" by (simp_all add: dispatch_def)
  with Cons show ?case by (simp add: run_loop_step(5) [OF assms(1,2)])
qed

theorem run_ignores_wait_errors_witness:
  "run_loop sample_os True (replicate 3 \<lparr>rd_wait = Wait_err EBADF, rd_pipes = [], rd_clock = []\<rparr>) 50 sample_ctx []
    = Inl Script_end"
  by (rule run_ignores_wait_errors) simp_all

text \<open>One report for a descriptor whose event was deleted meanwhile ends the whole loop, and what else was
  ready in the same batch is dropped.\<close>

theorem run_exits_on_stale_report:
  assumes "\<not> c_done c" "0 \<le> t \<or> c_list c \<noteq> []" "rd_wait r = Wait_events ((fd, ev) # rest)" "fd \<noteq> c_sigfd c"
    "GetEvent fd c = Inr None"
  shows "run_loop os cs (r # rs) t c ws = Inr (Exit_error EDN_ERR_PARAMS_INVALID, c, ws @ [t])"
proof -
  have "c_table c fd = None" using assms(5) by (auto simp: GetEvent_def split: option.splits sum.splits)
  with assms(3,4) have "dispatch os cs r t c = Inr (EDN_ERR_PARAMS_INVALID, t, c)"
    by (simp add: dispatch_def ActiveEvent_def)
  then show ?thesis by (simp add: run_loop_step(5) [OF assms(1,2)])
qed

theorem run_exits_on_stale_report_witness:
  "run_loop sample_os True [\<lparr>rd_wait = Wait_events [(77, EPOLLIN), (10, EPOLLIN)], rd_pipes = [], rd_clock = [0, 0]\<rparr>]
     50 sample_added [] = Inr (Exit_error EDN_ERR_PARAMS_INVALID, sample_added, [50])"
proof -
  have s: "\<not> c_done sample_added" "77 \<noteq> c_sigfd sample_added" by simp_all
  have g: "GetEvent 77 sample_added = Inr None" by (simp add: GetEvent_def)
  show ?thesis by (rule run_exits_on_stale_report [where ws = "[]" and fd = 77 and ev = EPOLLIN
        and rest = "[(10, EPOLLIN)]", simplified append_Nil]) (simp_all add: s g)
qed

text \<open>The loop can end with a timer still armed: the clock is read once to see that the timer is not due and
  again for the timeout, so a timer that becomes due between the two readings gives a negative timeout,
  which means no timer to the loop.\<close>

theorem run_forgets_timer:
  assumes "\<not> c_done c" "c_list c = []" "c_has_tg c" "0 \<le> t" "rd_wait r = Wait_events []" "rd_clock r = [n1, n2]"
    "t_queue (c_tg c) = [a]" "enabled (t_objs (c_tg c) a)" "n1 < expiry (c_tg c) a" "expiry (c_tg c) a < n2"
    "n2 - expiry (c_tg c) a \<le> 2147483648"
  shows "run_loop os cs (r # rs) t c ws = Inr (Exit_no_event, c, ws @ [t]) \<and> armed (c_tg c) = {a}"
proof -
  have "timer_dispatch [n1, n2] (c_tg c) = Inr (expiry (c_tg c) a - n2, [], c_tg c, [])"
    using assms(9-11) by (simp add: timer_dispatch_def dispatch_step(4) [OF assms(7,8,9)] min_timeout_def assms(7))
  then have "dispatch os cs r t c = Inr (EDN_OK, expiry (c_tg c) a - n2, c)"
    using assms(3,5,6) by (simp add: dispatch_def)
  moreover have "0 \<le> t \<or> c_list c \<noteq> []" using assms(4) by simp
  ultimately show ?thesis
    using assms(2,7,8,10) by (auto simp: run_loop_step(5) [OF assms(1)] run_loop_step(2) [OF assms(1)] armed_def)
qed

theorem run_forgets_timer_witness:
  "\<exists>c. AddEvent sample_os 1000 (Tm 2) sample_ctx = Inr c
    \<and> Run sample_os True [1001] [\<lparr>rd_wait = Wait_events [], rd_pipes = [], rd_clock = [1019, 1021]\<rparr>] c
       = Inr (Exit_no_event, c, [19])"
proof -
  let ?c = "sample_ctx\<lparr>c_tg := snd (AddTimer 2 (c_tg sample_ctx))\<rparr>"
  have g: "t_queue (c_tg ?c) = [2]" "enabled (t_objs (c_tg ?c) 2)" "expiry (c_tg ?c) 2 = 1020"
    by (simp_all add: AddTimer_def) (simp_all add: sample_ctx_def EdnTimerGroup_def EdnTimer_def)
  have f: "GetFd (Tm 2) sample_ctx = - 1" "expiry (c_tg sample_ctx) 2 = 1020"
    by (simp_all add: GetFd_def sample_ctx_def EdnTimerGroup_def EdnTimer_def)
  have a: "AddEvent sample_os 1000 (Tm 2) sample_ctx = Inr ?c"
    by (simp add: AddEvent_def assert_zero_def epoll_add_def enlist_def f)
  let ?r = "\<lparr>rd_wait = Wait_events [], rd_pipes = [], rd_clock = [1019, 1021]\<rparr>"
  have "run_loop sample_os True [?r] 19 ?c [] = Inr (Exit_no_event, ?c, [19])"
    using run_forgets_timer [of ?c 19 ?r 1019 1021 2 sample_os True "[]" "[]"] g by simp
  moreover have "GetTimeout [1001] ?c = Inr (19, [])" using g by (simp add: GetTimeout_def GetMinTimeout_def min_timeout_def)
  ultimately have "Run sample_os True [1001] [?r] ?c = Inr (Exit_no_event, ?c, [19])" by (simp add: Run_def)
  with a show ?thesis by blast
qed

text \<open>\<open>done_\<close> is never initialised: if its storage happens to hold a true value, a loop with events and
  timers ends before it waits for anything.\<close>

theorem run_depends_on_garbage:
  assumes "EdnContext os (Some sigfd) (Ret epfd) garbage ts ss ios sa = Inr c" "c_has_tg c"
  shows "Run os cs [] [] c =
    Inr (if garbage then Exit_done else Exit_no_event, c, [])"
proof -
  have c: "c_done c = garbage" "t_queue (c_tg c) = []" "c_list c = []"
    using assms(1) by (auto simp: EdnContext_def EdnEpoll_def Let_def EdnTimerGroup_def split: if_splits sysret.splits)
  then show ?thesis
    using assms(2)
    by (simp add: Run_def GetTimeout_def GetMinTimeout_def min_timeout_def run_loop_step(1,2))
qed

theorem run_depends_on_garbage_witness:
  "\<exists>c :: unit ctx. EdnContext sample_os (Some 3) (Ret 4) True (t_objs (c_tg sample_ctx)) (c_sigs sample_ctx)
      (c_ios sample_ctx) (\<lambda>_. SA_zero) = Inr c \<and> Run sample_os True [] [] c = Inr (Exit_done, c, [])"
proof -
  obtain c where c: "EdnContext sample_os (Some 3) (Ret 4) True (t_objs (c_tg sample_ctx)) (c_sigs sample_ctx)
      (c_ios sample_ctx) (\<lambda>_. SA_zero) = Inr c" "c_has_tg c"
    by (simp add: EdnContext_def EdnEpoll_def sample_os_def)
  from run_depends_on_garbage [OF c, of True] c(1) show ?thesis by auto
qed

end
