(* ===== verification/Edn_Socket_Properties.thy ===== *)
theory Edn_Socket_Properties
  imports Edn_Socket
begin

text \<open>
  What reaches the kernel: the address and port of a bind or connect, and the address a
  connection believes to have.
\<close>

unbundle bit_operations_syntax

lemma swap16_swap16 [simp]: "swap16 (swap16 w) = w"
  by (rule bit_word_eqI) (auto simp: swap16_def bit_simps)

text \<open>The address a text stands for, with the port the kernel is given.\<close>

definition address_of :: "net \<Rightarrow> string \<Rightarrow> int \<Rightarrow> sockaddr option" where
  "address_of net ip port =
     (if IsIpV6 ip then map_option (\<lambda>a. Sin6 a (htons port)) (net_pton6 net ip)
      else map_option (\<lambda>a. Sin a (htons port)) (net_pton4 net ip))"

definition via_address :: "(net \<Rightarrow> int \<Rightarrow> sockaddr \<Rightarrow> int \<times> sys_call list) \<Rightarrow> net \<Rightarrow> int \<Rightarrow> string \<Rightarrow> int \<Rightarrow>
    int \<times> sys_call list" where
  "via_address call net fd ip port =
     (case address_of net ip port of None \<Rightarrow> (EDN_ERR_SYS_ERROR, []) | Some a \<Rightarrow> call net fd a)"

lemma Connect_via_address: "Connect net fd ip port = via_address connect_addr net fd ip port"
  by (auto simp: Connect_def ConnectV4_def ConnectV6_def via_address_def address_of_def IsIpV6_def
      split: option.splits)

text \<open>Ports survive the byte order: what is read back from a port given to the kernel is the argument
  modulo 65536, so ports out of range are wrapped without a word.\<close>

theorem port_roundtrip: "ntohs (htons port) = nat (port mod 65536)"
  by (simp add: ntohs_def htons_def unsigned_of_int take_bit_eq_mod)

text \<open>\<open>Bind\<close> is: parse the text as the family its colons say, fail with a system error if it is no
  address, and bind to what was parsed otherwise. The guards that should skip an empty or a default
  address test for both at once and are never true, so the defaults reach the kernel too.\<close>

theorem bind_is_parse_and_bind: "Bind net fd ip port = via_address bind_addr net fd ip port"
  by (auto simp: Bind_def BindV4_def BindV6_def via_address_def address_of_def IsIpV6_def split: option.splits)

text \<open>The addresses of an established IPv4 connection are both the local one: \<open>inet_ntoa\<close> returns its static
  buffer twice, and the peer's address is overwritten before it is copied.\<close>

theorem real_info_loses_peer:
  assumes "net_peername net fd = Some (a, p)" "net_sockname net fd = Some (la, lp)"
  shows "GetRealConnectInfo net fd False =
    Inr \<lparr>src_ip = Some (inet_ntoa la), src_port = ntohs lp, dst_ip = Some (inet_ntoa la), dst_port = ntohs p\<rparr>"
  using assms by (simp add: GetRealConnectInfo_def Let_def copy_connect_info_def cstr_read_def)

text \<open>A kernel for the witnesses: descriptor 5, everything succeeds or is in progress.\<close>

definition sample_net :: net where
  "sample_net =
     \<lparr>net_socket = (\<lambda>_. Ret 5), net_dgram = Ret 6, net_getfl = (\<lambda>_. 2),
      net_connect = (\<lambda>_ a. case a of Sin _ _ \<Rightarrow> Err EINPROGRESS | Sin6 _ _ \<Rightarrow> Err (EOTHER 97)),
      net_bind = (\<lambda>_ _. Ret 0), net_close = (\<lambda>_. Ret 0), net_fionread = (\<lambda>_. Ret 3), net_eth0 = None,
      net_ifaddrs = Some [If_null, If_inet6 1, If_inet (In4 127 0 0 1)],
      net_pton4 = (\<lambda>s. if s = ''10.0.0.2'' then Some (In4 10 0 0 2)
         else if s = ''0.0.0.0'' then Some (In4 0 0 0 0) else None),
      net_pton6 = (\<lambda>s. Some 1), net_ntop6 = (\<lambda>_. ''fe80::1''),
      net_peername = (\<lambda>_. Some (In4 10 0 0 2, htons 80)), net_sockname = (\<lambda>_. Some (In4 10 0 0 1, htons 4000)),
      net_peername6 = (\<lambda>_. None), net_sockname6 = (\<lambda>_. None)\<rparr>"

theorem real_info_loses_peer_witness:
  "\<exists>i. GetRealConnectInfo sample_net 5 False = Inr i \<and> dst_ip i = Some ''10.0.0.1'' \<and> dst_port i = 80"
proof -
  have n: "net_peername sample_net 5 = Some (In4 10 0 0 2, htons 80)"
    "net_sockname sample_net 5 = Some (In4 10 0 0 1, htons 4000)" by (simp_all add: sample_net_def)
  have "inet_ntoa (In4 10 0 0 1) = ''10.0.0.1''" by code_simp
  with real_info_loses_peer [OF n] show ?thesis by (simp add: port_roundtrip)
qed

text \<open>\<open>GetDefaultIpV4\<close> gives back the descriptor it opens exactly when the query of the interface succeeds:
  every call on a host without \<open>eth0\<close> leaves one more socket open.\<close>

theorem default_ip_leaks:
  assumes "net_dgram net = Ret fd"
  shows "(Sys_close fd \<in> set (snd (GetDefaultIpV4 net))) = (net_eth0 net \<noteq> None)
    \<and> Sys_dgram \<in> set (snd (GetDefaultIpV4 net))"
  using assms by (auto simp: GetDefaultIpV4_def split: option.splits)

theorem default_ip_leaks_witness: "Sys_close 6 \<notin> set (snd (GetDefaultIpV4 sample_net))"
proof -
  have "net_dgram sample_net = Ret 6" by (simp add: sample_net_def)
  from default_ip_leaks [OF this] show ?thesis by (simp add: sample_net_def)
qed

end
