(* ===== verification/Edn_Connect_Properties.thy ===== *)
theory Edn_Connect_Properties
  imports Edn_Connect Edn_Buffer_Properties Edn_Loop_Properties Edn_Socket_Properties
begin

text \<open>
  Connections: what each operation does to the shared state and what it leaves alone, how addresses are
  normalised, what a connected socket does to the table of connections, and the two ends of the write path,
  a short write and a failed one.
\<close>

section \<open>What the updates leave alone\<close>

lemma io_at_upd [simp]: "io_at b (upd_io a f w) = (if b = a then f (io_at a w) else io_at b w)"
  by (simp add: upd_io_def set_io_def)

lemma upd_io_sel [simp]:
  "w_table (upd_io a f w) = w_table w" "w_uuid (upd_io a f w) = w_uuid w" "w_io (upd_io a f w) = w_io w"
  "w_tm (upd_io a f w) = w_tm w" "w_timeout (upd_io a f w) = w_timeout w" "w_send (upd_io a f w) = w_send w"
  "w_recv (upd_io a f w) = w_recv w" "w_sys (upd_io a f w) = w_sys w" "w_wire (upd_io a f w) = w_wire w"
  "w_data (upd_io a f w) = w_data w" "w_cbs (upd_io a f w) = w_cbs w"
  by (simp_all add: upd_io_def)

lemma ctx_upd_io [simp]:
  "c_list (w_ctx (upd_io a f w)) = c_list (w_ctx w)" "c_table (w_ctx (upd_io a f w)) = c_table (w_ctx w)"
  "c_next (w_ctx (upd_io a f w)) = c_next (w_ctx w)" "c_tg (w_ctx (upd_io a f w)) = c_tg (w_ctx w)"
  "c_has_tg (w_ctx (upd_io a f w)) = c_has_tg (w_ctx w)" "c_sigs (w_ctx (upd_io a f w)) = c_sigs (w_ctx w)"
  "c_sigfd (w_ctx (upd_io a f w)) = c_sigfd (w_ctx w)" "c_ctl (w_ctx (upd_io a f w)) = c_ctl (w_ctx w)"
  "c_pool (w_ctx (upd_io a f w)) = c_pool (w_ctx w)"
  by (simp_all add: upd_io_def set_io_def)

lemma io_at_upd_conn [simp]:
  "io_at b (upd_conn a f w) = (if b = a then (io_at a w)\<lparr>as_connect := map_option f (as_connect (io_at a w))\<rparr> else io_at b w)"
  by (simp add: upd_conn_def)

lemma upd_conn_sel [simp]:
  "w_table (upd_conn a f w) = w_table w" "w_uuid (upd_conn a f w) = w_uuid w" "w_io (upd_conn a f w) = w_io w"
  "w_tm (upd_conn a f w) = w_tm w" "w_timeout (upd_conn a f w) = w_timeout w" "w_send (upd_conn a f w) = w_send w"
  "w_recv (upd_conn a f w) = w_recv w" "w_sys (upd_conn a f w) = w_sys w" "w_wire (upd_conn a f w) = w_wire w"
  "w_data (upd_conn a f w) = w_data w" "w_cbs (upd_conn a f w) = w_cbs w"
  "c_list (w_ctx (upd_conn a f w)) = c_list (w_ctx w)" "c_table (w_ctx (upd_conn a f w)) = c_table (w_ctx w)"
  "c_next (w_ctx (upd_conn a f w)) = c_next (w_ctx w)" "c_tg (w_ctx (upd_conn a f w)) = c_tg (w_ctx w)"
  "c_has_tg (w_ctx (upd_conn a f w)) = c_has_tg (w_ctx w)" "c_sigs (w_ctx (upd_conn a f w)) = c_sigs (w_ctx w)"
  "c_sigfd (w_ctx (upd_conn a f w)) = c_sigfd (w_ctx w)" "c_ctl (w_ctx (upd_conn a f w)) = c_ctl (w_ctx w)"
  "c_pool (w_ctx (upd_conn a f w)) = c_pool (w_ctx w)"
  by (simp_all add: upd_conn_def)

lemma run_cbs_sel [simp]:
  "w_ctx (run_cbs cs w) = w_ctx w" "w_table (run_cbs cs w) = w_table w" "w_sys (run_cbs cs w) = w_sys w"
  "w_wire (run_cbs cs w) = w_wire w" "w_io (run_cbs cs w) = w_io w" "w_send (run_cbs cs w) = w_send w"
  "w_cbs (run_cbs cs w) = w_cbs w @ map (\<lambda>(c, err). (c, edn_code err)) cs"
  by (simp_all add: run_cbs_def)

lemma syscalls_sel [simp]:
  "w_ctx (syscalls cs w) = w_ctx w" "w_table (syscalls cs w) = w_table w" "w_sys (syscalls cs w) = w_sys w @ cs"
  "w_wire (syscalls cs w) = w_wire w" "w_io (syscalls cs w) = w_io w" "w_send (syscalls cs w) = w_send w"
  "w_cbs (syscalls cs w) = w_cbs w" "w_uuid (syscalls cs w) = w_uuid w" "w_tm (syscalls cs w) = w_tm w"
  "w_timeout (syscalls cs w) = w_timeout w" "w_recv (syscalls cs w) = w_recv w" "w_data (syscalls cs w) = w_data w"
  by (simp_all add: syscalls_def)

lemma deref_simps [simp]: "deref (Some x) = Inr x" "deref None = Inl Null_deref"
  by (simp_all add: deref_def)

lemma the_conn_Some [simp]: "as_connect (io_at a w) = Some p \<Longrightarrow> the_conn a w = Inr p"
  by (simp add: the_conn_def)

lemma with_ctx_Inr: "with_ctx f w = Inr w' \<longleftrightarrow> (\<exists>c. f (w_ctx w) = Inr c \<and> w' = w\<lparr>w_ctx := c\<rparr>)"
  by (cases "f (w_ctx w)") (auto simp: with_ctx_def)

section \<open>Registering again\<close>

text \<open>What \<open>add\<close> does for a descriptor: a successful call is recorded with the interest the event has.\<close>

lemma epoll_add_io:
  assumes "0 \<le> ev_fd (c_ios c a)"
  shows "\<exists>ret ctls. epoll_add os now (Io a) c = Inr (ret, c\<lparr>c_ctl := c_ctl c @ ctls\<rparr>)
    \<and> set ctls \<subseteq> {CTL_ADD, CTL_MOD} \<times> {ev_fd (c_ios c a)} \<times> {GetEvents (c_ios c a)}
    \<and> (ret = EDN_OK \<longleftrightarrow> ctls \<noteq> []) \<and> ret \<in> {EDN_OK, EDN_ERR_SYS_ERROR}"
proof -
  let ?fd = "ev_fd (c_ios c a)" and ?ev = "GetEvents (c_ios c a)"
  have fd: "GetFd (Io a) c = ?fd" "?fd \<noteq> - 1" "\<not> ?fd < 0" "convert_events (events_of (Io a) c) = ?ev"
    using assms by (simp_all add: GetFd_def events_of_def GetEvents_def)
  show ?thesis
  proof (cases "os_ctl os CTL_ADD ?fd ?ev")
    case (Ret r)
    with fd show ?thesis by (intro exI [of _ EDN_OK] exI [of _ "[(CTL_ADD, ?fd, ?ev)]"]) (simp add: epoll_add_def ctl_def)
  next
    case (Err e)
    have err: "c = c\<lparr>c_ctl := c_ctl c @ []\<rparr>" by simp
    show ?thesis
    proof (cases "e = EEXIST")
      case True
      show ?thesis
      proof (cases "os_ctl os CTL_MOD ?fd ?ev")
        case (Ret r)
        with fd Err True show ?thesis
          by (intro exI [of _ EDN_OK] exI [of _ "[(CTL_MOD, ?fd, ?ev)]"]) (simp add: epoll_add_def ctl_def)
      next
        case (Err e2)
        with fd True \<open>os_ctl os CTL_ADD ?fd ?ev = Err e\<close> show ?thesis
          by (intro exI [of _ EDN_ERR_SYS_ERROR] exI [of _ "[]"]) (simp add: epoll_add_def ctl_def)
      qed
    next
      case False
      with fd Err show ?thesis
        by (intro exI [of _ EDN_ERR_SYS_ERROR] exI [of _ "[]"]) (simp add: epoll_add_def ctl_def)
    qed
  qed
qed

lemma add_again_io:
  assumes "0 \<le> fd_at a w"
  obtains ret ctls where "add_again env a w = Inr (ret, w\<lparr>w_ctx := (w_ctx w)\<lparr>c_ctl := c_ctl (w_ctx w) @ ctls\<rparr>\<rparr>)"
    "set ctls \<subseteq> {CTL_ADD, CTL_MOD} \<times> {fd_at a w} \<times> {GetEvents (io_at a w)}" "ret = EDN_OK \<longleftrightarrow> ctls \<noteq> []"
    "ret \<in> {EDN_OK, EDN_ERR_SYS_ERROR}"
proof -
  from epoll_add_io [OF assms, of "e_os env" 0] obtain ret ctls where
    "epoll_add (e_os env) 0 (Io a) (w_ctx w) = Inr (ret, (w_ctx w)\<lparr>c_ctl := c_ctl (w_ctx w) @ ctls\<rparr>)"
    "set ctls \<subseteq> {CTL_ADD, CTL_MOD} \<times> {fd_at a w} \<times> {GetEvents (io_at a w)}" "ret = EDN_OK \<longleftrightarrow> ctls \<noteq> []"
    "ret \<in> {EDN_OK, EDN_ERR_SYS_ERROR}" by blast
  then show thesis by (intro that [of ret ctls]) (simp_all add: add_again_def)
qed

section \<open>Closing\<close>

lemma DelEvent_timer:
  assumes "ev_fd (t_objs (c_tg c) t) = INVALID_FD" "c_has_tg c"
  shows "DelEvent os (Some (Tm t)) c =
    (case DelTimer t (c_tg c) of Inl f \<Rightarrow> Inl f | Inr (code, g) \<Rightarrow> Inr (c\<lparr>c_tg := g\<rparr>))"
  using assms by (simp add: DelEvent_def delist_def GetFd_def assert_zero_def epoll_del_def split: sum.splits prod.splits)

text \<open>A connection whose timer is still owed: none, or a timer object without a descriptor.\<close>

definition timer_ok :: "nat \<Rightarrow> world \<Rightarrow> bool" where
  "timer_ok a w \<longleftrightarrow> c_has_tg (w_ctx w) \<and>
     (\<forall>p t. as_connect (io_at a w) = Some p \<longrightarrow> conn_timer p = Some t \<longrightarrow> ev_fd (t_objs (c_tg (w_ctx w)) t) = INVALID_FD)"

lemma conn_Close_Inr:
  assumes "conn_Close env a w = Inr w'" "timer_ok a w"
  obtains p g where "as_connect (io_at a w) = Some p"
    "w' = syscalls (snd (Close (e_net env) (fd_at a w)))
       (if conn_timer p = None then w else SetTimer a None (w\<lparr>w_ctx := (w_ctx w)\<lparr>c_tg := g\<rparr>\<rparr>))"
    "\<forall>t. conn_timer p = Some t \<longrightarrow> (\<exists>code. DelTimer t (c_tg (w_ctx w)) = Inr (code, g))"
proof -
  from assms(1) obtain p where p: "as_connect (io_at a w) = Some p"
    by (cases "as_connect (io_at a w)") (auto simp: conn_Close_def the_conn_def)
  show thesis
  proof (cases "conn_timer p")
    case None
    with assms(1) p show ?thesis by (intro that [of p undefined]) (auto simp: conn_Close_def)
  next
    case (Some t)
    with assms(2) p have t: "ev_fd (t_objs (c_tg (w_ctx w)) t) = INVALID_FD" "c_has_tg (w_ctx w)"
      by (auto simp: timer_ok_def)
    show ?thesis
    proof (cases "DelTimer t (c_tg (w_ctx w))")
      case (Inl f)
      with assms(1) p Some show ?thesis by (simp add: conn_Close_def with_ctx_def DelEvent_timer [OF t])
    next
      case (Inr cg)
      then obtain code g where g: "DelTimer t (c_tg (w_ctx w)) = Inr (code, g)" by (cases cg) auto
      with assms(1) p Some show ?thesis
        by (intro that [of p g]) (auto simp: conn_Close_def with_ctx_def DelEvent_timer [OF t] SetTimer_def)
    qed
  qed
qed

lemma conn_Close_frame:
  assumes "conn_Close env a w = Inr w'" "timer_ok a w"
  shows "w_sys w' = w_sys w @ snd (Close (e_net env) (fd_at a w))" "w_cbs w' = w_cbs w" "w_wire w' = w_wire w"
    "w_table w' = w_table w" "c_list (w_ctx w') = c_list (w_ctx w)" "c_table (w_ctx w') = c_table (w_ctx w)"
    "\<exists>p. as_connect (io_at a w) = Some p \<and> io_at a w' = (io_at a w)\<lparr>as_connect := Some (p\<lparr>conn_timer := None\<rparr>)\<rparr>"
    "b \<noteq> a \<Longrightarrow> io_at b w' = io_at b w" "reg_same (w_ctx w) (w_ctx w')"
proof -
  from assms obtain p g where p: "as_connect (io_at a w) = Some p"
    "w' = syscalls (snd (Close (e_net env) (fd_at a w)))
       (if conn_timer p = None then w else SetTimer a None (w\<lparr>w_ctx := (w_ctx w)\<lparr>c_tg := g\<rparr>\<rparr>))"
    "\<forall>t. conn_timer p = Some t \<longrightarrow> (\<exists>code. DelTimer t (c_tg (w_ctx w)) = Inr (code, g))" by (rule conn_Close_Inr)
  show "w_sys w' = w_sys w @ snd (Close (e_net env) (fd_at a w))" "w_cbs w' = w_cbs w" "w_wire w' = w_wire w"
    "w_table w' = w_table w" "c_list (w_ctx w') = c_list (w_ctx w)" "c_table (w_ctx w') = c_table (w_ctx w)"
    "b \<noteq> a \<Longrightarrow> io_at b w' = io_at b w"
    by (auto simp: p(2) SetTimer_def)
  show "\<exists>p. as_connect (io_at a w) = Some p \<and> io_at a w' = (io_at a w)\<lparr>as_connect := Some (p\<lparr>conn_timer := None\<rparr>)\<rparr>"
    using p(1) by (auto simp: p(2) SetTimer_def)
  show "reg_same (w_ctx w) (w_ctx w')"
  proof (cases "conn_timer p")
    case (Some t)
    with p(3) obtain code where "DelTimer t (c_tg (w_ctx w)) = Inr (code, g)" by blast
    then have g: "\<And>x. ev_fd (t_objs g x) = ev_fd (t_objs (c_tg (w_ctx w)) x)" by (rule DelTimer_fd)
    let ?c = "(w_ctx w)\<lparr>c_tg := g\<rparr>"
    have "reg_same (w_ctx w) ?c" using g by (rule reg_same_tg)
    moreover have "w_ctx w' = set_io a ((c_ios ?c a)\<lparr>as_connect := map_option (\<lambda>p. p\<lparr>conn_timer := None\<rparr>) (as_connect (c_ios ?c a))\<rparr>) ?c"
      using Some by (simp add: p(2) SetTimer_def upd_conn_def upd_io_def)
    moreover have "reg_same ?c (set_io a ((c_ios ?c a)\<lparr>as_connect := map_option (\<lambda>p. p\<lparr>conn_timer := None\<rparr>) (as_connect (c_ios ?c a))\<rparr>) ?c)"
      by (rule reg_same_io) simp
    ultimately show ?thesis using reg_same_trans by metis
  next
    case None
    then show ?thesis by (simp add: p(2))
  qed
qed

section \<open>Addresses\<close>

text \<open>C24: \<open>ConnectInfoNomalize\<close> gives back a deep copy of an address whose source is explicit, and fails on every
  other: the default address it would fill in is the \<open>c_str()\<close> of a temporary that is gone when the address is
  copied, and an address without a destination is copied from null.\<close>

theorem normalize_exact:
  "ConnectInfoNomalize net info =
     (if src_ip info \<in> {None, Some []} then (if dst_ip info = None then Inl Null_deref else Inl Dangling)
      else if src_ip info \<in> {Some ''0.0.0.0'', Some ''::''} then Inl Dangling
      else if dst_ip info = None then Inl Null_deref else Inr info)"
proof -
  have d: "copy_connect_info [] ((raw_of info)\<lparr>raw_src_ip := temp_c_str s\<rparr>) = Inl Dangling" for s
    by (simp add: copy_connect_info_def temp_c_str_def cstr_read_def)
  have e: "copy_connect_info [] (raw_of info) = (if dst_ip info = None then Inl Null_deref else Inr info)"
    if "src_ip info \<noteq> None"
    using that by (cases info) (auto simp: copy_connect_info_def raw_of_def cstr_read_def)
  show ?thesis
    by (cases "src_ip info = None \<or> src_ip info = Some []")
      (auto simp: ConnectInfoNomalize_def Let_def d e if_distrib [where f = "\<lambda>x. raw_of info\<lparr>raw_src_ip := x\<rparr>"] deref_def
        split: option.splits)
qed

lemma normalize_explicit:
  "src_ip info = Some s \<Longrightarrow> s \<notin> {[], ''0.0.0.0'', ''::''} \<Longrightarrow> dst_ip info \<noteq> None \<Longrightarrow> ConnectInfoNomalize net info = Inr info"
  by (cases info) (auto simp: ConnectInfoNomalize_def copy_connect_info_def raw_of_def cstr_read_def Let_def)

lemma normalize_Inr: "ConnectInfoNomalize net info = Inr i \<Longrightarrow> i = info \<and> complete i"
  by (cases info)
    (auto simp: ConnectInfoNomalize_def copy_connect_info_def raw_of_def cstr_read_def Let_def complete_def temp_c_str_def
      deref_def split: if_splits option.splits)

section \<open>A world for the witnesses\<close>

definition sample_env :: env where
  "sample_env =
     \<lparr>e_net = sample_net, e_os = sample_os, e_cfg = default_config, e_hs = length, e_hi = (\<lambda>n. n), e_errno = 115,
      e_errmsg = ''EINPROGRESS'', e_sockopt = True, e_fuel = 100, e_bytes = (\<lambda>_. 0), e_nodes = (\<lambda>_. zero_node)\<rparr>"

lemma sample_env_sel [simp]:
  "e_net sample_env = sample_net" "e_os sample_env = sample_os" "e_cfg sample_env = default_config"
  "e_hs sample_env = length" "e_hi sample_env = (\<lambda>n. n)"
  by (simp_all add: sample_env_def)

text \<open>One connection, on descriptor 5, registered, with its timer in the group.\<close>

definition sample_conn :: "conn_status \<Rightarrow> dyn_io" where
  "sample_conn st =
     (ready_connect sample_env 2 5 (Some 7))
       \<lparr>connect_status := st,
        as_connect := Some \<lparr>input_buffer = Some fresh_buffer, output_buffer = Some (SetCallback_opt (Some 7) fresh_buffer),
                            connect_info = EDN_CONNECT_INFO_INIT, conn_timer = Some 0\<rparr>\<rparr>"

definition sample_world :: "conn_status \<Rightarrow> world" where
  "sample_world st =
     \<lparr>w_ctx = \<lparr>c_tg = snd (AddTimer 0 (EdnTimerGroup (\<lambda>a. EdnTimer (int a + 3) 1000 50 False (Some a)))), c_has_tg = True,
               c_sigs = c_sigs sample_ctx, c_ios = (\<lambda>_. sample_conn st), c_list = [(0, Io 0)], c_next = 1,
               c_table = [5 \<mapsto> 0], c_pool = [], c_sigfd = 3, c_sigaction = (\<lambda>_. SA_zero), c_ctl = [], c_done = False\<rparr>,
      w_table = empty_table, w_uuid = 3, w_io = 1, w_tm = 1, w_timeout = [0 \<mapsto> (0, 7)],
      w_send = (\<lambda>_. [Err EINTR, Ret 2, Err EAGAIN]), w_recv = (\<lambda>_. []), w_sys = [], w_wire = (\<lambda>_. []), w_data = [], w_cbs = []\<rparr>"

lemma sample_conn_sel [simp]:
  "ev_fd (sample_conn st) = 5" "connect_status (sample_conn st) = st"
  "as_connect (sample_conn st) = Some \<lparr>input_buffer = Some fresh_buffer,
     output_buffer = Some (SetCallback_opt (Some 7) fresh_buffer), connect_info = EDN_CONNECT_INFO_INIT, conn_timer = Some 0\<rparr>"
  "ev_events (sample_conn st) = io_events_mask OR EV_ET"
  "read_cb (sample_conn st) = On_read" "write_cb (sample_conn st) = On_write" "conn_cb (sample_conn st) = On_conn"
  by (simp_all add: sample_conn_def ready_connect_def bare_connect_def io_event.defs dyn_io.defs EdnIOEvent_def
      EdnIOEvent_cbs_def Let_def)

lemma sample_world_sel [simp]:
  "c_ios (w_ctx (sample_world st)) a = sample_conn st" "c_list (w_ctx (sample_world st)) = [(0, Io 0)]"
  "c_table (w_ctx (sample_world st)) = [5 \<mapsto> 0]" "c_has_tg (w_ctx (sample_world st))"
  "w_table (sample_world st) = empty_table" "w_send (sample_world st) = (\<lambda>_. [Err EINTR, Ret 2, Err EAGAIN])"
  "w_sys (sample_world st) = []" "w_cbs (sample_world st) = []" "w_wire (sample_world st) = (\<lambda>_. [])"
  "w_io (sample_world st) = 1" "w_timeout (sample_world st) = [0 \<mapsto> (0, 7)]"
  "t_queue (c_tg (w_ctx (sample_world st))) = [0]" "t_map (c_tg (w_ctx (sample_world st))) = [3 \<mapsto> 0]"
  "t_objs (c_tg (w_ctx (sample_world st))) = (\<lambda>a. EdnTimer (int a + 3) 1000 50 False (Some a))"
  by (simp_all add: sample_world_def AddTimer_def EdnTimerGroup_def EdnTimer_def)

lemma EdnTimer_sel [simp]:
  "ev_fd (EdnTimer u n t per cb) = - 1" "ev_uuid (EdnTimer u n t per cb) = u" "enabled (EdnTimer u n t per cb)"
  "timer_cb (EdnTimer u n t per cb) = cb" "expire_time (EdnTimer u n t per cb) = wrap32 (n + t)"
  by (simp_all add: EdnTimer_def)

lemma sample_timer_ok [simp]: "timer_ok 0 (sample_world st)"
  by (simp add: timer_ok_def)

lemma sample_world_inv: "ctx_inv (w_ctx (sample_world st))"
proof -
  have "GetFd (Io 0) (w_ctx (sample_world st)) = 5" "c_next (w_ctx (sample_world st)) = 1"
    by (simp_all add: GetFd_def) (simp add: sample_world_def)
  then show ?thesis by (auto simp: ctx_inv_def)
qed

section \<open>The connect callback\<close>

lemma on_conn_silent: "on_conn env a w = Inr (r, w') \<Longrightarrow> r = EDN_OK \<and> w_cbs w' = w_cbs w"
  by (auto simp: on_conn_def SetConnectInfo_def SetTimer_def try_then_Inr with_ctx_Inr split: if_splits)


lemma DelTimer_disarms:
  assumes "tg_inv g"
  obtains code g' where "DelTimer t g = Inr (code, g')" "t \<notin> armed g'" "tg_inv g'"
  using DelTimer_inv [OF assms, of t] by (auto simp: armed_def)

text \<open>A connect callback that comes to its end: the address is stored, the descriptor entered, the timer disarmed.\<close>

lemma on_conn_done:
  assumes "net_peername (e_net env) (fd_at a w) = Some (ra, rp)" "net_sockname (e_net env) (fd_at a w) = Some (la, lp)"
    "inet_ntoa la \<noteq> ''0.0.0.0''" "as_connect (io_at a w) = Some p" "conn_timer p = Some t" "timer_ok a w"
    "tg_inv (c_tg (w_ctx w))" "table_ok (e_hs env) (e_hi env) (w_table w)"
    and k: "k = \<lparr>src_ip = Some (inet_ntoa la), src_port = ntohs lp, dst_ip = Some (inet_ntoa la), dst_port = ntohs rp\<rparr>"
  obtains g h where "on_conn env a w = Inr (EDN_OK, SetTimer a None ((upd_conn a (connect_info_update (\<lambda>_. k)) w)
      \<lparr>w_table := h, w_ctx := (w_ctx (upd_conn a (connect_info_update (\<lambda>_. k)) w))\<lparr>c_tg := g\<rparr>\<rparr>))"
    "t \<notin> armed g" "table_ok (e_hs env) (e_hi env) h"
    "table_map (e_hs env) (e_hi env) h = (table_map (e_hs env) (e_hi env) (w_table w))(k \<mapsto> fd_at a w)"
proof -
  let ?w1 = "upd_conn a (connect_info_update (\<lambda>_. k)) w"
  have c: "complete k" by (simp add: k complete_def)
  obtain h where h: "table_insert (e_hs env) (e_hi env) k (fd_at a w) (w_table w) = Inr h" "table_ok (e_hs env) (e_hi env) h"
    "table_map (e_hs env) (e_hi env) h = (table_map (e_hs env) (e_hi env) (w_table w))(k \<mapsto> fd_at a w)"
    using table_insert_abs [OF assms(8) c, of "fd_at a w"] by blast
  obtain code g where g: "DelTimer t (c_tg (w_ctx w)) = Inr (code, g)" "t \<notin> armed g"
    by (rule DelTimer_disarms [OF assms(7)])
  have "inet_ntoa la \<noteq> []" "inet_ntoa la \<noteq> ''::''" by (cases la; simp add: inet_ntoa_def)+
  with assms(3) have s: "SetConnectInfo env a k w = Inr ?w1"
    by (simp add: SetConnectInfo_def k normalize_explicit [where s = "inet_ntoa la"])
  have t: "ev_fd (t_objs (c_tg (w_ctx w)) t) = INVALID_FD" "c_has_tg (w_ctx w)"
    using assms(4-6) by (auto simp: timer_ok_def)
  have d: "with_ctx (DelEvent (e_os env) (Some (Tm t))) (?w1\<lparr>w_table := h\<rparr>) =
      Inr (?w1\<lparr>w_table := h, w_ctx := (w_ctx ?w1)\<lparr>c_tg := g\<rparr>\<rparr>)"
    using t by (simp add: with_ctx_def DelEvent_timer g)
  have p: "the_conn a ?w1 = Inr (p\<lparr>connect_info := k\<rparr>)" using assms(4) by (simp add: the_conn_def)
  show thesis
    by (rule that [OF _ g(2) h(2,3)])
      (simp add: on_conn_def real_info_loses_peer [OF assms(1,2)] k [symmetric] s p GetConnectInfo_def GetTimer_def assms(5) h(1) d)
qed

lemma sample_tg_inv: "tg_inv (c_tg (w_ctx (sample_world st)))"
proof -
  have "tg_inv (EdnTimerGroup (\<lambda>a. EdnTimer (int a + 3) 1000 50 False (Some a)))"
    by (rule EdnTimerGroup_inv) (simp add: inj_def)
  then show ?thesis unfolding sample_world_def
    by (simp add: AddTimer_inv EdnTimerGroup_def)
qed

lemma sample_names:
  "net_peername (e_net sample_env) fd = Some (In4 10 0 0 2, htons 80)"
  "net_sockname (e_net sample_env) fd = Some (In4 10 0 0 1, htons 4000)" "inet_ntoa (In4 10 0 0 1) = ''10.0.0.1''"
proof -
  show "inet_ntoa (In4 10 0 0 1) = ''10.0.0.1''" by code_simp
qed (simp_all add: sample_net_def)

lemma sample_on_conn: "\<exists>w'. on_conn sample_env 0 (sample_world CS_CONNECTED) = Inr (EDN_OK, w')"
proof -
  let ?w = "sample_world CS_CONNECTED"
  have p: "as_connect (io_at 0 ?w) = Some \<lparr>input_buffer = Some fresh_buffer,
      output_buffer = Some (SetCallback_opt (Some 7) fresh_buffer), connect_info = EDN_CONNECT_INFO_INIT, conn_timer = Some 0\<rparr>" by simp
  show ?thesis
    by (rule on_conn_done [OF sample_names(1,2) _ p _ sample_timer_ok sample_tg_inv _ refl]) (auto simp: sample_names)
qed


section \<open>The write callback\<close>

lemma SetEvents_as_connect [simp]: "as_connect (SetEvents m x e) = as_connect e"
  by (simp add: SetEvents_def)

lemma convert_events_out: "has (convert_events ev) EPOLLOUT = has ev EV_WRITE"
  by (cases "has ev EV_WRITE"; cases "has ev EV_READ"; cases "has ev EV_SIGNAL"; cases "has ev EV_ET")
    (simp_all add: convert_events_def Let_def, simp_all add: has_def)

lemma GetSize_content:
  assumes "out_inv b" "accounted b"
  shows "GetSize b = int (length (content b))"
proof -
  have "length (content b) < 2147483648"
    using assms(1) by (cases "buf_head b")
      (auto simp: out_inv_def buf_inv_def node_wf_def content_Some content_None)
  with assms(2) show ?thesis by (simp add: GetSize_def accounted_def)
qed

lemma SendAtMost_keeps:
  assumes "out_inv b" "accounted b" "SendAtMost script b = Inr (ret, b', out, rest)"
  shows "out @ content b' = content b \<and> out_inv b' \<and> accounted b'"
proof -
  have "length (content b) < size_max"
    using assms(1) by (cases "buf_head b") (auto simp: out_inv_def buf_inv_def node_wf_def content_Some content_None)
  with SendAtMost_spec [OF assms(1,3)] assms(2) show ?thesis
    by (auto simp: accounted_def dest: arg_cong [where f = length])
qed

text \<open>Bytes that leave the buffer are on the wire, and nothing else of the event changes but its write interest.\<close>

definition written :: "nat \<Rightarrow> edn_buffer \<Rightarrow> world \<Rightarrow> u8 list \<Rightarrow> edn_buffer \<Rightarrow> world \<Rightarrow> bool" where
  "written a b w out b' w' \<longleftrightarrow>
     out @ content b' = content b \<and> out_inv b' \<and> accounted b' \<and> w_wire w' = (w_wire w)(fd_at a w := w_wire w (fd_at a w) @ out)
     \<and> fd_at a w' = fd_at a w \<and> connect_status (io_at a w') = connect_status (io_at a w)
     \<and> ev_events (io_at a w') \<in> {ev_events (io_at a w), ev_events (io_at a w) AND NOT EV_WRITE}
     \<and> (\<exists>p'. as_connect (io_at a w') = Some p' \<and> output_buffer p' = Some b')
     \<and> c_ctl (w_ctx w') = c_ctl (w_ctx w) \<and> c_list (w_ctx w') = c_list (w_ctx w) \<and> c_table (w_ctx w') = c_table (w_ctx w)"

lemma conn_Close_ctl:
  assumes "conn_Close env a w = Inr w'" "timer_ok a w"
  shows "c_ctl (w_ctx w') = c_ctl (w_ctx w)"
  using assms by (rule conn_Close_Inr) (auto simp: SetTimer_def)

text \<open>The three ways \<open>on_write\<close> ends.\<close>

lemma on_write_cases:
  assumes "on_write env a w = Inr (r, w')" "as_connect (io_at a w) = Some p" "output_buffer p = Some b"
    "out_inv b" "accounted b"
  obtains (idle) "content b = []" "r = EDN_OK" "w' = upd_io a (SetEvents EV_WRITE False) w"
  | (failed) ret out b' rest w1 where "SendAtMost (w_send w (fd_at a w)) b = Inr (ret, b', out, rest)" "ret < 0" "r = ret"
      "w1 = upd_conn a (\<lambda>p. p\<lparr>output_buffer := Some b'\<rparr>) (w\<lparr>w_send := (w_send w)(fd_at a w := rest),
         w_wire := (w_wire w)(fd_at a w := w_wire w (fd_at a w) @ out)\<rparr>)" "conn_Close env a w1 = Inr w'"
  | (sent) ret out b' rest w1 cbs where "SendAtMost (w_send w (fd_at a w)) b = Inr (ret, b', out, rest)" "0 \<le> ret" "r = EDN_OK"
      "w1 = upd_conn a (\<lambda>p. p\<lparr>output_buffer := Some b'\<rparr>) (w\<lparr>w_send := (w_send w)(fd_at a w := rest),
         w_wire := (w_wire w)(fd_at a w := w_wire w (fd_at a w) @ out)\<rparr>)"
      "cbs = (if GetLowWaterMark b' = 0 \<or> GetSize b' < GetLowWaterMark b'
              then CallBack \<lparr>edn_code = EDN_OK, sys_code = 0, errmsg = dec_int ret\<rparr> b' else [])"
      "w' = (if content b' = [] then upd_io a (SetEvents EV_WRITE False) (run_cbs cbs w1) else run_cbs cbs w1)"
proof (cases "content b = []")
  case True
  then have "GetSize b = 0" using GetSize_content [OF assms(4,5)] by simp
  with assms(1-3) True show ?thesis by (intro idle) (auto simp: on_write_def)
next
  case False
  then have pos: "0 < GetSize b" using GetSize_content [OF assms(4,5)] by simp
  let ?s = "SendAtMost (w_send w (fd_at a w)) b"
  obtain ret out b' rest where s: "?s = Inr (ret, b', out, rest)"
    using assms(1-3) pos by (cases ?s) (auto simp: on_write_def)
  let ?w = "upd_conn a (\<lambda>p. p\<lparr>output_buffer := Some b'\<rparr>) (w\<lparr>w_send := (w_send w)(fd_at a w := rest),
         w_wire := (w_wire w)(fd_at a w := w_wire w (fd_at a w) @ out)\<rparr>)"
  have nil: "run_cbs [] x = x" for x by (simp add: run_cbs_def)
  note inv = SendAtMost_keeps [OF assms(4,5) s, THEN conjunct2, THEN conjunct1]
    SendAtMost_keeps [OF assms(4,5) s, THEN conjunct2, THEN conjunct2]
  show ?thesis
  proof (cases "ret < 0")
    case True
    with assms(1-3) pos s show ?thesis by (intro failed [of ret b' out rest]) (auto simp: on_write_def Let_def try_then_Inr)
  next
    case False
    with assms(1-3) pos s show ?thesis
      by (intro sent [of ret b' out rest ?w])
        (auto simp: on_write_def Let_def nil GetSize_content [OF inv] split: if_splits)
  qed
qed

lemma on_write_written:
  assumes "on_write env a w = Inr (r, w')" "as_connect (io_at a w) = Some p" "output_buffer p = Some b"
    "out_inv b" "accounted b" "timer_ok a w"
  shows "\<exists>out b'. written a b w out b' w'"
proof -
  note spec = SendAtMost_keeps [OF assms(4,5)]
  from assms(1-5) show ?thesis
  proof (cases rule: on_write_cases)
    case idle
    with assms(2-5) show ?thesis by (intro exI [of _ "[]"] exI [of _ b]) (auto simp: written_def)
  next
    case (failed ret out b' rest w1)
    have "timer_ok a w1" using assms(2,6) by (auto simp: failed(4) timer_ok_def)
    from conn_Close_frame [OF failed(5) this] conn_Close_ctl [OF failed(5) this] spec [OF failed(1)] assms(2)
    show ?thesis by (intro exI [of _ out] exI [of _ b']) (auto simp: written_def failed(4))
  next
    case (sent ret out b' rest w1 cbs)
    from spec [OF sent(1)] assms(2) show ?thesis
      by (intro exI [of _ out] exI [of _ b']) (auto simp: written_def sent(4,6))
  qed
qed

lemma GetFd_Io: "GetFd (Io a) (w_ctx w) = fd_at a w"
  by (simp add: GetFd_def)

text \<open>C29: A short write stalls the connection. The loop has cleared the write interest before the write task runs,
  \<open>on_write\<close> never sets it and the task registers the event as it is: whatever the kernel did not take stays
  buffered, and nothing the task gives to \<open>epoll_ctl\<close> asks for writability.\<close>

theorem short_write_stalls:
  assumes "run_io_task user env a (Write_task On_write) w = Inr w'" "\<not> has (ev_events (io_at a w)) EV_WRITE"
    "as_connect (io_at a w) = Some p" "output_buffer p = Some b" "out_inv b" "accounted b" "timer_ok a w" "0 \<le> fd_at a w"
  shows "\<exists>out b' p' ctls. out @ content b' = content b \<and> w_wire w' (fd_at a w) = w_wire w (fd_at a w) @ out
    \<and> as_connect (io_at a w') = Some p' \<and> output_buffer p' = Some b'
    \<and> c_ctl (w_ctx w') = c_ctl (w_ctx w) @ ctls \<and> (\<forall>c\<in>set ctls. \<not> has (snd (snd c)) EPOLLOUT)
    \<and> \<not> has (GetEvents (io_at a w')) EPOLLOUT"
proof -
  from assms(1) obtain r w1 where w1: "on_write env a w = Inr (r, w1)" "rearm env a (Write_task On_write) w1 = Inr w'"
    by (auto simp: run_io_task_def run_cb_def try_then_Inr)
  from on_write_written [OF w1(1) assms(3-7)] obtain out b' where wr: "written a b w out b' w1" by blast
  have clear: "\<not> has (ev_events (io_at a w1)) EV_WRITE" using wr assms(2) by (auto simp: written_def)
  have same: "upd_io a (task_rearm (Write_task On_write)) w1 = w1" by (simp add: upd_io_def set_io_def)
  have "0 \<le> fd_at a w1" using wr assms(8) by (simp add: written_def)
  then obtain ret ctls where c: "add_again env a w1 = Inr (ret, w1\<lparr>w_ctx := (w_ctx w1)\<lparr>c_ctl := c_ctl (w_ctx w1) @ ctls\<rparr>\<rparr>)"
    "set ctls \<subseteq> {CTL_ADD, CTL_MOD} \<times> {fd_at a w1} \<times> {GetEvents (io_at a w1)}" by (rule add_again_io)
  have w': "w' = w1\<lparr>w_ctx := (w_ctx w1)\<lparr>c_ctl := c_ctl (w_ctx w1) @ ctls\<rparr>\<rparr>"
    using w1(2) same c(1) by (simp add: rearm_def)
  have "\<not> has (GetEvents (io_at a w1)) EPOLLOUT" using clear convert_events_out by (simp only: GetEvents_def not_False_eq_True)
  moreover from this c(2) have "\<forall>c\<in>set ctls. \<not> has (snd (snd c)) EPOLLOUT" by auto
  moreover have "out @ content b' = content b" "w_wire w1 (fd_at a w) = w_wire w (fd_at a w) @ out"
    "c_ctl (w_ctx w1) = c_ctl (w_ctx w)" using wr by (simp_all add: written_def)
  moreover obtain p' where "as_connect (io_at a w1) = Some p'" "output_buffer p' = Some b'"
    using wr by (auto simp: written_def)
  ultimately show ?thesis
    by (intro exI [of _ out] exI [of _ b'] exI [of _ p'] exI [of _ ctls]) (simp add: w')
qed

text \<open>The sample connection with a message in its output buffer, as the loop leaves it when it is writable.\<close>

definition pending_world :: "edn_buffer \<Rightarrow> world" where
  "pending_world b =
     upd_conn 0 (\<lambda>p. p\<lparr>output_buffer := Some b\<rparr>) (upd_io 0 (SetEvents EV_WRITE False) (sample_world CS_WRITE))"

lemma pending_world_sel [simp]:
  "as_connect (io_at 0 (pending_world b)) = Some \<lparr>input_buffer = Some fresh_buffer, output_buffer = Some b,
     connect_info = EDN_CONNECT_INFO_INIT, conn_timer = Some 0\<rparr>"
  "fd_at 0 (pending_world b) = 5" "\<not> has (ev_events (io_at 0 (pending_world b))) EV_WRITE"
  "w_send (pending_world b) = (\<lambda>_. [Err EINTR, Ret 2, Err EAGAIN])" "w_wire (pending_world b) = (\<lambda>_. [])"
  "timer_ok 0 (pending_world b)" "w_cbs (pending_world b) = []" "w_sys (pending_world b) = []"
  by (simp_all add: pending_world_def timer_ok_def)

lemma pending_buffer:
  obtains b b' where "out_inv b" "accounted b" "content b = [1, 2, 3]"
    "SendAtMost [Err EINTR, Ret 2, Err EAGAIN] b = Inr (2, b', [1, 2], [])" "content b' = [3]"
proof -
  have f: "fits_block default_config [1, 2, 3]" by (simp add: fits_block_def)
  from write_ready [OF default_config_wf fresh_out_ready f] obtain b where b:
    "out_inv b" "content b = [1, 2, 3]" "accounted b" "buf_head b = Some 0" by blast
  from short_write_run [OF b(1,2) _ b(4)] obtain b' out where
    s: "SendAtMost [Err EINTR, Ret 2, Err EAGAIN] b = Inr (2, b', out, [])" by auto
  have l: "out @ content b' = [1, 2, 3]" "length out = 2" using SendAtMost_spec(1,3) [OF b(1) s] b(2) by auto
  from l(2) obtain x y where "out = [x, y]" by (auto simp: length_Suc_conv numeral_2_eq_2)
  with l(1) have "out = [1, 2]" "content b' = [3]" by simp_all
  with s b that show thesis by blast
qed

lemma on_write_sent:
  assumes "as_connect (io_at a w) = Some p" "output_buffer p = Some b" "out_inv b" "accounted b" "content b \<noteq> []"
    "SendAtMost (w_send w (fd_at a w)) b = Inr (ret, b', out, rest)" "0 \<le> ret"
  obtains w' where "on_write env a w = Inr (EDN_OK, w')" "w_wire w' (fd_at a w) = w_wire w (fd_at a w) @ out"
    "w_cbs w' = w_cbs w @ (if GetLowWaterMark b' = 0 \<or> GetSize b' < GetLowWaterMark b'
       then map (\<lambda>c. (c, EDN_OK)) (case opt_cb b' of None \<Rightarrow> [] | Some c \<Rightarrow> [c]) else [])"
    "fd_at a w' = fd_at a w" "timer_ok a w \<Longrightarrow> timer_ok a w'"
proof -
  have pos: "0 < GetSize b" using GetSize_content [OF assms(3,4)] assms(5) by simp
  let ?w1 = "upd_conn a (\<lambda>p. p\<lparr>output_buffer := Some b'\<rparr>) (w\<lparr>w_send := (w_send w)(fd_at a w := rest),
         w_wire := (w_wire w)(fd_at a w := w_wire w (fd_at a w) @ out)\<rparr>)"
  let ?w2 = "if GetLowWaterMark b' = 0 \<or> GetSize b' < GetLowWaterMark b'
             then run_cbs (CallBack \<lparr>edn_code = EDN_OK, sys_code = 0, errmsg = dec_int ret\<rparr> b') ?w1 else ?w1"
  let ?w3 = "if GetSize b' = 0 then upd_io a (SetEvents EV_WRITE False) ?w2 else ?w2"
  show thesis
  proof (rule that [of ?w3])
    show "on_write env a w = Inr (EDN_OK, ?w3)" using assms(1,2,6,7) pos by (simp add: on_write_def Let_def)
    show "timer_ok a ?w3" if "timer_ok a w" using that assms(1) by (simp add: timer_ok_def)
  qed (simp_all add: CallBack_def split: option.splits)
qed

theorem short_write_stalls_witness:
  "\<exists>b w'. content b = [1, 2, 3]
    \<and> run_io_task (\<lambda>n a w. Inr (0, w)) sample_env 0 (Write_task On_write) (pending_world b) = Inr w'
    \<and> w_wire w' 5 = [1, 2] \<and> \<not> has (GetEvents (io_at 0 w')) EPOLLOUT"
proof -
  let ?user = "\<lambda>(n::nat) (a::nat) (w::world). Inr (0, w) :: fault + (int \<times> world)"
  obtain b b' where b: "out_inv b" "accounted b" "content b = [1, 2, 3]"
    "SendAtMost [Err EINTR, Ret 2, Err EAGAIN] b = Inr (2, b', [1, 2], [])" "content b' = [3]" by (rule pending_buffer)
  have p: "as_connect (io_at 0 (pending_world b)) = Some \<lparr>input_buffer = Some fresh_buffer, output_buffer = Some b,
     connect_info = EDN_CONNECT_INFO_INIT, conn_timer = Some 0\<rparr>" "content b \<noteq> []" using b(3) by simp_all
  have s: "SendAtMost (w_send (pending_world b) (fd_at 0 (pending_world b))) b = Inr (2, b', [1, 2], [])"
    using b(4) by simp
  obtain w1 where w1: "on_write sample_env 0 (pending_world b) = Inr (EDN_OK, w1)" "w_wire w1 5 = [1, 2]" "fd_at 0 w1 = 5"
    by (rule on_write_sent [OF p(1) _ b(1,2) p(2) s]) simp_all
  have same: "upd_io 0 (task_rearm (Write_task On_write)) w1 = w1" by (simp add: upd_io_def set_io_def)
  obtain ret ctls where "add_again sample_env 0 w1 = Inr (ret, w1\<lparr>w_ctx := (w_ctx w1)\<lparr>c_ctl := c_ctl (w_ctx w1) @ ctls\<rparr>\<rparr>)"
    by (rule add_again_io [where a = 0 and w = w1 and env = sample_env]) (simp_all add: w1(3))
  with same obtain w' where "rearm sample_env 0 (Write_task On_write) w1 = Inr w'" "w_wire w' 5 = [1, 2]"
    by (simp add: rearm_def w1(2))
  then have r: "run_io_task ?user sample_env 0 (Write_task On_write) (pending_world b) = Inr w'" "w_wire w' 5 = [1, 2]"
    using w1(1) by (simp_all add: run_io_task_def run_cb_def)
  from short_write_stalls [OF r(1) pending_world_sel(3) p(1) _ b(1,2)] r b(3) show ?thesis by auto
qed

lemma GetEvent_same: "c_list c' = c_list c \<Longrightarrow> c_table c' = c_table c \<Longrightarrow> GetEvent fd c' = GetEvent fd c"
  by (simp add: GetEvent_def node_at_def split: option.split)

text \<open>C30: A failed send is silent: \<open>on_write\<close> closes the descriptor and returns, no completion callback runs, and the
  connection stays registered under the number of the closed descriptor, where \<open>GetEvent\<close> goes on to find it.\<close>

theorem send_error_silent:
  assumes "on_write env a w = Inr (r, w')" "r \<noteq> EDN_OK" "as_connect (io_at a w) = Some p" "output_buffer p = Some b"
    "out_inv b" "accounted b" "timer_ok a w" "fd_at a w \<noteq> INVALID_FD"
  shows "w_sys w' = w_sys w @ [Sys_close (fd_at a w)] \<and> w_cbs w' = w_cbs w \<and> fd_at a w' = fd_at a w
    \<and> GetEvent (fd_at a w) (w_ctx w') = GetEvent (fd_at a w) (w_ctx w)"
  using assms(1,3-6)
proof (cases rule: on_write_cases)
  case (failed ret out b' rest w1)
  have "timer_ok a w1" using assms(3,7) by (auto simp: failed(4) timer_ok_def)
  note f = conn_Close_frame [OF failed(5) this]
  have "snd (Close (e_net env) (fd_at a w)) = [Sys_close (fd_at a w)]"
    using assms(8) by (simp add: Close_def split: sysret.split)
  with f assms(3) show ?thesis
    by (auto simp: failed(4) intro!: GetEvent_same)
qed (use assms(2) in simp_all)

lemma send_fails: "out_inv b \<Longrightarrow> content b \<noteq> [] \<Longrightarrow> SendAtMost [Err EBADF] b = Inr (EDN_ERR_SYS_ERROR, b, [], [])"
  by (cases "buf_head b")
    (auto simp: out_inv_def buf_inv_def SendAtMost_def content_Some content_None node_ok_def data_ok_def node_wf_def intro!: gr0I)

theorem send_error_silent_witness:
  "\<exists>b w'. content b = [1, 2, 3]
    \<and> on_write sample_env 0 ((pending_world b)\<lparr>w_send := (\<lambda>_. [Err EBADF])\<rparr>) = Inr (EDN_ERR_SYS_ERROR, w')
    \<and> w_sys w' = [Sys_close 5] \<and> w_cbs w' = []"
proof -
  obtain b b' where b: "out_inv b" "accounted b" "content b = [1, 2, 3]" by (rule pending_buffer)
  let ?w = "(pending_world b)\<lparr>w_send := (\<lambda>_. [Err EBADF])\<rparr>"
  have s: "SendAtMost [Err EBADF] b = Inr (EDN_ERR_SYS_ERROR, b, [], [])" using b by (intro send_fails) simp_all
  have g: "0 < GetSize b" using GetSize_content [OF b(1,2)] b(3) by simp
  have t: "timer_ok 0 ?w" using pending_world_sel(6) [of b] by (simp add: timer_ok_def)
  have d: "DelEvent os (Some (Tm 0)) (w_ctx x) = (case DelTimer 0 (c_tg (w_ctx x)) of Inl f \<Rightarrow> Inl f
     | Inr (code, g) \<Rightarrow> Inr ((w_ctx x)\<lparr>c_tg := g\<rparr>))" if "c_tg (w_ctx x) = c_tg (w_ctx (sample_world CS_WRITE))"
    "c_has_tg (w_ctx x)" for os and x :: world
    using that by (intro DelEvent_timer) simp_all
  obtain w' where w': "on_write sample_env 0 ?w = Inr (EDN_ERR_SYS_ERROR, w')"
    by (simp add: on_write_def g s conn_Close_def with_ctx_def d pending_world_def DelTimer_def Let_def)
  from send_error_silent [OF w' _ _ _ b(1,2) t] w' b(3) show ?thesis by auto
qed

section \<open>Accepting a message\<close>

lemma SetCallback_opt_sel [simp]:
  "content (SetCallback_opt cb b) = content b" "buf_inv (SetCallback_opt cb b) = buf_inv b"
  "out_inv (SetCallback_opt cb b) = out_inv b" "out_ready cfg (SetCallback_opt cb b) = out_ready cfg b"
  "opt_cb (SetCallback_opt cb b) = cb" "low_water_mark (SetCallback_opt cb b) = low_water_mark b"
  by (simp_all add: SetCallback_opt_def content_def buf_inv_def out_inv_def out_ready_def Let_def split: option.split)

text \<open>A message into an empty output buffer: what is registered, and what did not happen yet.\<close>

lemma SendData_ready:
  assumes "wf_config (e_cfg env)" "as_connect (io_at a w) = Some p" "output_buffer p = Some b" "out_ready (e_cfg env) b"
    "fits_block (e_cfg env) d" "connect_status (io_at a w) \<in> {CS_CONNECTED, CS_READ, CS_WRITE}" "0 \<le> fd_at a w"
  obtains ret w1 b1 where "SendData env a (Some d) (length d) cb w = Inr (ret, w1)"
    "as_connect (io_at a w1) = Some (p\<lparr>output_buffer := Some b1\<rparr>)" "out_inv b1" "accounted b1" "content b1 = d"
    "buf_head b1 = Some 0" "buf_capacity b1 = buf_capacity b" "opt_cb b1 = cb" "low_water_mark b1 = low_water_mark b"
    "has (ev_events (io_at a w1)) EV_WRITE" "fd_at a w1 = fd_at a w" "w_wire w1 = w_wire w" "w_cbs w1 = w_cbs w"
    "w_send w1 = w_send w" "ret = EDN_OK \<or> ret = EDN_ERR_SYS_ERROR"
proof -
  have r: "out_ready (e_cfg env) (SetCallback_opt cb b)" using assms(4) by simp
  from write_ready [OF assms(1) r assms(5)] obtain b1 where b1:
    "buf_write (e_cfg env) d (SetCallback_opt cb b) = Inr (EDN_OK, b1)" "out_inv b1" "content b1 = d" "accounted b1"
    "buf_head b1 = Some 0" "buf_capacity b1 = buf_capacity (SetCallback_opt cb b)" "opt_cb b1 = cb"
    "low_water_mark b1 = low_water_mark b" by auto
  have d: "d \<noteq> []" using assms(5) by (simp add: fits_block_def)
  then have g: "0 < GetSize b1" using GetSize_content [OF b1(2,4)] b1(3) by simp
  have st: "\<not> status_num (connect_status (io_at a w)) < status_num CS_CONNECTED"
    "\<not> status_num CS_WRITE < status_num (connect_status (io_at a w))" using assms(6) by auto
  let ?w1 = "upd_conn a (\<lambda>p. p\<lparr>output_buffer := Some b1\<rparr>) w"
  have cap: "buf_capacity b1 = buf_capacity b" using b1(6) by (simp add: SetCallback_opt_def)
  show thesis
  proof (cases "has (ev_events (io_at a w)) EV_WRITE")
    case True
    have "SendData env a (Some d) (length d) cb w = Inr (EDN_OK, ?w1)"
      using assms(2,3) d st g True by (simp add: SendData_def b1(1))
    with assms(2) b1 cap True show thesis by (intro that [of EDN_OK ?w1 b1]) simp_all
  next
    case False
    let ?w2 = "upd_io a (SetEvents EV_WRITE True) ?w1"
    have "0 \<le> fd_at a ?w2" using assms(7) by simp
    then obtain ret ctls where c: "add_again env a ?w2 = Inr (ret, ?w2\<lparr>w_ctx := (w_ctx ?w2)\<lparr>c_ctl := c_ctl (w_ctx ?w2) @ ctls\<rparr>\<rparr>)"
      "ret \<in> {EDN_OK, EDN_ERR_SYS_ERROR}" by (rule add_again_io)
    let ?w3 = "?w2\<lparr>w_ctx := (w_ctx ?w2)\<lparr>c_ctl := c_ctl (w_ctx ?w2) @ ctls\<rparr>\<rparr>"
    have "SendData env a (Some d) (length d) cb w = Inr (ret, ?w3)"
      using assms(2,3) d st g False c by (auto simp: SendData_def b1(1) Let_def simp del: upd_io_sel ctx_upd_io)
    moreover have "has (ev_events (io_at a ?w3)) EV_WRITE" by (simp add: has_def)
    ultimately show thesis using assms(2) b1 cap c(2) by (intro that [of ret ?w3 b1]) simp_all
  qed
qed

end
