(* ===== verification/Edn_Api_Properties.thy ===== *)
theory Edn_Api_Properties
  imports Edn_Api Edn_Connect_Properties
begin

text \<open>
  The C interface over the whole stack: what a caller of \<open>edn_connect\<close>, \<open>edn_send_data\<close> and \<open>edn_close\<close> gets,
  with the event loop and the workers running beside the calls.
\<close>

section \<open>Connection ids\<close>

lemma find_conn_Some:
  "find_conn cid w = Inr (Some a) \<longleftrightarrow> GetEvent cid (w_ctx w) = Inr (Some (Io a)) \<and> as_connect (io_at a w) \<noteq> None"
  by (cases "GetEvent cid (w_ctx w)") (auto simp: find_conn_def split: option.splits event_ptr.splits)

lemma find_conn_fd:
  assumes "find_conn cid w = Inr (Some a)" "ctx_inv (w_ctx w)"
  shows "fd_at a w = cid" "fd_at a w \<noteq> INVALID_FD" "c_table (w_ctx w) cid \<noteq> None"
proof -
  have g: "GetEvent cid (w_ctx w) = Inr (Some (Io a))" using assms(1) by (simp add: find_conn_Some)
  with GetEvent_eq(2) [OF assms(2), of cid "Io a"]
  have l: "Io a \<in> snd ` set (c_list (w_ctx w))" "GetFd (Io a) (w_ctx w) = cid" by auto
  then show "fd_at a w = cid" by (simp add: GetFd_Io)
  obtain n where "(n, Io a) \<in> set (c_list (w_ctx w))" using l(1) by auto
  with assms(2) have "GetFd (snd (n, Io a)) (w_ctx w) \<noteq> INVALID_FD" unfolding ctx_inv_def by blast
  then show "fd_at a w \<noteq> INVALID_FD" by (simp add: GetFd_Io)
  show "c_table (w_ctx w) cid \<noteq> None"
    using g by (cases "c_table (w_ctx w) cid") (simp_all add: GetEvent_def)
qed

lemma sample_find [simp]: "find_conn 5 (sample_world st) = Inr (Some 0)"
  by (simp add: find_conn_Some GetEvent_def node_at_def)

section \<open>Sending\<close>

text \<open>C1: A message for an idle connection arrives: \<open>edn_send_data\<close> accepts it, registers for writability and runs no
  callback yet; when the kernel takes it whole, \<open>on_write\<close> puts exactly its bytes on the wire, runs the
  caller's callback once with \<open>EDN_OK\<close>, stops asking for writability and leaves the buffer ready for the next.\<close>

theorem send_delivers:
  assumes "wf_config (e_cfg env)" "find_conn cid w = Inr (Some a)" "as_connect (io_at a w) = Some p"
    "output_buffer p = Some b" "out_ready (e_cfg env) b" "low_water_mark b = 0" "fits_block (e_cfg env) d"
    "connect_status (io_at a w) \<in> {CS_CONNECTED, CS_READ, CS_WRITE}" "0 \<le> fd_at a w"
    "w_send w (fd_at a w) = Ret k # rest" "length d \<le> nat k"
  shows "\<exists>w1 w2 p2 b2. edn_send_data env cid (Some d) (int (length d)) cb w = Inr (EDN_OK, w1)
    \<and> has (GetEvents (io_at a w1)) EPOLLOUT \<and> w_wire w1 = w_wire w \<and> w_cbs w1 = w_cbs w
    \<and> on_write env a w1 = Inr (EDN_OK, w2) \<and> w_wire w2 (fd_at a w) = w_wire w (fd_at a w) @ d
    \<and> w_cbs w2 = w_cbs w @ [(cb, EDN_OK)] \<and> \<not> has (GetEvents (io_at a w2)) EPOLLOUT
    \<and> as_connect (io_at a w2) = Some p2 \<and> output_buffer p2 = Some b2 \<and> out_ready (e_cfg env) b2"
proof -
  have len: "0 < length d" "int (length d) < 1073741824" using assms(1,7) by (auto simp: fits_block_def wf_config_def)
  obtain ret w1 b1 where w1: "SendData env a (Some d) (length d) (Some cb) w = Inr (ret, w1)"
    "as_connect (io_at a w1) = Some (p\<lparr>output_buffer := Some b1\<rparr>)" "out_inv b1" "accounted b1" "content b1 = d"
    "buf_head b1 = Some 0" "buf_capacity b1 = buf_capacity b" "opt_cb b1 = Some cb" "low_water_mark b1 = low_water_mark b"
    "has (ev_events (io_at a w1)) EV_WRITE" "fd_at a w1 = fd_at a w" "w_wire w1 = w_wire w" "w_cbs w1 = w_cbs w"
    "w_send w1 = w_send w"
    by (rule SendData_ready [OF assms(1,3,4,5,7,8,9), of "Some cb"])
  have send: "edn_send_data env cid (Some d) (int (length d)) cb w = Inr (EDN_OK, w1)"
    using len assms(2) w1(1) by (simp add: edn_send_data_def)
  have cap: "buf_capacity b1 = size_of_int (buffer_len (e_cfg env))" using w1(7) assms(5) by (simp add: out_ready_def)
  obtain b2 where b2: "SendAtMost (Ret k # rest) b1 = Inr (int (length d), b2, d, rest)" "out_ready (e_cfg env) b2"
    "opt_cb b2 = Some cb" "low_water_mark b2 = 0"
    using drain_written [OF w1(3,4,6) cap, of k rest] assms(6,11) w1(5,8,9) by auto
  have e: "GetSize b2 = 0" using b2(2) by (simp add: out_ready_def GetSize_def)
  have g: "0 < GetSize b1" using GetSize_content [OF w1(3,4)] w1(5) len by simp
  let ?w2 = "upd_io a (SetEvents EV_WRITE False) (run_cbs (CallBack \<lparr>edn_code = EDN_OK, sys_code = 0, errmsg = dec_int (int (length d))\<rparr> b2)
      (upd_conn a (\<lambda>p. p\<lparr>output_buffer := Some b2\<rparr>) (w1\<lparr>w_send := (w_send w1)(fd_at a w := rest),
         w_wire := (w_wire w1)(fd_at a w := w_wire w1 (fd_at a w) @ d)\<rparr>)))"
  have wr: "on_write env a w1 = Inr (EDN_OK, ?w2)"
    using w1(2,11,14) g b2(1,4) e assms(10) by (simp add: on_write_def Let_def GetLowWaterMark_def)
  have "has (GetEvents (io_at a w1)) EPOLLOUT" "\<not> has (GetEvents (io_at a ?w2)) EPOLLOUT"
    using w1(10) by (simp_all only: GetEvents_def convert_events_out) simp
  moreover have "w_cbs ?w2 = w_cbs w @ [(cb, EDN_OK)]" using w1(13) b2(3) by (simp add: CallBack_def)
  moreover have "w_wire ?w2 (fd_at a w) = w_wire w (fd_at a w) @ d" using w1(12) by simp
  moreover have "as_connect (io_at a ?w2) = Some (p\<lparr>output_buffer := Some b2\<rparr>)" using w1(2) by simp
  ultimately show ?thesis using send wr w1(12,13) b2(2)
    by (intro exI [of _ w1] exI [of _ ?w2] exI [of _ "p\<lparr>output_buffer := Some b2\<rparr>"] exI [of _ b2]) simp
qed

theorem send_delivers_witness:
  "\<exists>w1 w2. edn_send_data sample_env 5 (Some [1, 2]) 2 9 ((sample_world CS_CONNECTED)\<lparr>w_send := (\<lambda>_. [Ret 100])\<rparr>) = Inr (EDN_OK, w1)
    \<and> on_write sample_env 0 w1 = Inr (EDN_OK, w2) \<and> w_wire w2 5 = [1, 2] \<and> w_cbs w2 = [(9, EDN_OK)]"
proof -
  let ?w = "(sample_world CS_CONNECTED)\<lparr>w_send := (\<lambda>_. [Ret 100])\<rparr>"
  have f: "find_conn 5 ?w = Inr (Some 0)" by (simp add: find_conn_Some GetEvent_def node_at_def)
  have p: "as_connect (io_at 0 ?w) = Some \<lparr>input_buffer = Some fresh_buffer, output_buffer = Some (SetCallback_opt (Some 7) fresh_buffer),
    connect_info = EDN_CONNECT_INFO_INIT, conn_timer = Some 0\<rparr>" by simp
  have l: "low_water_mark (SetCallback_opt (Some 7) fresh_buffer) = 0" by (simp add: fresh_buffer_def EdnBuffer_def)
  from send_delivers [OF _ f p _ _ l, of sample_env "[1, 2]" 100 "[]" 9] show ?thesis
    by (auto simp: fits_block_def)
qed

text \<open>\<open>edn_send_data\<close> reports success for a message it refuses: on a connection that is not established, failed or
  closed it returns \<open>EDN_OK\<close>, buffers nothing, and only the callback is told, before the call returns.\<close>

theorem send_refused_reports_ok:
  assumes "find_conn cid w = Inr (Some a)" "connect_status (io_at a w) \<in> {CS_NONE, CS_CONNECTING, CS_ERROR, CS_CLOSE}"
    "0 < len" "len < 2147483648"
  shows "edn_send_data env cid (Some d) len cb w =
    Inr (EDN_OK, w\<lparr>w_cbs := w_cbs w @ [(cb, EDN_ERROR_CONNECT_UNAVAILABLE)]\<rparr>)"
  using assms by (auto simp: edn_send_data_def SendData_def run_cbs_def)

theorem send_refused_reports_ok_witness:
  "edn_send_data sample_env 5 (Some [1, 2]) 2 9 (sample_world CS_CONNECTING) =
    Inr (EDN_OK, (sample_world CS_CONNECTING)\<lparr>w_cbs := [(9, EDN_ERROR_CONNECT_UNAVAILABLE)]\<rparr>)"
  using send_refused_reports_ok [OF sample_find [of CS_CONNECTING], of 2 sample_env "[1, 2]" 9] by simp

section \<open>Closing\<close>

lemma edn_close_steps:
  assumes "edn_close env cid w = Inr (EDN_OK, w')" "ctx_inv (w_ctx w)"
  obtains a w1 c where "find_conn cid w = Inr (Some a)" "conn_Close env a w = Inr w1"
    "DelEvent (e_os env) (Some (Io a)) (w_ctx w1) = Inr c" "w' = w1\<lparr>w_ctx := c\<rparr>"
  using assms(1) by (auto simp: edn_close_def try_then_Inr with_ctx_Inr split: option.splits)

text \<open>What a successful \<open>edn_close\<close> leaves: the connection out of the table, without a timer, its descriptor closed
  but still in \<open>fd_\<close>.\<close>

lemma edn_close_effect:
  assumes "edn_close env cid w = Inr (EDN_OK, w')" "find_conn cid w = Inr (Some a)" "ctx_inv (w_ctx w)" "timer_ok a w"
  obtains p where "as_connect (io_at a w') = Some p" "conn_timer p = None" "fd_at a w' = cid" "cid \<noteq> INVALID_FD"
    "c_table (w_ctx w') cid = None" "w_sys w' = w_sys w @ [Sys_close cid]"
proof -
  obtain w1 c where c: "conn_Close env a w = Inr w1" "DelEvent (e_os env) (Some (Io a)) (w_ctx w1) = Inr c" "w' = w1\<lparr>w_ctx := c\<rparr>"
    by (rule edn_close_steps [OF assms(1,3)]) (use assms(2) in auto)
  note f = conn_Close_frame [OF c(1) assms(4)] and fd = find_conn_fd [OF assms(2,3)]
  have inv: "ctx_inv (w_ctx w1)" using ctx_inv_same [OF f(9)] assms(3) by simp
  from f(7) obtain p where p: "as_connect (io_at a w1) = Some p" "conn_timer p = None" "fd_at a w1 = fd_at a w" by force
  obtain d where d: "delist (Io a) (w_ctx w1) = Inr d" "assert_zero (epoll_del (e_os env) (Io a) d) = Inr c"
    using c(2) by (rule DelEvent_Inr) simp
  have g: "GetFd (Io a) (w_ctx w1) = cid" "cid \<noteq> INVALID_FD" using p(3) fd(1,2) by (simp_all add: GetFd_Io)
  have t: "c_table c cid = None"
    using delist_inv [OF inv d(1)] epoll.deleted(2) [OF inv d] g by (simp add: reg_same_def)
  have "c_ios c = c_ios (w_ctx w1)"
  proof -
    have "c_ios d = c_ios (w_ctx w1)" using d(1) g by (auto simp: delist_def Let_def split: option.splits if_splits)
    moreover have "GetFd (Io a) d = cid" using delist_inv [OF inv d(1)] g by simp
    ultimately show ?thesis using d(2) g
      by (auto simp: assert_zero_def epoll_del_def ctl_def split: sum.splits prod.splits sysret.splits if_splits)
  qed
  with p have "as_connect (io_at a w') = Some p" "fd_at a w' = cid" using fd(1) by (simp_all add: c(3))
  moreover have "snd (Close (e_net env) cid) = [Sys_close cid]" using g(2) by (simp add: Close_def split: sysret.split)
  ultimately show thesis using p(2) t g(2) f(1) fd(1) by (intro that [of p]) (simp_all add: c(3))
qed


lemma sample_close: "\<exists>w'. edn_close sample_env 5 (sample_world st) = Inr (EDN_OK, w')"
proof -
  have t: "ev_fd (t_objs (c_tg (w_ctx (sample_world st))) 0) = INVALID_FD" by simp
  show ?thesis
    by (simp add: edn_close_def conn_Close_def with_ctx_def DelEvent_timer [OF t] DelTimer_def Let_def SetTimer_def)
      (simp add: DelEvent_def delist_def GetFd_Io Let_def assert_zero_def epoll_del_def GetFd_def ctl_def sample_os_def
        upd_conn_def upd_io_def set_io_def)
qed


text \<open>A closed connection closes its descriptor again, twice, when it is destroyed: \<open>Close\<close> does not reset \<open>fd_\<close>,
  \<open>~EdnConnect\<close> calls it once more and \<open>~EdnIOEvent\<close> closes what is left. In between the number may have been
  given to another socket of the process.\<close>

theorem destroyed_descriptor_closed_thrice:
  assumes "edn_close env cid w = Inr (EDN_OK, w')" "find_conn cid w = Inr (Some a)" "ctx_inv (w_ctx w)" "timer_ok a w"
  shows "\<exists>freed w2. destroy_connect env a w' = Inr (freed, w2)
    \<and> w_sys w2 = w_sys w @ [Sys_close cid, Sys_close cid, Sys_close cid]"
proof -
  obtain p where p: "as_connect (io_at a w') = Some p" "conn_timer p = None" "fd_at a w' = cid" "cid \<noteq> INVALID_FD"
    "w_sys w' = w_sys w @ [Sys_close cid]" by (rule edn_close_effect [OF assms])
  have "snd (Close (e_net env) cid) = [Sys_close cid]" using p(4) by (simp add: Close_def split: sysret.split)
  with p show ?thesis by (simp add: destroy_connect_def conn_Close_def destroy_io_def)
qed

theorem destroyed_descriptor_closed_thrice_witness:
  "\<exists>w' freed w2. edn_close sample_env 5 (sample_world CS_READ) = Inr (EDN_OK, w') \<and> destroy_connect sample_env 0 w' = Inr (freed, w2)
    \<and> w_sys w2 = [Sys_close 5, Sys_close 5, Sys_close 5]"
proof -
  obtain w' where w': "edn_close sample_env 5 (sample_world CS_READ) = Inr (EDN_OK, w')" using sample_close by blast
  from destroyed_descriptor_closed_thrice [OF w' sample_find sample_world_inv sample_timer_ok] w' show ?thesis by auto
qed

section \<open>Connecting\<close>

lemma bare_connect_sel [simp]:
  "ev_fd (bare_connect u fd i) = fd" "connect_status (bare_connect u fd i) = CS_CONNECTING"
  "as_connect (bare_connect u fd i) = Some \<lparr>input_buffer = None, output_buffer = None, connect_info = i, conn_timer = None\<rparr>"
  by (simp_all add: bare_connect_def io_event.defs dyn_io.defs EdnIOEvent_def EdnIOEvent_cbs_def)

lemma ready_connect_sel [simp]:
  "ev_fd (ready_connect env u fd cb) = fd" "connect_status (ready_connect env u fd cb) = CS_CONNECTING"
  "conn_cb (ready_connect env u fd cb) = On_conn"
  "as_connect (ready_connect env u fd cb) =
     Some \<lparr>input_buffer = Some (EdnBuffer (e_cfg env) (e_bytes env) (e_nodes env)),
           output_buffer = Some (SetCallback_opt cb (EdnBuffer (e_cfg env) (e_bytes env) (e_nodes env))),
           connect_info = EDN_CONNECT_INFO_INIT, conn_timer = None\<rparr>"
  by (simp_all add: ready_connect_def Let_def)

text \<open>An address the user gives in full, not known to the table.\<close>

definition new_address :: "env \<Rightarrow> conn_info \<Rightarrow> world \<Rightarrow> bool" where
  "new_address env info w \<longleftrightarrow>
     src_ip info \<notin> {None, Some [], Some ''0.0.0.0'', Some ''::''} \<and> dst_ip info \<noteq> None
     \<and> table_get (e_hs env) (e_hi env) info (w_table w) = Inr (- 1)"

definition connect_answer :: "env \<Rightarrow> int \<Rightarrow> conn_info \<Rightarrow> int" where
  "connect_answer env fd info = fst (Connect (e_net env) fd (the (dst_ip info)) (wrap32 (int (dst_port info))))"

lemma new_address_normal: "new_address env info w \<Longrightarrow> ConnectInfoNomalize net info = Inr info"
  by (auto simp: new_address_def intro: normalize_explicit)

lemma EdnConnect_info_eq:
  assumes "new_address env info w"
  shows "net_socket (e_net env) False = Err e \<Longrightarrow>
      \<exists>cs. EdnConnect_info env u info cb = Inr (bare_connect u (- 1) EDN_CONNECT_INFO_INIT, cs)"
    "net_socket (e_net env) False = Ret fd \<Longrightarrow> fd \<noteq> - 1 \<Longrightarrow> connect_answer env fd info = EDN_OK \<Longrightarrow>
      \<exists>cs. EdnConnect_info env u info cb = Inr (ready_connect env u fd cb, cs)"
    "net_socket (e_net env) False = Ret fd \<Longrightarrow> fd \<noteq> - 1 \<Longrightarrow> connect_answer env fd info \<noteq> EDN_OK \<Longrightarrow>
      \<exists>cs. EdnConnect_info env u info cb = Inr (bare_connect u fd EDN_CONNECT_INFO_INIT, cs)"
  using assms
  by (auto simp: EdnConnect_info_def Socket_def new_address_def connect_answer_def SetNonBlocking_def Let_def
      split: prod.splits)

lemma edn_connect_open_new:
  assumes "new_address env info w" "EdnConnect_info env (wrap32 (w_uuid w + 1)) info (Some cb) = Inr (e, cs)"
  shows "edn_connect_open env info cb w =
    (let w1 = syscalls cs (upd_io (w_io w) (\<lambda>_. e) (w\<lparr>w_uuid := wrap32 (w_uuid w + 1), w_io := Suc (w_io w)\<rparr>)) in
     try_then (with_ctx (AddEvent (e_os env) 0 (Io (w_io w))) w1) (\<lambda>w2. Inr (Inr (w_io w), w2)))"
proof -
  have "table_get (e_hs env) (e_hi env) info (w_table w) = Inr (- 1)" using assms(1) by (simp add: new_address_def)
  then show ?thesis
    by (simp add: edn_connect_open_def new_address_normal [OF assms(1)] GetUUID_def Let_def assms(2))
qed

text \<open>C32: \<open>edn_connect\<close> never reports a failure as a code: when no socket can be made, or the connection cannot be
  started and the kernel refuses to watch the descriptor the constructor has already closed, the call ends
  the program, by a null timer or by the assertion of \<open>AddEvent\<close>.\<close>

theorem edn_connect_failure_aborts:
  assumes "new_address env info w"
    "(\<exists>e. net_socket (e_net env) False = Err e) \<or>
     (\<exists>fd. net_socket (e_net env) False = Ret fd \<and> 0 \<le> fd \<and> connect_answer env fd info \<noteq> EDN_OK
        \<and> (\<forall>ev. os_ctl (e_os env) CTL_ADD fd ev = Err EBADF))"
  shows "edn_connect env info tmo cb n1 n2 w =
    Inl (case net_socket (e_net env) False of Err e \<Rightarrow> Null_deref | Ret fd \<Rightarrow> Assert_failed)"
  using assms(2)
proof
  assume "\<exists>e. net_socket (e_net env) False = Err e"
  then obtain e where e: "net_socket (e_net env) False = Err e" by blast
  from EdnConnect_info_eq(1) [OF assms(1) e] obtain cs where
    c: "EdnConnect_info env (wrap32 (w_uuid w + 1)) info (Some cb) = Inr (bare_connect (wrap32 (w_uuid w + 1)) (- 1) EDN_CONNECT_INFO_INIT, cs)"
    by blast
  show ?thesis
    by (simp add: edn_connect_def edn_connect_open_new [OF assms(1) c] with_ctx_def AddEvent_def enlist_def epoll_add_def
        assert_zero_def GetFd_Io e Let_def)
next
  assume "\<exists>fd. net_socket (e_net env) False = Ret fd \<and> 0 \<le> fd \<and> connect_answer env fd info \<noteq> EDN_OK
        \<and> (\<forall>ev. os_ctl (e_os env) CTL_ADD fd ev = Err EBADF)"
  then obtain fd where fd: "net_socket (e_net env) False = Ret fd" "0 \<le> fd" "connect_answer env fd info \<noteq> EDN_OK"
    "\<And>ev. os_ctl (e_os env) CTL_ADD fd ev = Err EBADF" by blast
  then have m: "fd \<noteq> - 1" by simp
  from EdnConnect_info_eq(3) [OF assms(1) fd(1) m fd(3)] obtain cs where
    c: "EdnConnect_info env (wrap32 (w_uuid w + 1)) info (Some cb) = Inr (bare_connect (wrap32 (w_uuid w + 1)) fd EDN_CONNECT_INFO_INIT, cs)"
    by blast
  have g: "GetFd (Io a) (c\<lparr>c_list := l, c_next := n, c_table := t\<rparr>) = GetFd (Io a) c" for a l n t and c :: conn_ctx
    by (simp add: GetFd_def)
  show ?thesis
    using fd(2) by (simp add: edn_connect_def edn_connect_open_new [OF assms(1) c] with_ctx_def AddEvent_def enlist_def epoll_add_def
        assert_zero_def GetFd_Io fd(1,4) ctl_def Let_def g)
qed

text \<open>An IPv6 destination: the socket is always an IPv4 one, so the kernel refuses the address.\<close>

theorem edn_connect_failure_aborts_witness:
  "edn_connect (sample_env\<lparr>e_os := sample_os\<lparr>os_ctl := (\<lambda>_ fd _. if fd = 5 then Err EBADF else Ret 0)\<rparr>\<rparr>)
     \<lparr>src_ip = Some ''fe80::1'', src_port = 0, dst_ip = Some ''2001::1'', dst_port = 80\<rparr> 1000 7 0 0 (sample_world CS_READ)
   = Inl Assert_failed"
proof -
  let ?env = "sample_env\<lparr>e_os := sample_os\<lparr>os_ctl := (\<lambda>_ fd _. if fd = 5 then Err EBADF else Ret 0)\<rparr>\<rparr>"
  let ?info = "\<lparr>src_ip = Some ''fe80::1'', src_port = 0, dst_ip = Some ''2001::1'', dst_port = 80\<rparr>"
  have "new_address ?env ?info (sample_world CS_READ)"
    by (simp add: new_address_def table_get_eq [OF table_ok_empty] complete_def)
  moreover have s: "net_socket (e_net ?env) False = Ret 5" by (simp add: sample_net_def)
  moreover have "connect_answer ?env 5 ?info = EDN_ERR_SYS_ERROR"
    by (simp add: connect_answer_def Connect_def ConnectV6_def connect_addr_def sample_net_def)
  moreover have "os_ctl (e_os ?env) CTL_ADD 5 ev = Err EBADF" for ev by simp
  ultimately have "edn_connect ?env ?info 1000 7 0 0 (sample_world CS_READ) =
    Inl (case net_socket (e_net ?env) False of Err e \<Rightarrow> Null_deref | Ret fd \<Rightarrow> Assert_failed)"
    by (intro edn_connect_failure_aborts) auto
  then show ?thesis unfolding s by simp
qed

text \<open>A kernel that makes a socket, starts the connection and watches the descriptor.\<close>

definition connectable :: "env \<Rightarrow> conn_info \<Rightarrow> int \<Rightarrow> world \<Rightarrow> bool" where
  "connectable env info fd w \<longleftrightarrow> new_address env info w \<and> net_socket (e_net env) False = Ret fd \<and> 0 \<le> fd
     \<and> connect_answer env fd info = EDN_OK \<and> (\<forall>ev. \<exists>r. os_ctl (e_os env) CTL_ADD fd ev = Ret r) \<and> ctx_inv (w_ctx w)"

lemma edn_connect_open_ok:
  assumes "connectable env info fd w"
  obtains w1 where "edn_connect_open env info cb w = Inr (Inr (w_io w), w1)"
    "io_at (w_io w) w1 = ready_connect env (wrap32 (w_uuid w + 1)) fd (Some cb)"
    "GetEvent fd (w_ctx w1) = Inr (Some (Io (w_io w)))" "c_tg (w_ctx w1) = c_tg (w_ctx w)"
    "c_has_tg (w_ctx w1) = c_has_tg (w_ctx w)" "c_sigfd (w_ctx w1) = c_sigfd (w_ctx w)" "w_tm w1 = w_tm w"
    "w_cbs w1 = w_cbs w" "w_uuid w1 = wrap32 (w_uuid w + 1)"
    "c_ctl (w_ctx w1) = c_ctl (w_ctx w) @ [(CTL_ADD, fd, GetEvents (io_at (w_io w) w1))]"
proof -
  let ?u = "wrap32 (w_uuid w + 1)" and ?a = "w_io w"
  have fd: "new_address env info w" "net_socket (e_net env) False = Ret fd" "0 \<le> fd" "connect_answer env fd info = EDN_OK"
    using assms by (simp_all add: connectable_def)
  then have m: "fd \<noteq> - 1" by simp
  obtain r where r: "os_ctl (e_os env) CTL_ADD fd (GetEvents (ready_connect env ?u fd (Some cb))) = Ret r"
    using assms unfolding connectable_def by blast
  from EdnConnect_info_eq(2) [OF fd(1,2) m fd(4)] obtain cs where
    c: "EdnConnect_info env ?u info (Some cb) = Inr (ready_connect env ?u fd (Some cb), cs)" by blast
  let ?w1 = "syscalls cs (upd_io ?a (\<lambda>_. ready_connect env ?u fd (Some cb)) (w\<lparr>w_uuid := ?u, w_io := Suc ?a\<rparr>))"
  have f: "GetFd (Io ?a) (w_ctx ?w1) = fd" by (simp add: GetFd_Io)
  obtain c1 where c1: "c1 = enlist (Io ?a) (w_ctx ?w1)" by blast
  have e: "c_list c1 = c_list (w_ctx w) @ [(c_next (w_ctx w), Io ?a)]" "c_table c1 = (c_table (w_ctx w))(fd \<mapsto> c_next (w_ctx w))"
    "c_ios c1 = (c_ios (w_ctx w))(?a := ready_connect env ?u fd (Some cb))" "c_tg c1 = c_tg (w_ctx w)"
    "c_has_tg c1 = c_has_tg (w_ctx w)" "c_sigfd c1 = c_sigfd (w_ctx w)" "c_ctl c1 = c_ctl (w_ctx w)"
    using m by (simp_all add: c1 enlist_def Let_def GetFd_Io) (simp add: upd_io_def set_io_def)
  let ?c2 = "c1\<lparr>c_ctl := c_ctl c1 @ [(CTL_ADD, fd, GetEvents (ready_connect env ?u fd (Some cb)))]\<rparr>"
  have g: "GetFd (Io ?a) c1 = fd" "events_of (Io ?a) c1 = ev_events (ready_connect env ?u fd (Some cb))"
    by (simp_all add: GetFd_def events_of_def e)
  have "AddEvent (e_os env) 0 (Io ?a) (w_ctx ?w1) = Inr ?c2"
    unfolding AddEvent_def c1 [symmetric]
    using m fd(3) r by (simp add: assert_zero_def epoll_add_def g ctl_def GetEvents_def)
  then have "edn_connect_open env info cb w = Inr (Inr ?a, ?w1\<lparr>w_ctx := ?c2\<rparr>)"
    by (simp add: edn_connect_open_new [OF fd(1) c] with_ctx_def Let_def)
  moreover have "map_of (c_list ?c2) (c_next (w_ctx w)) = Some (Io ?a)"
  proof -
    have "c_next (w_ctx w) \<notin> fst ` set (c_list (w_ctx w))"
      using assms ctx_invD(2) [of "w_ctx w"] by (fastforce simp: connectable_def)
    then have "map_of (c_list (w_ctx w)) (c_next (w_ctx w)) = None" by (simp add: map_of_eq_None_iff)
    then show ?thesis by (simp add: e map_add_def map_of_append)
  qed
  ultimately show thesis
    by (intro that [of "?w1\<lparr>w_ctx := ?c2\<rparr>"]) (simp_all add: e GetEvent_def node_at_def)
qed

text \<open>C12: What a successful \<open>edn_connect\<close> sets up: it returns the descriptor, under which the connection is found,
  connecting and watched for reading and writing, with a timer in the group that is due \<open>timeout\<close> after
  the call and knows the connection and the callback. No callback has run.\<close>

theorem edn_connect_registers:
  assumes "connectable env info fd w" "c_has_tg (w_ctx w)" "n2 < wrap32 (n1 + tmo)"
  shows "\<exists>w' p. edn_connect env info tmo cb n1 n2 w = Inr (fd, w') \<and> find_conn fd w' = Inr (Some (w_io w))
    \<and> as_connect (io_at (w_io w) w') = Some p \<and> conn_timer p = Some (w_tm w)
    \<and> connect_status (io_at (w_io w) w') = CS_CONNECTING
    \<and> w_tm w \<in> armed (c_tg (w_ctx w')) \<and> expiry (c_tg (w_ctx w')) (w_tm w) = wrap32 (n1 + tmo)
    \<and> w_timeout w' (w_tm w) = Some (w_io w, cb) \<and> w_cbs w' = w_cbs w
    \<and> (\<exists>m. c_ctl (w_ctx w') = c_ctl (w_ctx w) @ [(CTL_ADD, fd, m)] \<and> has m EPOLLIN \<and> has m EPOLLOUT)"
proof -
  let ?a = "w_io w" and ?t = "w_tm w"
  obtain w1 where w1: "edn_connect_open env info cb w = Inr (Inr ?a, w1)"
    "io_at ?a w1 = ready_connect env (wrap32 (w_uuid w + 1)) fd (Some cb)"
    "GetEvent fd (w_ctx w1) = Inr (Some (Io ?a))" "c_tg (w_ctx w1) = c_tg (w_ctx w)"
    "c_has_tg (w_ctx w1) = c_has_tg (w_ctx w)" "c_sigfd (w_ctx w1) = c_sigfd (w_ctx w)" "w_tm w1 = ?t" "w_cbs w1 = w_cbs w"
    "w_uuid w1 = wrap32 (w_uuid w + 1)"
    "c_ctl (w_ctx w1) = c_ctl (w_ctx w) @ [(CTL_ADD, fd, GetEvents (io_at ?a w1))]"
    by (rule edn_connect_open_ok [OF assms(1)])
  let ?u = "wrap32 (w_uuid w1 + 1)"
  let ?tm = "EdnTimer ?u n1 tmo False (Some ?t)"
  let ?g = "set_timer ?t (\<lambda>_. ?tm) (c_tg (w_ctx w))"
  let ?w2 = "SetTimer ?a (Some ?t) (w1\<lparr>w_uuid := ?u, w_tm := Suc ?t, w_timeout := (w_timeout w1)(?t \<mapsto> (?a, cb)),
    w_ctx := (w_ctx w1)\<lparr>c_tg := ?g\<rparr>\<rparr>)"
  let ?w3 = "?w2\<lparr>w_ctx := (w_ctx ?w2)\<lparr>c_tg := snd (AddTimer ?t (c_tg (w_ctx ?w2)))\<rparr>\<rparr>"
  have c: "c_tg (w_ctx ?w2) = ?g" "c_has_tg (w_ctx ?w2)" using assms(2) w1(5) by (simp_all add: SetTimer_def)
  have "GetFd (Tm ?t) (w_ctx ?w2) = - 1" by (simp add: GetFd_def c)
  then have "AddEvent (e_os env) n2 (Tm ?t) (w_ctx ?w2) = Inr (w_ctx ?w3)"
    using assms(3) c by (simp add: AddEvent_def assert_zero_def epoll_add_def enlist_def)
  then have "edn_connect_arm env ?a tmo cb n1 n2 w1 = Inr (fd_at ?a ?w3, ?w3)"
    using w1(4,7) by (simp add: edn_connect_arm_def GetUUID_def Let_def with_ctx_def)
  moreover have a: "as_connect (io_at ?a ?w3) = Some ((the (as_connect (io_at ?a w1)))\<lparr>conn_timer := Some ?t\<rparr>)"
    "fd_at ?a ?w3 = fd" "connect_status (io_at ?a ?w3) = CS_CONNECTING"
    by (simp_all add: SetTimer_def w1(2))
  ultimately have "edn_connect env info tmo cb n1 n2 w = Inr (fd, ?w3)" by (simp add: edn_connect_def w1(1))
  moreover have "GetEvent fd (w_ctx ?w3) = GetEvent fd (w_ctx w1)" by (intro GetEvent_same) (simp_all add: SetTimer_def)
  then have "find_conn fd ?w3 = Inr (Some ?a)" using a(1) w1(3) by (simp add: find_conn_Some)
  moreover have "?t \<in> armed (c_tg (w_ctx ?w3))" "expiry (c_tg (w_ctx ?w3)) ?t = wrap32 (n1 + tmo)"
    by (simp_all add: c armed_def AddTimer_def)
  moreover have "w_timeout ?w3 ?t = Some (?a, cb)" "w_cbs ?w3 = w_cbs w" "c_ctl (w_ctx ?w3) = c_ctl (w_ctx w1)"
    by (simp_all add: SetTimer_def w1(8))
  moreover have "has (GetEvents (io_at ?a w1)) EPOLLIN" "has (GetEvents (io_at ?a w1)) EPOLLOUT"
    by (simp_all add: w1(2) GetEvents_def ready_connect_def bare_connect_def io_event.defs dyn_io.defs EdnIOEvent_def
        EdnIOEvent_cbs_def io_events_mask_def convert_events_def has_def Let_def)
  ultimately show ?thesis using a w1(10)
    by (intro exI [of _ ?w3] exI [of _ "(the (as_connect (io_at ?a w1)))\<lparr>conn_timer := Some ?t\<rparr>"]) auto
qed

lemma sample_connectable: "connectable sample_env sample_info 5 (sample_world st)"
proof -
  have "new_address sample_env sample_info (sample_world st)"
    by (simp add: new_address_def sample_info_def table_get_eq [OF table_ok_empty] complete_def)
  moreover have "net_socket (e_net sample_env) False = Ret 5" by (simp add: sample_net_def)
  moreover have "connect_answer sample_env 5 sample_info = EDN_OK"
    by (simp add: connect_answer_def Connect_def ConnectV4_def connect_addr_def sample_net_def sample_info_def)
  moreover have "\<forall>ev. \<exists>r. os_ctl (e_os sample_env) CTL_ADD 5 ev = Ret r" by (simp add: sample_os_def)
  ultimately show ?thesis using sample_world_inv by (simp add: connectable_def)
qed

theorem edn_connect_registers_witness:
  "\<exists>w'. edn_connect sample_env sample_info 500 9 1000 1001 (sample_world CS_READ) = Inr (5, w')
    \<and> find_conn 5 w' = Inr (Some 1) \<and> expiry (c_tg (w_ctx w')) (w_tm (sample_world CS_READ)) = 1500"
  using edn_connect_registers [OF sample_connectable [of CS_READ], of 1001 1000 500 9] by auto



section \<open>The connect timer\<close>

text \<open>C27: A connect timeout destroys the lambda that handles it: a dispatch takes a one-shot timer out of the queue and
  the map and activates it through a bare pointer, so the connection is its last owner, and the lambda's
  first statement, \<open>conn->Close()\<close>, drops it. The callback, the connection and the code that follow are read
  from a freed object.\<close>

theorem connect_timeout_use_after_free:
  assumes "tg_inv (c_tg (w_ctx w))" "timer_dispatch clock (c_tg (w_ctx w)) = Inr (tmo, clock', g, fired)" "t \<in> set fired"
    "\<not> IsPersist (timer_at t w)" "timer_cb (timer_at t w) = Some t" "ev_fd (timer_at t w) = INVALID_FD"
    "w_timeout w t = Some (a, cb)" "owns_timer a t w" "\<forall>i<w_io w. owns_timer i t w \<longrightarrow> i = a" "c_has_tg (w_ctx w)"
  shows "run_timer_task user env False t (w\<lparr>w_ctx := (w_ctx w)\<lparr>c_tg := g\<rparr>\<rparr>) = Inl Dangling"
proof -
  obtain clk where d: "dispatch_loop clock (c_tg (w_ctx w)) [] = Inr (clk, g, fired)"
    using timer_dispatch_Inr [OF assms(2)] by blast
  have inv: "tg_inv g" by (rule dispatch_inv [OF assms(1) d])
  have out: "t \<notin> set (t_queue g)"
    using dispatch_fired_gone [OF d assms(3) _ assms(4) tg_invD(1) [OF assms(1)]] by simp
  have map: "t_map g (ev_uuid (t_objs g t)) = None"
  proof (cases "t_map g (ev_uuid (t_objs g t))")
    case (Some b)
    from tg_inv_map [OF inv this] have "b \<in> set (t_queue g)" "b = t" using tg_inv_uuid [OF inv, of b t] by auto
    with out show ?thesis by simp
  qed
  note const = dispatch_const [OF d] dispatch_loop_fd [OF d]
  let ?w = "w\<lparr>w_ctx := (w_ctx w)\<lparr>c_tg := g\<rparr>\<rparr>"
  obtain p where p: "as_connect (io_at a w) = Some p" "conn_timer p = Some t"
    using assms(8) by (auto simp: owns_timer_def split: option.splits)
  have del: "DelTimer t g = Inr (EDN_ERR_PARAMS_INVALID, g)" by (simp add: DelTimer_def map)
  have fd: "ev_fd (t_objs (c_tg (w_ctx ?w)) t) = INVALID_FD" using const(3) [of t] assms(6) by simp
  have "DelEvent (e_os env) (Some (Tm t)) (w_ctx ?w) = Inr (w_ctx ?w)"
    using DelEvent_timer [OF fd, of "e_os env"] del assms(10) by simp
  then have close: "conn_Close env a ?w = Inr (syscalls (snd (Close (e_net env) (fd_at a w))) (SetTimer a None ?w))"
    using p by (simp add: conn_Close_def with_ctx_def SetTimer_def)
  obtain w1 where w1: "w1 = SetTimer a None ?w" by blast
  have sel: "c_tg (w_ctx w1) = g" "w_io w1 = w_io w" by (simp_all add: w1 SetTimer_def)
  have "\<not> owns_timer i t w1" if "i < w_io w" for i
  proof (cases "i = a")
    case True
    then show ?thesis using p(1) by (simp add: w1 owns_timer_def SetTimer_def)
  next
    case False
    then have "owns_timer i t w1 = owns_timer i t w" by (simp add: w1 owns_timer_def SetTimer_def)
    with False that assms(9) show ?thesis by blast
  qed
  then have "\<not> list_ex (\<lambda>i. owns_timer i t w1) [0 ..< w_io w]" by (simp add: list_ex_iff)
  then have "\<not> timer_held t w1" unfolding timer_held_def sel using out map by simp
  then have "\<not> timer_held t (syscalls cs (SetTimer a None ?w))" for cs
    unfolding w1 [symmetric] by (simp add: timer_held_def owns_timer_def)
  then have "connect_timeout env False t a cb ?w = Inl Dangling" by (simp add: connect_timeout_def close)
  moreover have "timer_handler (timer_at t ?w) = Inr (t, EDN_OK, snd (event_handler (t_objs g t)))"
    using const(1) [of t] assms(5) by (simp add: timer_handler_def)
  ultimately show ?thesis using assms(7) by (simp add: run_timer_task_def)
qed

theorem connect_timeout_use_after_free_witness:
  "\<exists>tmo g. timer_dispatch [1050, 1050] (c_tg (w_ctx (sample_world CS_CONNECTING))) = Inr (tmo, [1050], g, [0])
    \<and> run_timer_task (\<lambda>n w. Inr w) sample_env False 0
         ((sample_world CS_CONNECTING)\<lparr>w_ctx := (w_ctx (sample_world CS_CONNECTING))\<lparr>c_tg := g\<rparr>\<rparr>) = Inl Dangling"
proof -
  let ?w = "sample_world CS_CONNECTING"
  have q: "t_queue (c_tg (w_ctx ?w)) = [0]" "enabled (timer_at 0 ?w)" "expiry (c_tg (w_ctx ?w)) 0 \<le> 1050"
    "\<not> IsPersist (timer_at 0 ?w)"
    by (simp_all add: IsPersist_def EdnTimer_def has_def)
  have e: "t_queue (fire 1050 0 [] (c_tg (w_ctx ?w))) = []" using q(4) by (simp add: fire_def Let_def)
  obtain tmo g where d: "timer_dispatch [1050, 1050] (c_tg (w_ctx ?w)) = Inr (tmo, [1050], g, [0])"
    by (simp add: timer_dispatch_def dispatch_step(5) [OF q(1,2,3)] dispatch_step(1) [OF e] min_timeout_def e)
  have o: "owns_timer 0 0 ?w" by (simp add: owns_timer_def)
  have "run_timer_task (\<lambda>n w. Inr w) sample_env False 0 (?w\<lparr>w_ctx := (w_ctx ?w)\<lparr>c_tg := g\<rparr>\<rparr>) = Inl Dangling"
    by (rule connect_timeout_use_after_free [OF sample_tg_inv d _ q(4) _ _ _ o]) simp_all
  with d show ?thesis by blast
qed

end
