(* ===== verification/Edn_System_Frames.thy ===== *)
theory Edn_System_Frames
  imports Edn_System Edn_Api_Properties
begin

text \<open>
  What the operations of the running library leave alone. Most of them change a connection only within its type:
  descriptor and callbacks stay, a buffer stays where there is one, the connect timer stays or goes; and they add
  no task but handlers of registered events. \<open>keeps w w'\<close> says so, operation by operation.
\<close>

section \<open>Changes within the type\<close>

definition io_cbs :: "dyn_io \<Rightarrow> io_cb list" where
  "io_cbs e = [conn_cb e, read_cb e, write_cb e, error_cb e, close_cb e]"

definition part_same :: "connect_part \<Rightarrow> connect_part \<Rightarrow> bool" where
  "part_same p p' \<longleftrightarrow> (input_buffer p' = None) = (input_buffer p = None) \<and> (output_buffer p' = None) = (output_buffer p = None)
     \<and> conn_timer p' \<in> {conn_timer p, None}"

definition io_same :: "dyn_io \<Rightarrow> dyn_io \<Rightarrow> bool" where
  "io_same e e' \<longleftrightarrow> io_cbs e' = io_cbs e \<and> ev_fd e' = ev_fd e \<and> rel_option part_same (as_connect e) (as_connect e')"

lemma part_same_refl [simp]: "part_same p p"
  by (simp add: part_same_def)

lemma part_same_trans: "part_same p q \<Longrightarrow> part_same q r \<Longrightarrow> part_same p r"
  by (auto simp: part_same_def)

lemma io_same_refl [simp]: "io_same e e"
  by (simp add: io_same_def option.rel_refl)

lemma io_same_trans: "io_same e f \<Longrightarrow> io_same f g \<Longrightarrow> io_same e g"
  by (cases "as_connect e"; cases "as_connect f"; cases "as_connect g") (auto simp: io_same_def intro: part_same_trans)

lemma io_same_upd [simp]:
  "io_same e (SetEvents m x f) = io_same e f" "io_same e (f\<lparr>connect_status := s\<rparr>) = io_same e f"
  "io_same e (f\<lparr>real_events := m\<rparr>) = io_same e f" "io_same e (f\<lparr>ev_status := st\<rparr>) = io_same e f"
  "io_same e (SetRealEvents m f) = io_same e f"
  by (simp_all add: io_same_def io_cbs_def SetEvents_def SetRealEvents_def)

lemma io_same_Convert: "ConvertEvents x e = (r, e') \<Longrightarrow> io_same f e \<Longrightarrow> io_same f e'"
  by (auto simp: ConvertEvents_def Let_def split: if_splits)

lemma io_same_part:
  "io_same f e \<Longrightarrow> (\<And>p. as_connect e = Some p \<Longrightarrow> part_same p (g p)) \<Longrightarrow>
     io_same f (e\<lparr>as_connect := map_option g (as_connect e)\<rparr>)"
  by (rule io_same_trans [where f = e]) (auto simp: io_same_def io_cbs_def option_rel_Some1 rel_option_iff split: option.split)

text \<open>Tasks an operation may add: handlers of queued events, and timers.\<close>

definition new_task :: "conn_ctx \<Rightarrow> pool_task \<Rightarrow> bool" where
  "new_task c t \<longleftrightarrow> (case t of T_handler p \<Rightarrow> (case p of Io a \<Rightarrow> Io a \<in> snd ` set (c_list c) | _ \<Rightarrow> True)
     | T_timer a \<Rightarrow> True | T_io a io \<Rightarrow> False)"

definition ckeeps :: "conn_ctx \<Rightarrow> conn_ctx \<Rightarrow> bool" where
  "ckeeps c c' \<longleftrightarrow> (\<forall>a. io_same (c_ios c a) (c_ios c' a)) \<and> snd ` set (c_list c') \<subseteq> snd ` set (c_list c)
     \<and> (\<forall>t\<in>set (c_pool c'). t \<in> set (c_pool c) \<or> new_task c t)
     \<and> (\<forall>t. ev_fd (t_objs (c_tg c') t) = ev_fd (t_objs (c_tg c) t)) \<and> c_has_tg c' = c_has_tg c"

definition keeps :: "world \<Rightarrow> world \<Rightarrow> bool" where
  "keeps w w' \<longleftrightarrow> w_io w' = w_io w \<and> w_tm w' = w_tm w \<and> w_timeout w' = w_timeout w \<and> ckeeps (w_ctx w) (w_ctx w')"

lemma ckeeps_refl [simp]: "ckeeps c c"
  by (simp add: ckeeps_def)

lemma ckeepsD:
  assumes "ckeeps c c'"
  shows "io_same (c_ios c a) (c_ios c' a)" "p \<in> snd ` set (c_list c') \<Longrightarrow> p \<in> snd ` set (c_list c)"
    "t \<in> set (c_pool c') \<Longrightarrow> t \<in> set (c_pool c) \<or> new_task c t"
    "ev_fd (t_objs (c_tg c') x) = ev_fd (t_objs (c_tg c) x)" "c_has_tg c' = c_has_tg c"
  using assms unfolding ckeeps_def by blast+

lemma ckeepsI:
  "(\<And>a. io_same (c_ios c a) (c_ios c' a)) \<Longrightarrow> snd ` set (c_list c') \<subseteq> snd ` set (c_list c) \<Longrightarrow>
   (\<And>t. t \<in> set (c_pool c') \<Longrightarrow> t \<in> set (c_pool c) \<or> new_task c t) \<Longrightarrow>
   (\<And>t. ev_fd (t_objs (c_tg c') t) = ev_fd (t_objs (c_tg c) t)) \<Longrightarrow> c_has_tg c' = c_has_tg c \<Longrightarrow> ckeeps c c'"
  by (simp add: ckeeps_def)

lemma new_task_mono: "snd ` set (c_list d) \<subseteq> snd ` set (c_list c) \<Longrightarrow> new_task d t \<Longrightarrow> new_task c t"
  by (auto simp: new_task_def split: pool_task.splits event_ptr.splits)

lemma ckeeps_trans: "ckeeps c d \<Longrightarrow> ckeeps d e \<Longrightarrow> ckeeps c e"
proof (rule ckeepsI)
  assume cd: "ckeeps c d" and de: "ckeeps d e"
  show "io_same (c_ios c a) (c_ios e a)" for a
    by (rule io_same_trans [OF ckeepsD(1) [OF cd] ckeepsD(1) [OF de]])
  show "snd ` set (c_list e) \<subseteq> snd ` set (c_list c)"
    using ckeepsD(2) [OF cd] ckeepsD(2) [OF de] by blast
  show "t \<in> set (c_pool e) \<Longrightarrow> t \<in> set (c_pool c) \<or> new_task c t" for t
    using ckeepsD(3) [OF de, of t] ckeepsD(3) [OF cd, of t] new_task_mono [of d c t] ckeepsD(2) [OF cd] by blast
  show "ev_fd (t_objs (c_tg e) t) = ev_fd (t_objs (c_tg c) t)" for t
    using ckeepsD(4) [OF cd, of t] ckeepsD(4) [OF de, of t] by simp
  show "c_has_tg e = c_has_tg c" using ckeepsD(5) [OF cd] ckeepsD(5) [OF de] by simp
qed

lemma keeps_refl [simp]: "keeps w w"
  by (simp add: keeps_def)

lemma keeps_trans: "keeps w x \<Longrightarrow> keeps x y \<Longrightarrow> keeps w y"
  unfolding keeps_def by (auto intro: ckeeps_trans)

section \<open>The context\<close>

lemma ckeeps_same:
  assumes "c_ios c' = c_ios c" "c_list c' = c_list c" "c_pool c' = c_pool c" "c_tg c' = c_tg c" "c_has_tg c' = c_has_tg c"
  shows "ckeeps c c'"
  by (rule ckeepsI) (simp_all add: assms)

lemma ckeeps_tg: "(\<And>t. ev_fd (t_objs g t) = ev_fd (t_objs (c_tg c) t)) \<Longrightarrow> ckeeps c (c\<lparr>c_tg := g\<rparr>)"
  by (rule ckeepsI) simp_all

lemma ckeeps_io: "io_same (c_ios c a) e \<Longrightarrow> ckeeps c (set_io a e c)"
  by (rule ckeepsI) (simp_all add: set_io_def)

lemma ckeeps_pool: "(\<And>t. t \<in> set ts \<Longrightarrow> new_task c t) \<Longrightarrow> ckeeps c (c\<lparr>c_pool := c_pool c @ ts\<rparr>)"
  by (rule ckeepsI) auto

lemma ckeeps_enqueue: "new_task c t \<Longrightarrow> ckeeps c (pool_enqueue t c)"
  unfolding pool_enqueue_def by (rule ckeeps_pool) simp

lemma new_task_simps [simp]:
  "new_task c (T_timer a)" "new_task c (T_handler (Tm a))" "new_task c (T_handler (Sg a))"
  "new_task c (T_handler (Io a)) = (Io a \<in> snd ` set (c_list c))"
  by (simp_all add: new_task_def)

lemma ckeeps_ctl: "ctl os opn fd ev c = (e, c') \<Longrightarrow> ckeeps c c'"
  by (auto simp: ctl_def intro!: ckeeps_same split: sysret.splits)

lemma ckeeps_add:
  assumes "epoll_add os now p c = Inr (ret, c')"
  shows "ckeeps c c'"
proof (cases p)
  case (Tm a)
  with assms show ?thesis
    by (auto simp: epoll_add_def AddTimer_def ctl_def Let_def intro!: ckeeps_enqueue ckeeps_tg ckeeps_same
        split: if_splits sysret.splits)
next
  case (Sg a)
  with assms show ?thesis
    by (auto simp: epoll_add_def ctl_def Let_def intro!: ckeeps_same split: if_splits sysret.splits)
next
  case (Io a)
  with assms show ?thesis
    by (auto simp: epoll_add_def ctl_def Let_def intro!: ckeeps_same split: if_splits sysret.splits)
qed

lemma ckeeps_del:
  assumes "epoll_del os p c = Inr (ret, c')"
  shows "ckeeps c c'"
proof (cases p)
  case (Tm a)
  with assms show ?thesis
    by (auto simp: epoll_del_def ctl_def DelTimer_fd intro!: ckeeps_tg ckeeps_same split: if_splits sysret.splits sum.splits)
next
  case (Sg a)
  with assms show ?thesis
    by (auto simp: epoll_del_def ctl_def Let_def intro!: ckeeps_same split: if_splits sysret.splits)
next
  case (Io a)
  with assms show ?thesis
    by (auto simp: epoll_del_def ctl_def Let_def intro!: ckeeps_same split: if_splits sysret.splits)
qed

lemma ckeeps_delist: "delist p c = Inr c' \<Longrightarrow> ckeeps c c'"
  by (rule ckeepsI) (auto simp: delist_def Let_def split: option.splits if_splits)

lemma ckeeps_DelEvent:
  assumes "DelEvent os q c = Inr c'"
  shows "ckeeps c c'"
proof -
  obtain p c1 where c1: "delist p c = Inr c1" "assert_zero (epoll_del os p c1) = Inr c'" using assms by (rule DelEvent_Inr)
  then obtain ret where "epoll_del os p c1 = Inr (ret, c')"
    by (auto simp: assert_zero_def split: sum.splits prod.splits if_splits)
  with c1(1) show ?thesis by (blast intro: ckeeps_trans ckeeps_delist ckeeps_del)
qed

lemma ckeeps_Active:
  assumes "p \<in> snd ` set (c_list c)"
  shows "ckeeps c (Active p c)"
proof (cases p)
  case (Io a)
  have "ckeeps c (set_io a ((c_ios c a)\<lparr>ev_status := ACTIVE\<rparr>) c)" by (rule ckeeps_io) simp
  moreover have "ckeeps (set_io a ((c_ios c a)\<lparr>ev_status := ACTIVE\<rparr>) c) (Active p c)"
    unfolding Active_def using assms Io by (simp, intro ckeeps_enqueue) (simp add: set_io_def)
  ultimately show ?thesis by (rule ckeeps_trans)
next
  case (Tm a)
  have "ckeeps c (c\<lparr>c_tg := set_timer a (\<lambda>t. t\<lparr>ev_status := ACTIVE\<rparr>) (c_tg c)\<rparr>)"
    by (rule ckeeps_tg) (simp add: set_timer_def)
  then show ?thesis unfolding Active_def Tm by (simp, elim ckeeps_trans) (rule ckeeps_enqueue, simp)
next
  case (Sg a)
  have "ckeeps c (c\<lparr>c_sigs := (c_sigs c)(a := (c_sigs c a)\<lparr>ev_status := ACTIVE\<rparr>)\<rparr>)"
    by (rule ckeeps_same) simp_all
  then show ?thesis unfolding Active_def Sg by (simp, elim ckeeps_trans) (rule ckeeps_enqueue, simp)
qed

lemma node_at_list: "node_at n c = Inr p \<Longrightarrow> p \<in> snd ` set (c_list c)"
  by (force simp: node_at_def dest: map_of_SomeD split: option.splits)

lemma ckeeps_ActiveEvent:
  assumes "ActiveEvent os key ev c = Inr (ret, c')"
  shows "ckeeps c c'"
proof (cases "c_table c key")
  case None
  with assms show ?thesis by (simp add: ActiveEvent_def)
next
  case (Some n)
  with assms obtain p where p: "node_at n c = Inr p" by (cases "node_at n c") (auto simp: ActiveEvent_def)
  have act: "ckeeps c1 c'" if r: "(if \<not> has (events_of p (Active p c1)) EV_PERSIST
      then (case DelEvent os (Some p) (Active p c1) of Inl f \<Rightarrow> Inl f | Inr c3 \<Rightarrow> Inr (EDN_OK, c3))
      else Inr (EDN_OK, Active p c1)) = Inr (ret, c')" "p \<in> snd ` set (c_list c1)" for c1
    using ckeeps_trans [OF ckeeps_Active [OF r(2)]] ckeeps_Active [OF r(2)] r(1)
    by (auto split: if_splits sum.splits dest: ckeeps_DelEvent)
  show ?thesis
  proof (cases "GetFd p c = c_sigfd c")
    case True
    with assms Some p show ?thesis by (intro act) (simp_all add: ActiveEvent_def Let_def node_at_list cong: if_cong sum.case_cong)
  next
    case False
    with assms Some p obtain a where a: "p = Io a" by (cases p) (auto simp: ActiveEvent_def)
    obtain m e where e: "ConvertEvents ev (c_ios c a) = (m, e)" by fastforce
    obtain c1 where c1: "c1 = set_io a (SetRealEvents m e) c" by simp
    have "ckeeps c c1" unfolding c1 by (rule ckeeps_io) (auto intro: io_same_Convert [OF e])
    moreover have "p \<in> snd ` set (c_list c1)" using node_at_list [OF p] by (simp add: c1 set_io_def)
    ultimately show ?thesis using assms Some p False a e c1 [symmetric]
      by (elim ckeeps_trans, intro act) (simp_all add: ActiveEvent_def Let_def cong: if_cong sum.case_cong)
  qed
qed

lemma ckeeps_DispatchSignal: "DispatchSignal os cs ans c = Inr (ret, c') \<Longrightarrow> ckeeps c c'"
  by (auto simp: DispatchSignal_def split: pipe_ans.splits sum.splits dest: ckeeps_ActiveEvent)

lemma ckeeps_dispatch_events:
  "dispatch_events os cs evs pipes c = Inr (ret, c') \<Longrightarrow> ckeeps c c'"
proof (induction os cs evs pipes c rule: dispatch_events.induct)
  case (2 os cs fd ev evs pipes c)
  show ?case
  proof (cases "fd = c_sigfd c")
    case True
    with "2.prems" obtain ans ps r c1 where c1: "pipes = ans # ps" "DispatchSignal os cs ans c = Inr (r, c1)"
      "dispatch_events os cs evs ps c1 = Inr (ret, c')"
      by (auto split: list.splits sum.splits)
    show ?thesis by (rule ckeeps_trans [OF ckeeps_DispatchSignal [OF c1(2)] "2.IH"(1) [OF True c1(1) c1(2) refl c1(3)]])
  next
    case False
    with "2.prems" obtain r c1 where c1: "ActiveEvent os fd ev c = Inr (r, c1)"
      "r \<noteq> EDN_OK \<and> c' = c1 \<or> r = EDN_OK \<and> dispatch_events os cs evs pipes c1 = Inr (ret, c')"
      by (auto split: sum.splits if_splits)
    from c1(2) have "ckeeps c1 c'" using "2.IH"(2) [OF False c1(1) refl] by auto
    then show ?thesis by (rule ckeeps_trans [OF ckeeps_ActiveEvent [OF c1(1)]])
  qed
qed simp

lemma ckeeps_timer_dispatch:
  assumes "timer_dispatch clock (c_tg c) = Inr (t, clock', g, fired)"
  shows "ckeeps c (c\<lparr>c_tg := g, c_pool := c_pool c @ map (\<lambda>a. T_handler (Tm a)) fired\<rparr>)"
proof -
  from assms obtain cl where "dispatch_loop clock (c_tg c) [] = Inr (cl, g, fired)"
    by (auto simp: timer_dispatch_def split: sum.splits)
  then have "ckeeps c (c\<lparr>c_tg := g\<rparr>)" by (intro ckeeps_tg dispatch_loop_fd)
  moreover have "ckeeps (c\<lparr>c_tg := g\<rparr>) (c\<lparr>c_tg := g, c_pool := c_pool c @ map (\<lambda>a. T_handler (Tm a)) fired\<rparr>)"
    using ckeeps_pool [of "map (\<lambda>a. T_handler (Tm a)) fired" "c\<lparr>c_tg := g\<rparr>"] by fastforce
  ultimately show ?thesis by (rule ckeeps_trans)
qed

lemma ckeeps_dispatch:
  assumes "dispatch os cs r tmo c = Inr (ret, tmo', c')"
  shows "ckeeps c c'"
proof -
  obtain evs where evs: "evs = (case rd_wait r of Wait_err e \<Rightarrow> [] | Wait_events evs \<Rightarrow> evs)" by simp
  show ?thesis
  proof (cases "dispatch_events os cs evs (rd_pipes r) c")
    case (Inl f)
    with assms evs show ?thesis by (auto simp: dispatch_def Let_def split: wait_ans.splits if_splits)
  next
    case (Inr rc)
    then obtain r1 c1 where c1: "dispatch_events os cs evs (rd_pipes r) c = Inr (r1, c1)" by (cases rc) auto
    note k = ckeeps_dispatch_events [OF c1]
    from assms evs c1 have "c' = c \<or> c' = c1 \<or> (\<exists>clock t g fired. timer_dispatch (rd_clock r) (c_tg c1) = Inr (t, clock, g, fired)
        \<and> c' = c1\<lparr>c_tg := g, c_pool := c_pool c1 @ map (\<lambda>a. T_handler (Tm a)) fired\<rparr>)"
      by (auto simp: dispatch_def Let_def split: wait_ans.splits if_splits sum.splits prod.splits)
    with k show ?thesis by (auto intro: ckeeps_trans ckeeps_timer_dispatch)
  qed
qed

section \<open>The world\<close>

lemma keeps_same_ctx:
  "w_ctx w' = w_ctx w \<Longrightarrow> w_io w' = w_io w \<Longrightarrow> w_tm w' = w_tm w \<Longrightarrow> w_timeout w' = w_timeout w \<Longrightarrow> keeps w w'"
  by (simp add: keeps_def)

lemma keeps_ctx: "keeps w0 w \<Longrightarrow> ckeeps (w_ctx w) c \<Longrightarrow> keeps w0 (w\<lparr>w_ctx := c\<rparr>)"
  by (auto simp: keeps_def intro: ckeeps_trans)

lemma keeps_upd_io:
  assumes "keeps w0 w" "io_same (io_at a w) (f (io_at a w))"
  shows "keeps w0 (upd_io a f w)"
  unfolding upd_io_def by (rule keeps_ctx [OF assms(1) ckeeps_io [OF assms(2)]])

lemma keeps_upd_conn:
  assumes "keeps w0 w" "\<And>p. as_connect (io_at a w) = Some p \<Longrightarrow> part_same p (f p)"
  shows "keeps w0 (upd_conn a f w)"
  unfolding upd_conn_def by (rule keeps_upd_io [OF assms(1)]) (rule io_same_part, simp, rule assms(2))

lemma keeps_upds [intro]:
  "keeps w0 w \<Longrightarrow> keeps w0 (run_cbs cs w)" "keeps w0 w \<Longrightarrow> keeps w0 (syscalls ss w)"
  "keeps w0 w \<Longrightarrow> keeps w0 (w\<lparr>w_table := t\<rparr>)" "keeps w0 w \<Longrightarrow> keeps w0 (w\<lparr>w_send := s, w_recv := r\<rparr>)"
  "keeps w0 w \<Longrightarrow> keeps w0 (w\<lparr>w_send := s, w_wire := z\<rparr>)" "keeps w0 w \<Longrightarrow> keeps w0 (w\<lparr>w_recv := r, w_data := d\<rparr>)"
  by (auto elim!: keeps_trans intro!: keeps_same_ctx simp: run_cbs_def syscalls_def)

lemma keeps_events [intro]: "keeps w0 w \<Longrightarrow> keeps w0 (upd_io a (SetEvents m x) w)"
  by (rule keeps_upd_io) simp_all

lemma keeps_SetTimer [intro]: "keeps w0 w \<Longrightarrow> keeps w0 (SetTimer a None w)"
  unfolding SetTimer_def by (rule keeps_upd_conn) (simp_all add: part_same_def)

lemma keeps_info [intro]: "keeps w0 w \<Longrightarrow> keeps w0 (upd_conn a (connect_info_update f) w)"
  by (rule keeps_upd_conn) (simp_all add: part_same_def)

lemma keeps_output [intro]:
  "the_conn a w = Inr p \<Longrightarrow> deref (output_buffer p) = Inr b0 \<Longrightarrow> keeps w0 w \<Longrightarrow>
     keeps w0 (upd_conn a (output_buffer_update (\<lambda>_. Some b)) w)"
  by (rule keeps_upd_conn) (auto simp: part_same_def the_conn_def deref_def split: option.splits)

lemma keeps_input [intro]:
  "the_conn a w = Inr p \<Longrightarrow> deref (input_buffer p) = Inr b0 \<Longrightarrow> keeps w0 w \<Longrightarrow>
     keeps w0 (upd_conn a (input_buffer_update (\<lambda>_. Some b)) w)"
  by (rule keeps_upd_conn) (auto simp: part_same_def the_conn_def deref_def split: option.splits)

lemma keeps_DelEvent: "with_ctx (DelEvent os q) w = Inr w' \<Longrightarrow> keeps w0 w \<Longrightarrow> keeps w0 w'"
  by (auto simp: with_ctx_Inr intro: keeps_ctx ckeeps_DelEvent)

lemma keeps_add_again: "add_again env a w = Inr (r, w') \<Longrightarrow> keeps w0 w \<Longrightarrow> keeps w0 w'"
  by (auto simp: add_again_def split: sum.splits intro: keeps_ctx dest!: ckeeps_add)

lemma keeps_Close: "conn_Close env a w = Inr w' \<Longrightarrow> keeps w0 w \<Longrightarrow> keeps w0 w'"
  by (auto simp: conn_Close_def try_then_Inr split: option.splits intro!: keeps_upds keeps_SetTimer intro: keeps_DelEvent)

lemma keeps_SendData:
  assumes "SendData env a data len cb w = Inr (r, w')" "keeps w0 w"
  shows "keeps w0 w'"
  using assms unfolding SendData_def
  by (auto simp: try_then_Inr Let_def split: option.splits if_splits elim!: keeps_add_again)

lemma keeps_on_conn: "on_conn env a w = Inr (r, w') \<Longrightarrow> keeps w0 w \<Longrightarrow> keeps w0 w'"
  by (auto simp: on_conn_def SetConnectInfo_def try_then_Inr split: if_splits
      intro!: keeps_upds(3) keeps_SetTimer keeps_info intro: keeps_DelEvent)

lemma keeps_on_read: "on_read env a w = Inr (r, w') \<Longrightarrow> keeps w0 w \<Longrightarrow> keeps w0 w'"
  by (auto simp: on_read_def Let_def try_then_Inr split: if_splits
      intro!: keeps_input [where w = "w\<lparr>w_recv := r, w_data := d\<rparr>" for w r d] keeps_upds simp: the_conn_def)

lemma keeps_on_write:
  assumes "on_write env a w = Inr (r, w')" "keeps w0 w"
  shows "keeps w0 w'"
proof -
  from assms(1) obtain p b where p: "the_conn a w = Inr p" "deref (output_buffer p) = Inr b"
    by (cases "the_conn a w"; cases "deref (output_buffer (projr (the_conn a w)))") (simp_all add: on_write_def)
  show ?thesis
  proof (cases "0 < GetSize b")
    case False
    with assms p show ?thesis by (auto simp: on_write_def Let_def split: if_splits)
  next
    case True
    with assms(1) p obtain ret b' out rest where sent: "SendAtMost (w_send w (fd_at a w)) b = Inr (ret, b', out, rest)"
      by (cases "SendAtMost (w_send w (fd_at a w)) b") (auto simp: on_write_def Let_def)
    obtain w1 where w1: "w1 = upd_conn a (output_buffer_update (\<lambda>_. Some b'))
        (w\<lparr>w_send := (w_send w)(fd_at a w := rest), w_wire := (w_wire w)(fd_at a w := w_wire w (fd_at a w) @ out)\<rparr>)" by simp
    have k: "keeps w0 w1" unfolding w1 using p assms(2) by (intro keeps_output keeps_upds) (simp_all add: the_conn_def)
    from True assms(1) p sent w1 [symmetric]
    have "conn_Close env a w1 = Inr w' \<or> (\<exists>w2 \<in> {w1, run_cbs (CallBack \<lparr>edn_code = EDN_OK, sys_code = 0, errmsg = dec_int ret\<rparr> b') w1}.
        w' = w2 \<or> w' = upd_io a (SetEvents EV_WRITE False) w2)"
      by (auto simp: on_write_def Let_def try_then_Inr split: if_splits)
    with k show ?thesis by (auto intro: keeps_Close)
  qed
qed

lemma keeps_on_close: "on_close env a w = Inr (r, w') \<Longrightarrow> keeps w0 w \<Longrightarrow> keeps w0 w'"
  by (auto simp: on_close_def try_then_Inr elim!: keeps_DelEvent keeps_Close)

lemma keeps_on_error: "on_error env a w = Inr (r, w') \<Longrightarrow> keeps w0 w \<Longrightarrow> keeps w0 w'"
  by (auto simp: on_error_def try_then_Inr elim!: keeps_on_close)

lemma keeps_run_cb: "run_cb no_user env a cb w = Inr (r, w') \<Longrightarrow> keeps w0 w \<Longrightarrow> keeps w0 w'"
  by (cases cb)
    (auto simp: run_cb_def no_user_def elim!: keeps_on_conn keeps_on_read keeps_on_write keeps_on_error keeps_on_close)

lemma keeps_rearm: "rearm env a t w = Inr w' \<Longrightarrow> keeps w0 w \<Longrightarrow> keeps w0 w'"
proof -
  assume r: "rearm env a t w = Inr w'" and k: "keeps w0 w"
  have "keeps w0 (upd_io a (task_rearm t) w)" by (rule keeps_upd_io [OF k]) (cases t; simp)
  with r show ?thesis by (auto simp: rearm_def try_then_Inr elim!: keeps_add_again)
qed

lemma keeps_run_io_task: "run_io_task no_user env a t w = Inr w' \<Longrightarrow> keeps w0 w \<Longrightarrow> keeps w0 w'"
  by (cases t) (auto simp: run_io_task_def try_then_Inr elim!: keeps_rearm keeps_run_cb)

lemma keeps_connect_timeout: "connect_timeout env held t a cb w = Inr w' \<Longrightarrow> keeps w0 w \<Longrightarrow> keeps w0 w'"
  by (auto simp: connect_timeout_def try_then_Inr split: if_splits elim!: keeps_DelEvent intro!: keeps_upds(1)
      elim: keeps_Close)

lemma keeps_run_timer_task:
  assumes "run_timer_task no_user_timer env held t w = Inr w'" "keeps w0 w"
  shows "keeps w0 w'"
proof -
  obtain g where g: "g = (\<lambda>v. v\<lparr>w_ctx := (w_ctx v)\<lparr>c_tg := set_timer t (\<lambda>x. snd (event_handler x)) (c_tg (w_ctx v))\<rparr>\<rparr> :: world)"
    by simp
  have fin: "keeps w0 (g v)" if "keeps w0 v" for v
    unfolding g by (rule keeps_ctx [OF that ckeeps_tg]) (simp add: set_timer_def event_handler_def)
  from assms(1) g obtain cid a cb w1 where "connect_timeout env held t a cb w = Inr w1" "w' = g w1"
    by (auto simp: run_timer_task_def no_user_timer_def try_then_Inr split: option.splits)
  with fin assms(2) show ?thesis by (auto dest: keeps_connect_timeout [where ?w0.0 = w0])
qed

lemma keeps_edn_send_data: "edn_send_data env cid buf len cb w = Inr (r, w') \<Longrightarrow> keeps w0 w \<Longrightarrow> keeps w0 w'"
  by (auto simp: edn_send_data_def try_then_Inr split: if_splits option.splits elim!: keeps_SendData)

lemma keeps_handle: "SetHandleDataCallback a cb w = Inr (r, w') \<Longrightarrow> keeps w0 w \<Longrightarrow> keeps w0 w'"
  by (auto simp: SetHandleDataCallback_def try_then_Inr split: option.splits)

lemma keeps_message_end: "SetMessageEndCallback a cb w = Inr (r, w') \<Longrightarrow> keeps w0 w \<Longrightarrow> keeps w0 w'"
  by (auto simp: SetMessageEndCallback_def try_then_Inr split: option.splits)

lemma keeps_edn_set_opt:
  assumes "edn_set_opt cid opt w = Inr (r, w')" "keeps w0 w"
  shows "keeps w0 w'"
proof -
  from assms(1) obtain q where q: "find_conn cid w = Inr q" by (cases "find_conn cid w") (auto simp: edn_set_opt_def)
  with assms show ?thesis
    by (cases q; cases opt) (auto simp: edn_set_opt_def try_then_Inr elim!: keeps_handle keeps_message_end)
qed

lemma keeps_edn_close: "edn_close env cid w = Inr (r, w') \<Longrightarrow> keeps w0 w \<Longrightarrow> keeps w0 w'"
  by (auto simp: edn_close_def try_then_Inr split: option.splits elim!: keeps_DelEvent keeps_Close)

end
