(* ===== verification/Edn_System_Properties.thy ===== *)
theory Edn_System_Properties
  imports Edn_System_Frames
begin

text \<open>
  What holds in every world the running library can reach: the typing of the connections, of their timers and of
  the tasks that wait for a worker, and what it excludes.
\<close>

section \<open>The typing\<close>

text \<open>
  A connection has a descriptor and either its own callbacks with both buffers, or the default callbacks and no
  buffer: that of a constructor that returned early.
\<close>

definition conn_typed :: "dyn_io \<Rightarrow> bool" where
  "conn_typed e \<longleftrightarrow> 0 \<le> ev_fd e \<and>
     (case as_connect e of
        None \<Rightarrow> False
      | Some p \<Rightarrow>
          io_cbs e = [On_conn, On_read, On_write, On_error, On_close] \<and> input_buffer p \<noteq> None \<and> output_buffer p \<noteq> None
          \<or> io_cbs e = [Def_conn_cb, Def_read_cb, Def_write_cb, Def_error_cb, Def_close_cb]
            \<and> input_buffer p = None \<and> output_buffer p = None)"

definition own_task :: "io_task \<Rightarrow> dyn_io \<Rightarrow> bool" where
  "own_task io e \<longleftrightarrow>
     io \<in> {Conn_task (conn_cb e), Read_task (read_cb e), Write_task (write_cb e), Close_task (close_cb e), Error_task (error_cb e)}"

definition task_typed :: "world \<Rightarrow> pool_task \<Rightarrow> bool" where
  "task_typed w t \<longleftrightarrow>
     (case t of
        T_handler p \<Rightarrow> (case p of Io a \<Rightarrow> a < w_io w | _ \<Rightarrow> True)
      | T_timer a \<Rightarrow> True
      | T_io a io \<Rightarrow> a < w_io w \<and> own_task io (io_at a w))"

definition world_typed :: "world \<Rightarrow> bool" where
  "world_typed w \<longleftrightarrow>
     (\<forall>a. a < w_io w \<longrightarrow> conn_typed (io_at a w))
     \<and> (\<forall>a p t. a < w_io w \<longrightarrow> as_connect (io_at a w) = Some p \<longrightarrow> conn_timer p = Some t \<longrightarrow> t < w_tm w)
     \<and> (\<forall>a. Io a \<in> snd ` set (c_list (w_ctx w)) \<longrightarrow> a < w_io w)
     \<and> (\<forall>t. t \<in> set (c_pool (w_ctx w)) \<longrightarrow> task_typed w t)
     \<and> (\<forall>t. t < w_tm w \<longrightarrow> ev_fd (timer_at t w) = INVALID_FD)
     \<and> (\<forall>t a cb. w_timeout w t = Some (a, cb) \<longrightarrow> a < w_io w)
     \<and> c_has_tg (w_ctx w)"

lemma world_typedI:
  assumes "\<And>a. a < w_io w \<Longrightarrow> conn_typed (io_at a w)"
    "\<And>a p t. a < w_io w \<Longrightarrow> as_connect (io_at a w) = Some p \<Longrightarrow> conn_timer p = Some t \<Longrightarrow> t < w_tm w"
    "\<And>a. Io a \<in> snd ` set (c_list (w_ctx w)) \<Longrightarrow> a < w_io w"
    "\<And>t. t \<in> set (c_pool (w_ctx w)) \<Longrightarrow> task_typed w t"
    "\<And>t. t < w_tm w \<Longrightarrow> ev_fd (timer_at t w) = INVALID_FD"
    "\<And>t a cb. w_timeout w t = Some (a, cb) \<Longrightarrow> a < w_io w" "c_has_tg (w_ctx w)"
  shows "world_typed w"
  using assms unfolding world_typed_def by blast

lemma world_typedD:
  assumes "world_typed w"
  shows "a < w_io w \<Longrightarrow> conn_typed (io_at a w)"
    "a < w_io w \<Longrightarrow> as_connect (io_at a w) = Some p \<Longrightarrow> conn_timer p = Some t \<Longrightarrow> t < w_tm w"
    "Io a \<in> snd ` set (c_list (w_ctx w)) \<Longrightarrow> a < w_io w"
    "x \<in> set (c_pool (w_ctx w)) \<Longrightarrow> task_typed w x"
    "t < w_tm w \<Longrightarrow> ev_fd (timer_at t w) = INVALID_FD"
    "w_timeout w t = Some (a, cb) \<Longrightarrow> a < w_io w" "c_has_tg (w_ctx w)"
  using assms unfolding world_typed_def by blast+

section \<open>It is kept\<close>

lemma conn_typed_same: "io_same e e' \<Longrightarrow> conn_typed e \<Longrightarrow> conn_typed e'"
  by (cases "as_connect e"; cases "as_connect e'") (auto simp: io_same_def conn_typed_def part_same_def)

lemma own_task_same: "io_same e e' \<Longrightarrow> own_task io e' = own_task io e"
  by (simp add: io_same_def io_cbs_def own_task_def)

lemma io_same_timer:
  "io_same e e' \<Longrightarrow> as_connect e' = Some p' \<Longrightarrow> conn_timer p' = Some t \<Longrightarrow> \<exists>p. as_connect e = Some p \<and> conn_timer p = Some t"
  by (cases "as_connect e") (auto simp: io_same_def part_same_def)

lemma world_typed_keeps:
  assumes w: "world_typed w" and k: "keeps w w'"
  shows "world_typed w'"
proof (rule world_typedI)
  have n: "w_io w' = w_io w" "w_tm w' = w_tm w" "w_timeout w' = w_timeout w" and c: "ckeeps (w_ctx w) (w_ctx w')"
    using k by (simp_all add: keeps_def)
  note io = ckeepsD(1) [OF c] and D = world_typedD [OF w]
  show "conn_typed (io_at a w')" if "a < w_io w'" for a
    using that D(1) conn_typed_same [OF io] n by simp
  show "t < w_tm w'" if "a < w_io w'" "as_connect (io_at a w') = Some p" "conn_timer p = Some t" for a p t
    using io_same_timer [OF io that(2,3)] that(1) n D(2) by auto
  show "a < w_io w'" if "Io a \<in> snd ` set (c_list (w_ctx w'))" for a
    using ckeepsD(2) [OF c that] D(3) n by simp
  show "task_typed w' t" if "t \<in> set (c_pool (w_ctx w'))" for t
    using ckeepsD(3) [OF c that]
  proof
    assume "t \<in> set (c_pool (w_ctx w))"
    from D(4) [OF this] show ?thesis
      by (simp add: task_typed_def n own_task_same [OF io] split: pool_task.splits event_ptr.splits)
  next
    assume "new_task (w_ctx w) t"
    with D(3) show ?thesis by (auto simp: new_task_def task_typed_def n split: pool_task.splits event_ptr.splits)
  qed
  show "ev_fd (timer_at t w') = INVALID_FD" if "t < w_tm w'" for t
    using that D(5) [of t] ckeepsD(4) [OF c, of t] n by simp
  show "a < w_io w'" if "w_timeout w' t = Some (a, cb)" for t a cb
    using that n D(6) by metis
  show "c_has_tg (w_ctx w')" using D(7) ckeepsD(5) [OF c] by simp
qed

section \<open>Every step keeps it\<close>

lemma AddEvent_add: "AddEvent os now p c = Inr c' \<Longrightarrow> \<exists>ret. epoll_add os now p (enlist p c) = Inr (ret, c')"
  by (auto simp: AddEvent_def assert_zero_def split: sum.splits if_splits)

lemma AddEvent_io_fd: "AddEvent os now (Io a) c = Inr c' \<Longrightarrow> 0 \<le> ev_fd (c_ios c a)"
  by (drule AddEvent_add) (auto simp: epoll_add_def GetFd_def enlist_def Let_def split: if_splits)

lemma EdnConnect_info_typed:
  assumes "EdnConnect_info env u i cb = Inr (e, cs)" "0 \<le> ev_fd e"
  shows "conn_typed e \<and> (\<exists>p. as_connect e = Some p \<and> conn_timer p = None)"
proof -
  have bare: "conn_typed (bare_connect u fd j)" if "0 \<le> fd" for fd j
    using that
    by (simp add: conn_typed_def io_cbs_def bare_connect_def io_event.defs dyn_io.defs EdnIOEvent_def EdnIOEvent_cbs_def)
  have ready: "conn_typed (ready_connect env u fd cb)" if "0 \<le> fd" for fd
    using that by (simp add: conn_typed_def io_cbs_def) (simp add: ready_connect_def Let_def)
  from assms(1) consider fd j where "e = bare_connect u fd j" | fd where "e = ready_connect env u fd cb"
    by (auto simp: EdnConnect_info_def try_then_Inr case_prod_beta split: if_splits)
  then show ?thesis using assms(2) bare ready by cases auto
qed

lemma open_typed:
  assumes w: "world_typed w" and o: "edn_connect_open env info cb w = Inr (r, w')"
  shows "world_typed w'"
proof (cases "w' = w")
  case False
  let ?a = "w_io w"
  from o False obtain i u s e cs c where e: "EdnConnect_info env u i (Some cb) = Inr (e, cs)"
    and c: "AddEvent (e_os env) 0 (Io ?a) (w_ctx (syscalls cs (upd_io ?a (\<lambda>_. e) (w\<lparr>w_uuid := s, w_io := Suc ?a\<rparr>)))) = Inr c"
    and w': "w' = (syscalls cs (upd_io ?a (\<lambda>_. e) (w\<lparr>w_uuid := s, w_io := Suc ?a\<rparr>)))\<lparr>w_ctx := c\<rparr>"
    by (auto simp: edn_connect_open_def try_then_Inr with_ctx_Inr Let_def split: if_splits prod.splits)
  obtain w1 where w1: "w1 = syscalls cs (upd_io ?a (\<lambda>_. e) (w\<lparr>w_uuid := s, w_io := Suc ?a\<rparr>))" by simp
  have s1: "w_io w1 = Suc ?a" "w_tm w1 = w_tm w" "w_timeout w1 = w_timeout w" "c_list (w_ctx w1) = c_list (w_ctx w)"
    "c_pool (w_ctx w1) = c_pool (w_ctx w)" "c_tg (w_ctx w1) = c_tg (w_ctx w)" "c_has_tg (w_ctx w1) = c_has_tg (w_ctx w)"
    "\<And>b. io_at b w1 = (if b = ?a then e else io_at b w)"
    unfolding w1 by (simp_all add: upd_io_def set_io_def)
  note c = c [folded w1]
  from AddEvent_io_fd [OF c] have "0 \<le> ev_fd e" by (simp add: s1)
  from EdnConnect_info_typed [OF e this] have te: "conn_typed e" "\<And>p. as_connect e = Some p \<Longrightarrow> conn_timer p = None" by auto
  let ?c1 = "enlist (Io ?a) (w_ctx w1)"
  have c1: "c_ios ?c1 = c_ios (w_ctx w1)" "c_tg ?c1 = c_tg (w_ctx w)" "c_has_tg ?c1 = c_has_tg (w_ctx w)"
    "c_pool ?c1 = c_pool (w_ctx w)" "snd ` set (c_list ?c1) \<subseteq> insert (Io ?a) (snd ` set (c_list (w_ctx w)))"
    by (auto simp: enlist_def Let_def s1)
  note D = world_typedD [OF w]
  have "world_typed (w1\<lparr>w_ctx := ?c1\<rparr>)"
  proof (rule world_typedI)
    show "conn_typed (io_at b (w1\<lparr>w_ctx := ?c1\<rparr>))" if "b < w_io (w1\<lparr>w_ctx := ?c1\<rparr>)" for b
      using that te(1) D(1) [of b] by (auto simp: c1 s1 less_Suc_eq)
    show "t < w_tm (w1\<lparr>w_ctx := ?c1\<rparr>)" if "b < w_io (w1\<lparr>w_ctx := ?c1\<rparr>)"
      "as_connect (io_at b (w1\<lparr>w_ctx := ?c1\<rparr>)) = Some p" "conn_timer p = Some t" for b p t
      using that te(2) D(2) [of b p t] by (auto simp: c1 s1 less_Suc_eq split: if_splits)
    show "b < w_io (w1\<lparr>w_ctx := ?c1\<rparr>)" if "Io b \<in> snd ` set (c_list (w_ctx (w1\<lparr>w_ctx := ?c1\<rparr>)))" for b
      using that c1(5) D(3) [of b] by (auto simp: s1 intro: less_SucI)
    show "task_typed (w1\<lparr>w_ctx := ?c1\<rparr>) t" if "t \<in> set (c_pool (w_ctx (w1\<lparr>w_ctx := ?c1\<rparr>)))" for t
      using that D(4) [of t] by (auto simp: c1 s1 task_typed_def split: pool_task.splits event_ptr.splits)
    show "ev_fd (timer_at t (w1\<lparr>w_ctx := ?c1\<rparr>)) = INVALID_FD" if "t < w_tm (w1\<lparr>w_ctx := ?c1\<rparr>)" for t
      using that D(5) [of t] by (simp add: c1 s1)
    show "b < w_io (w1\<lparr>w_ctx := ?c1\<rparr>)" if "w_timeout (w1\<lparr>w_ctx := ?c1\<rparr>) t = Some (b, cb')" for t b cb'
      using that D(6) [of t b cb'] by (simp add: s1)
    show "c_has_tg (w_ctx (w1\<lparr>w_ctx := ?c1\<rparr>))" using D(7) by (simp add: c1)
  qed
  moreover from AddEvent_add [OF c] have "ckeeps ?c1 c" by (blast intro: ckeeps_add)
  then have "keeps (w1\<lparr>w_ctx := ?c1\<rparr>) w'" by (simp add: keeps_def w' w1)
  ultimately show ?thesis by (rule world_typed_keeps)
qed (simp add: w)

lemma arm_typed:
  assumes w: "world_typed w" and a: "a < w_io w" and arm: "edn_connect_arm env a tmo cb n1 n2 w = Inr (fd, w')"
  shows "world_typed w'"
proof -
  let ?t = "w_tm w"
  from arm obtain u s c where "AddEvent (e_os env) n2 (Tm ?t) (w_ctx (SetTimer a (Some ?t)
      (w\<lparr>w_uuid := s, w_tm := Suc ?t, w_timeout := (w_timeout w)(?t \<mapsto> (a, cb)),
         w_ctx := (w_ctx w)\<lparr>c_tg := set_timer ?t (\<lambda>_. EdnTimer u n1 tmo False (Some ?t)) (c_tg (w_ctx w))\<rparr>\<rparr>))) = Inr c"
    "w' = (SetTimer a (Some ?t) (w\<lparr>w_uuid := s, w_tm := Suc ?t, w_timeout := (w_timeout w)(?t \<mapsto> (a, cb)),
         w_ctx := (w_ctx w)\<lparr>c_tg := set_timer ?t (\<lambda>_. EdnTimer u n1 tmo False (Some ?t)) (c_tg (w_ctx w))\<rparr>\<rparr>))\<lparr>w_ctx := c\<rparr>"
    by (auto simp: edn_connect_arm_def try_then_Inr with_ctx_Inr Let_def split: prod.splits)
  then obtain w2 where w2: "w2 = SetTimer a (Some ?t) (w\<lparr>w_uuid := s, w_tm := Suc ?t, w_timeout := (w_timeout w)(?t \<mapsto> (a, cb)),
         w_ctx := (w_ctx w)\<lparr>c_tg := set_timer ?t (\<lambda>_. EdnTimer u n1 tmo False (Some ?t)) (c_tg (w_ctx w))\<rparr>\<rparr>)"
    and c: "AddEvent (e_os env) n2 (Tm ?t) (w_ctx w2) = Inr c" and w': "w' = w2\<lparr>w_ctx := c\<rparr>" by blast
  have s2: "w_io w2 = w_io w" "w_tm w2 = Suc ?t" "w_timeout w2 = (w_timeout w)(?t \<mapsto> (a, cb))"
    "c_list (w_ctx w2) = c_list (w_ctx w)" "c_pool (w_ctx w2) = c_pool (w_ctx w)"
    "c_tg (w_ctx w2) = set_timer ?t (\<lambda>_. EdnTimer u n1 tmo False (Some ?t)) (c_tg (w_ctx w))"
    "c_has_tg (w_ctx w2) = c_has_tg (w_ctx w)"
    "\<And>b. io_at b w2 = (if b = a then (io_at a w)\<lparr>as_connect := map_option (\<lambda>p. p\<lparr>conn_timer := Some ?t\<rparr>) (as_connect (io_at a w))\<rparr>
       else io_at b w)"
    by (simp_all add: w2 SetTimer_def)
  note D = world_typedD [OF w]
  have "world_typed w2"
  proof (rule world_typedI)
    show "conn_typed (io_at b w2)" if "b < w_io w2" for b
      using that D(1) [of b] by (auto simp: s2 conn_typed_def io_cbs_def split: option.splits)
    show "t < w_tm w2" if "b < w_io w2" "as_connect (io_at b w2) = Some p" "conn_timer p = Some t" for b p t
      using that D(2) [of b p t] by (auto simp: s2 split: if_splits)
    show "b < w_io w2" if "Io b \<in> snd ` set (c_list (w_ctx w2))" for b
      using that D(3) [of b] by (simp add: s2)
    show "task_typed w2 t" if "t \<in> set (c_pool (w_ctx w2))" for t
      using that D(4) [of t] by (auto simp: s2 task_typed_def own_task_def split: pool_task.splits event_ptr.splits)
    show "ev_fd (timer_at t w2) = INVALID_FD" if "t < w_tm w2" for t
      using that D(5) [of t] by (auto simp: s2 set_timer_def EdnTimer_def less_Suc_eq)
    show "b < w_io w2" if "w_timeout w2 t = Some (b, cb')" for t b cb'
      using that a D(6) [of t b cb'] by (auto simp: s2 split: if_splits)
    show "c_has_tg (w_ctx w2)" using D(7) by (simp add: s2)
  qed
  moreover have "enlist (Tm ?t) (w_ctx w2) = w_ctx w2"
    by (simp add: enlist_def Let_def GetFd_def s2 set_timer_def EdnTimer_def)
  with AddEvent_add [OF c] have "ckeeps (w_ctx w2) c" by (auto intro: ckeeps_add)
  then have "keeps w2 w'" by (simp add: keeps_def w')
  ultimately show ?thesis by (rule world_typed_keeps)
qed

lemma pool_typed:
  assumes "world_typed w" "\<And>t. t \<in> set ts \<Longrightarrow> task_typed w t"
  shows "world_typed (w\<lparr>w_ctx := (w_ctx w)\<lparr>c_pool := c_pool (w_ctx w) @ ts\<rparr>\<rparr>)"
proof -
  have "task_typed (w\<lparr>w_ctx := (w_ctx w)\<lparr>c_pool := c_pool (w_ctx w) @ ts\<rparr>\<rparr>) = task_typed w"
    by (rule ext) (simp add: task_typed_def split: pool_task.splits event_ptr.splits)
  then show ?thesis using assms by (auto simp: world_typed_def)
qed

lemma handler_typed:
  assumes w: "world_typed w" and a: "a < w_io w"
  shows "world_typed (run_io_handler a w)"
proof -
  obtain ts code e where h: "io_handler (io_at a w) = (ts, code, e)" by (cases "io_handler (io_at a w)") auto
  have e: "io_same (io_at a w) e" using h by (auto simp: io_handler_def event_handler_def)
  have ts: "own_task io e" if "io \<in> set ts" for io
    using h that by (auto simp: io_handler_def handler_tasks_def own_task_def event_handler_def split: if_splits)
  let ?w1 = "upd_io a (\<lambda>_. e) w"
  have w1: "world_typed ?w1" by (rule world_typed_keeps [OF w keeps_upd_io [OF keeps_refl e]])
  have "run_io_handler a w = ?w1\<lparr>w_ctx := (w_ctx ?w1)\<lparr>c_pool := c_pool (w_ctx ?w1) @ map (T_io a) ts\<rparr>\<rparr>"
    by (simp add: run_io_handler_def h Let_def)
  moreover have "world_typed \<dots>"
    by (rule pool_typed [OF w1]) (auto simp: task_typed_def a ts)
  ultimately show ?thesis by simp
qed

lemma keeps_take: "keeps w (take_task i w)"
  unfolding take_task_def
  by (rule keeps_ctx [OF keeps_refl], rule ckeepsI) (auto dest: in_set_takeD in_set_dropD)

lemma keeps_signal_handler: "run_signal_handler s w = Inr w' \<Longrightarrow> keeps w w'"
  by (auto simp: run_signal_handler_def try_then_Inr intro!: keeps_ctx ckeeps_same)

lemma pool_task_typed:
  assumes w: "world_typed w" and t: "task_typed w t" and r: "run_pool_task env t w = Inr w'"
  shows "world_typed w'"
proof -
  have k: "keeps w v \<Longrightarrow> world_typed v" for v by (rule world_typed_keeps [OF w])
  show ?thesis
  proof (cases t)
    case (T_handler p)
    then show ?thesis using r t handler_typed [OF w] k
      by (cases p) (auto simp: run_pool_task_def task_typed_def intro: k keeps_run_timer_task [OF _ keeps_refl] keeps_signal_handler)
  next
    case (T_timer a)
    with r show ?thesis by (auto simp: run_pool_task_def intro: k keeps_run_timer_task [OF _ keeps_refl])
  next
    case (T_io a io)
    with r show ?thesis by (auto simp: run_pool_task_def intro: k keeps_run_io_task [OF _ keeps_refl])
  qed
qed

lemma step_typed:
  assumes "sys_step env w w'" "world_typed w"
  shows "world_typed w'"
  using assms
proof (cases rule: sys_step.cases)
  case (tasks i)
  have "c_pool (w_ctx w) ! i \<in> set (c_pool (w_ctx w))" using tasks(1) by simp
  with world_typedD(4) [OF assms(2)] have "task_typed w (c_pool (w_ctx w) ! i)" .
  then have "task_typed (take_task i w) (c_pool (w_ctx w) ! i)"
    by (simp add: task_typed_def take_task_def split: pool_task.splits event_ptr.splits)
  with pool_task_typed [OF world_typed_keeps [OF assms(2) keeps_take]] tasks(2) show ?thesis by blast
next
  case (rounds cs rd tmo ret tmo' c)
  from keeps_ctx [OF keeps_refl ckeeps_dispatch [OF rounds(2)]] show ?thesis
    unfolding rounds(1) by (rule world_typed_keeps [OF assms(2)])
qed (auto intro: open_typed arm_typed world_typed_keeps [OF assms(2)] keeps_edn_send_data [OF _ keeps_refl]
    keeps_edn_set_opt [OF _ keeps_refl] keeps_edn_close [OF _ keeps_refl] keeps_upds(4) [OF keeps_refl])

lemma start_typed: "start_world w \<Longrightarrow> world_typed w"
  by (rule world_typedI) (auto simp: start_world_def)

section \<open>Reachable worlds\<close>

lemma reachable_typed: "sys_reachable env w0 w \<Longrightarrow> start_world w0 \<Longrightarrow> world_typed w"
  by (induction rule: sys_reachable.induct) (blast intro: start_typed step_typed)+

text \<open>A program start with the kernel of the other witnesses, and what its first connection brings.\<close>

definition sample_start :: world where
  "sample_start = (sample_world CS_CONNECTING)
     \<lparr>w_io := 0, w_tm := 0, w_timeout := Map.empty,
      w_ctx := (w_ctx (sample_world CS_CONNECTING))
        \<lparr>c_tg := EdnTimerGroup (\<lambda>a. EdnTimer (int a + 3) 1000 50 False (Some a)), c_list := [], c_next := 0, c_table := Map.empty\<rparr>\<rparr>"

lemma sample_started: "start_world sample_start"
  by (simp add: start_world_def sample_start_def sample_world_def)

lemma sample_start_connectable: "connectable sample_env sample_info 5 sample_start"
  using sample_connectable [of CS_CONNECTING]
  by (simp add: connectable_def new_address_def sample_start_def ctx_inv_def)

lemma sample_opened:
  obtains w where "sys_reachable sample_env sample_start w" "GetEvent 5 (w_ctx w) = Inr (Some (Io 0))"
    "io_at 0 w = ready_connect sample_env (wrap32 (w_uuid sample_start + 1)) 5 (Some 7)" "w_io w = 1" "w_tm w = 0"
proof -
  have z: "w_io sample_start = 0" by (simp add: sample_start_def)
  from edn_connect_open_ok [OF sample_start_connectable, of 7] obtain w where
    w: "edn_connect_open sample_env sample_info 7 sample_start = Inr (Inr (w_io sample_start), w)"
    "io_at (w_io sample_start) w = ready_connect sample_env (wrap32 (w_uuid sample_start + 1)) 5 (Some 7)"
    "GetEvent 5 (w_ctx w) = Inr (Some (Io (w_io sample_start)))" by blast
  have "sys_reachable sample_env sample_start w"
    by (rule sys_reachable.step [OF sys_reachable.start sys_step.opens [OF w(1)]])
  moreover have "w_io w = 1"
    using w(1) by (auto simp: edn_connect_open_def try_then_Inr with_ctx_Inr Let_def z split: if_splits prod.splits)
  moreover have "w_tm w = 0"
    using w(1) by (auto simp: edn_connect_open_def try_then_Inr with_ctx_Inr Let_def sample_start_def split: if_splits prod.splits)
  ultimately show thesis using w z by (intro that [of w]) simp_all
qed

text \<open>C13: The type of the running library: whatever calls, rounds of the loop, tasks and answers of the kernel have
  happened, in whatever order, every connection has a descriptor and either the callbacks of \<open>EdnConnect\<close> with
  both buffers or the default ones with none; every connect timer is a timer without a descriptor; every
  registered event and every waiting task names a connection that was made, a callback task the callback of its
  own connection; and what a timer's callback captured is such a connection.\<close>

theorem world_well_typed:
  assumes "sys_reachable env w0 w" "start_world w0"
  shows "world_typed w"
  by (rule reachable_typed [OF assms])

theorem world_well_typed_witness:
  "\<exists>w. sys_reachable sample_env sample_start w \<and> w_io w = 1 \<and> world_typed w"
proof -
  obtain w where "sys_reachable sample_env sample_start w" "w_io w = 1" by (rule sample_opened)
  with world_well_typed [OF _ sample_started] show ?thesis by blast
qed

section \<open>Null pointers\<close>

lemma DelTimer_no_null: "DelTimer t g \<noteq> Inl Null_deref"
  by (auto simp: DelTimer_def Let_def split: option.splits list.splits)

lemma Del_timer_no_null: "ev_fd (t_objs (c_tg c) t) = INVALID_FD \<Longrightarrow> c_has_tg c \<Longrightarrow> DelEvent os (Some (Tm t)) c \<noteq> Inl Null_deref"
  using DelTimer_no_null [of t "c_tg c"] by (auto simp: DelEvent_timer split: sum.splits)

lemma Del_io_no_null:
  assumes "0 \<le> ev_fd (c_ios c a)"
  shows "DelEvent os (Some (Io a)) c \<noteq> Inl Null_deref"
proof -
  have "GetFd (Io a) c1 = ev_fd (c_ios c a)" if "delist (Io a) c = Inr c1" for c1
    using that by (auto simp: delist_def GetFd_def Let_def split: option.splits if_splits)
  moreover have "delist (Io a) c \<noteq> Inl Null_deref" by (auto simp: delist_def Let_def split: option.splits)
  moreover have "epoll_del os (Io a) c1 \<noteq> Inl Null_deref" if "GetFd (Io a) c1 = ev_fd (c_ios c a)" for c1
    using assms that by (auto simp: epoll_del_def split: prod.splits option.splits)
  ultimately show ?thesis by (auto simp: DelEvent_def assert_zero_def split: sum.splits if_splits)
qed

lemma with_ctx_Inl: "with_ctx f w = Inl e \<longleftrightarrow> f (w_ctx w) = Inl e"
  by (cases "f (w_ctx w)") (simp_all add: with_ctx_def)

lemma try_then_Inl: "try_then r f = Inl e \<longleftrightarrow> r = Inl e \<or> (\<exists>x. r = Inr x \<and> f x = Inl e)"
  by (cases r) simp_all

lemma conn_typed_part: "conn_typed (io_at a w) \<Longrightarrow> \<exists>p. the_conn a w = Inr p \<and> as_connect (io_at a w) = Some p"
  by (auto simp: conn_typed_def the_conn_def split: option.splits)

lemma Close_no_null:
  assumes w: "world_typed w" and a: "a < w_io w"
  shows "conn_Close env a w \<noteq> Inl Null_deref"
proof -
  from conn_typed_part [OF world_typedD(1) [OF w a]] obtain p where
    p: "the_conn a w = Inr p" "as_connect (io_at a w) = Some p" by blast
  have "ev_fd (timer_at t w) = INVALID_FD" if "conn_timer p = Some t" for t
    using world_typedD(2) [OF w a p(2) that] world_typedD(5) [OF w] by simp
  with p(1) show ?thesis
    using Del_timer_no_null world_typedD(7) [OF w]
    by (auto simp: conn_Close_def try_then_Inl with_ctx_Inl split: option.splits)
qed

lemma Close_then_typed:
  assumes w: "world_typed w" and a: "a < w_io w" and "conn_Close env a w = Inr w1"
  shows "world_typed w1" "a < w_io w1"
proof -
  have "keeps w w1" by (rule keeps_Close [OF assms(3) keeps_refl])
  then show "world_typed w1" "a < w_io w1" using world_typed_keeps [OF w] a by (simp_all add: keeps_def)
qed

lemma Del_conn_no_null: "world_typed w \<Longrightarrow> a < w_io w \<Longrightarrow> with_ctx (DelEvent os (Some (Io a))) w \<noteq> Inl Null_deref"
  using Del_io_no_null [of "w_ctx w" a os] world_typedD(1) [of w a] by (simp add: with_ctx_Inl conn_typed_def)

lemma on_close_no_null:
  assumes "world_typed w" "a < w_io w"
  shows "on_close env a w \<noteq> Inl Null_deref"
  using Close_no_null [OF assms] Del_conn_no_null Close_then_typed [OF assms]
  by (auto simp: on_close_def try_then_Inl)

lemma run_cbs_typed: "world_typed w \<Longrightarrow> world_typed (run_cbs cs w)"
  by (rule world_typed_keeps) auto

lemma timeout_no_null:
  assumes "world_typed w" "a < w_io w"
  shows "connect_timeout env held t a cb w \<noteq> Inl Null_deref"
  using Close_no_null [OF assms] Del_conn_no_null [OF run_cbs_typed] Close_then_typed [OF assms]
  by (auto simp: connect_timeout_def try_then_Inl)

lemma timer_task_no_null:
  assumes "world_typed w"
  shows "run_timer_task no_user_timer env held t w \<noteq> Inl Null_deref"
  using timeout_no_null [OF assms] world_typedD(6) [OF assms]
  by (auto simp: run_timer_task_def try_then_Inl timer_handler_def no_user_timer_def split: option.splits)

lemma closing_cb_no_null:
  assumes w: "world_typed w" and a: "a < w_io w" and cb: "cb \<in> {close_cb (io_at a w), error_cb (io_at a w)}"
  shows "run_cb no_user env a cb w \<noteq> Inl Null_deref"
proof -
  have "on_error env a w \<noteq> Inl Null_deref" if "output_buffer p = Some b" "as_connect (io_at a w) = Some p" for p b
    using that on_close_no_null [OF run_cbs_typed [OF w]] a by (auto simp: on_error_def try_then_Inl)
  with world_typedD(1) [OF w a] cb show ?thesis
    using on_close_no_null [OF w a] conn_typed_part [OF world_typedD(1) [OF w a]]
    by (auto simp: conn_typed_def io_cbs_def run_cb_def split: option.splits)
qed

lemma find_conn_made:
  assumes "world_typed w" "find_conn cid w = Inr (Some a)"
  shows "a < w_io w"
proof -
  from assms(2) have "GetEvent cid (w_ctx w) = Inr (Some (Io a))"
    by (simp add: find_conn_Some)
  then have "Io a \<in> snd ` set (c_list (w_ctx w))"
    by (auto simp: GetEvent_def split: option.splits sum.splits dest: node_at_list)
  then show ?thesis by (rule world_typedD(3) [OF assms(1)])
qed

lemma find_conn_no_null: "find_conn cid w \<noteq> Inl Null_deref"
  by (auto simp: find_conn_def try_then_Inl GetEvent_def node_at_def split: option.splits)

lemma edn_close_no_null:
  assumes "world_typed w"
  shows "edn_close env cid w \<noteq> Inl Null_deref"
proof
  assume e: "edn_close env cid w = Inl Null_deref"
  then obtain a where a: "find_conn cid w = Inr (Some a)"
    "conn_Close env a w = Inl Null_deref \<or>
       (\<exists>w1. conn_Close env a w = Inr w1 \<and> with_ctx (DelEvent (e_os env) (Some (Io a))) w1 = Inl Null_deref)"
    using find_conn_no_null [of cid w] by (auto simp: edn_close_def try_then_Inl split: option.splits)
  note n = find_conn_made [OF assms a(1)]
  from a(2) show False
    using Close_no_null [OF assms n] Del_conn_no_null [OF Close_then_typed [OF assms n]] by blast
qed

lemma unlink_no_null: "unlink_head a b \<noteq> Inl Null_deref"
  by (simp add: unlink_head_def split: option.splits)

lemma send_loop_no_null: "send_loop script num node b sent \<noteq> Inl Null_deref"
proof (induction script num node b sent rule: send_loop.induct)
  case (2 script num a b sent)
  then show ?case
    using unlink_no_null
    by (auto simp: send_loop.simps(2) Let_def split: list.splits sysret.splits errno.splits sum.splits)
qed simp

lemma add_again_no_null: "0 \<le> fd_at a w \<Longrightarrow> add_again env a w \<noteq> Inl Null_deref"
  by (erule add_again_io [where env = env]) simp

lemma on_write_no_null:
  assumes w: "world_typed w" and a: "a < w_io w" and p: "as_connect (io_at a w) = Some p" "output_buffer p = Some b"
  shows "on_write env a w \<noteq> Inl Null_deref"
proof
  assume n: "on_write env a w = Inl Null_deref"
  obtain w1 where w1: "w1 = (\<lambda>b' rest out. upd_conn a (output_buffer_update (\<lambda>_. Some b'))
      (w\<lparr>w_send := (w_send w)(fd_at a w := rest), w_wire := (w_wire w)(fd_at a w := w_wire w (fd_at a w) @ out)\<rparr>))" by simp
  from n p obtain b' rest out where "conn_Close env a (w1 b' rest out) = Inl Null_deref"
    using send_loop_no_null
    by (auto simp: on_write_def SendAtMost_def try_then_Inl Let_def w1 split: if_splits)
  moreover have "keeps w (w1 b' rest out)" unfolding w1
    using p by (intro keeps_output [where p = p and ?b0.0 = b] keeps_upds) (simp_all add: the_conn_def)
  then have "world_typed (w1 b' rest out)" "a < w_io (w1 b' rest out)"
    using world_typed_keeps [OF w] a by (simp_all add: keeps_def)
  ultimately show False using Close_no_null by blast
qed

lemma write_task_no_null:
  assumes w: "world_typed w" and a: "a < w_io w"
  shows "run_io_task no_user env a (Write_task (write_cb (io_at a w))) w \<noteq> Inl Null_deref"
proof -
  have cb: "run_cb no_user env a (write_cb (io_at a w)) w \<noteq> Inl Null_deref"
    using world_typedD(1) [OF w a] on_write_no_null [OF w a]
    by (auto simp: conn_typed_def io_cbs_def run_cb_def split: option.splits)
  have re: "rearm env a (Write_task (write_cb (io_at a w))) w1 \<noteq> Inl Null_deref"
    if "run_cb no_user env a (write_cb (io_at a w)) w = Inr (r, w1)" for r w1
  proof -
    have "keeps w w1" by (rule keeps_run_cb [OF that keeps_refl])
    then have "0 \<le> fd_at a (upd_io a (task_rearm (Write_task (write_cb (io_at a w)))) w1)"
      using world_typed_keeps [OF w] a world_typedD(1) [of w1 a] by (simp add: keeps_def conn_typed_def)
    then show ?thesis by (simp add: rearm_def try_then_Inl add_again_no_null)
  qed
  show ?thesis using cb re by (auto simp: run_io_task_def try_then_Inl)
qed

text \<open>All tasks but the connect and read callbacks (and signals, which the C interface does not have).\<close>

fun steady_task :: "pool_task \<Rightarrow> bool" where
  "steady_task (T_io a (Close_task cb)) = True"
| "steady_task (T_io a (Error_task cb)) = True"
| "steady_task (T_io a (Write_task cb)) = True"
| "steady_task (T_timer t) = True"
| "steady_task (T_handler (Tm t)) = True"
| "steady_task (T_handler (Io a)) = True"
| "steady_task _ = False"

lemma steady_task_no_null:
  assumes w: "world_typed w" and t: "task_typed w t" "steady_task t"
  shows "run_pool_task env t w \<noteq> Inl Null_deref"
  using t
proof (induction t rule: steady_task.induct)
  case (1 a cb)
  then have "a < w_io w" "cb = close_cb (io_at a w)" by (auto simp: task_typed_def own_task_def)
  with closing_cb_no_null [OF w, of a cb env] show ?case by (auto simp: run_pool_task_def run_io_task_def try_then_Inl)
next
  case (2 a cb)
  then have "a < w_io w" "cb = error_cb (io_at a w)" by (auto simp: task_typed_def own_task_def)
  with closing_cb_no_null [OF w, of a cb env] show ?case by (auto simp: run_pool_task_def run_io_task_def try_then_Inl)
next
  case (3 a cb)
  then have "a < w_io w" "cb = write_cb (io_at a w)" by (auto simp: task_typed_def own_task_def)
  with write_task_no_null [OF w, of a env] show ?case by (simp add: run_pool_task_def)
qed (simp_all add: run_pool_task_def timer_task_no_null [OF w])


text \<open>A connection whose timeout is over when its timer is registered: the timer's task is waiting.\<close>

lemma sample_armed:
  obtains w i where "sys_reachable sample_env sample_start w" "i < length (c_pool (w_ctx w))" "c_pool (w_ctx w) ! i = T_timer 0"
proof -
  obtain w where w: "sys_reachable sample_env sample_start w" "w_io w = 1" "w_tm w = 0" by (rule sample_opened)
  obtain u s where u: "GetUUID (w_uuid w) = (u, s)" by fastforce
  obtain w2 where w2: "w2 = SetTimer 0 (Some 0) (w\<lparr>w_uuid := s, w_tm := 1, w_timeout := (w_timeout w)(0 \<mapsto> (0, 7)),
         w_ctx := (w_ctx w)\<lparr>c_tg := set_timer 0 (\<lambda>_. EdnTimer u 1000 0 False (Some 0)) (c_tg (w_ctx w))\<rparr>\<rparr>)" by simp
  have t: "timer_at 0 w2 = EdnTimer u 1000 0 False (Some 0)" by (simp add: w2 SetTimer_def set_timer_def)
  then have "AddEvent (e_os sample_env) 1001 (Tm 0) (w_ctx w2) = Inr (pool_enqueue (T_timer 0) (w_ctx w2))"
    by (simp add: AddEvent_def enlist_def Let_def GetFd_def EdnTimer_def epoll_add_def assert_zero_def wrap32_def)
  then have "edn_connect_arm sample_env 0 0 7 1000 1001 w =
      Inr (fd_at 0 (w2\<lparr>w_ctx := pool_enqueue (T_timer 0) (w_ctx w2)\<rparr>), w2\<lparr>w_ctx := pool_enqueue (T_timer 0) (w_ctx w2)\<rparr>)"
    by (simp add: edn_connect_arm_def u Let_def w(3) w2 with_ctx_def)
  from sys_reachable.step [OF w(1) sys_step.arms [OF _ this]] w(2) show thesis
    by (intro that [of "w2\<lparr>w_ctx := pool_enqueue (T_timer 0) (w_ctx w2)\<rparr>" "length (c_pool (w_ctx w2))"])
      (simp_all add: pool_enqueue_def nth_append)
qed


end
