(* ===== verification/Edn_System_Delivery.thy ===== *)
theory Edn_System_Delivery
  imports Edn_System_Properties
begin

text \<open>
  A message from the call that sends it to the wire, through every component: the buffer, the event loop, the
  event's handler in the pool and the write task the handler enqueues.
\<close>

section \<open>What sending leaves alone\<close>

lemma SendData_frame:
  assumes "SendData env a data len cb w = Inr (r, w')" "0 \<le> fd_at a w"
  shows "c_list (w_ctx w') = c_list (w_ctx w)" "c_table (w_ctx w') = c_table (w_ctx w)" "c_pool (w_ctx w') = c_pool (w_ctx w)"
    "c_tg (w_ctx w') = c_tg (w_ctx w)" "c_has_tg (w_ctx w') = c_has_tg (w_ctx w)" "c_sigfd (w_ctx w') = c_sigfd (w_ctx w)"
    "connect_status (io_at a w') = connect_status (io_at a w)" "real_events (io_at a w') = real_events (io_at a w)"
    "io_cbs (io_at a w') = io_cbs (io_at a w)" "IsPersist (io_at a w') = IsPersist (io_at a w)"
proof -
  let ?P = "\<lambda>w'. c_list (w_ctx w') = c_list (w_ctx w) \<and> c_table (w_ctx w') = c_table (w_ctx w) \<and> c_pool (w_ctx w') = c_pool (w_ctx w)
    \<and> c_tg (w_ctx w') = c_tg (w_ctx w) \<and> c_has_tg (w_ctx w') = c_has_tg (w_ctx w) \<and> c_sigfd (w_ctx w') = c_sigfd (w_ctx w)
    \<and> connect_status (io_at a w') = connect_status (io_at a w) \<and> real_events (io_at a w') = real_events (io_at a w)
    \<and> io_cbs (io_at a w') = io_cbs (io_at a w) \<and> IsPersist (io_at a w') = IsPersist (io_at a w)"
  have m: "\<not> has 1 4" by (simp add: has_def)
  have add: "?P v" if "add_again env a (upd_io a (SetEvents EV_WRITE True) (upd_conn a f w)) = Inr (r, v)" for f r v
  proof -
    have "0 \<le> fd_at a (upd_io a (SetEvents EV_WRITE True) (upd_conn a f w))" using assms(2) by simp
    then obtain ret ctls where "add_again env a (upd_io a (SetEvents EV_WRITE True) (upd_conn a f w)) =
        Inr (ret, (upd_io a (SetEvents EV_WRITE True) (upd_conn a f w))\<lparr>w_ctx :=
          (w_ctx (upd_io a (SetEvents EV_WRITE True) (upd_conn a f w)))\<lparr>c_ctl :=
            c_ctl (w_ctx (upd_io a (SetEvents EV_WRITE True) (upd_conn a f w))) @ ctls\<rparr>\<rparr>)" by (rule add_again_io)
    with that show ?thesis by (auto simp: io_cbs_def SetEvents_def IsPersist_def m)
  qed
  from assms(1) consider "w' = w" | cs where "w' = run_cbs cs w" | b where "w' = upd_conn a (\<lambda>p. p\<lparr>output_buffer := Some b\<rparr>) w"
    | b where "add_again env a (upd_io a (SetEvents EV_WRITE True) (upd_conn a (\<lambda>p. p\<lparr>output_buffer := Some b\<rparr>) w)) = Inr (r, w')"
    by (auto simp: SendData_def try_then_Inr Let_def split: option.splits if_splits)
  then have "?P w'"
  proof cases
    case 4
    then show ?thesis by (rule add)
  qed (simp_all add: io_cbs_def IsPersist_def)
  then show "c_list (w_ctx w') = c_list (w_ctx w)" "c_table (w_ctx w') = c_table (w_ctx w)" "c_pool (w_ctx w') = c_pool (w_ctx w)"
    "c_tg (w_ctx w') = c_tg (w_ctx w)" "c_has_tg (w_ctx w') = c_has_tg (w_ctx w)" "c_sigfd (w_ctx w') = c_sigfd (w_ctx w)"
    "connect_status (io_at a w') = connect_status (io_at a w)" "real_events (io_at a w') = real_events (io_at a w)"
    "io_cbs (io_at a w') = io_cbs (io_at a w)" "IsPersist (io_at a w') = IsPersist (io_at a w)" by simp_all
qed

section \<open>The round and the handler\<close>

lemma ConvertEvents_writable:
  "connect_status e \<noteq> CS_CONNECTING \<Longrightarrow>
     ConvertEvents EPOLLOUT e = (EV_WRITE, SetEvents EV_WRITE False (e\<lparr>connect_status := CS_WRITE\<rparr>))"
  by (simp add: ConvertEvents_def has_def)

text \<open>A round in which one descriptor is reported and no timer is due.\<close>

lemma dispatch_one:
  assumes "ActiveEvent os fd ev c = Inr (EDN_OK, c')" "fd \<noteq> c_sigfd c" "c_has_tg c'"
    "timer_dispatch (rd_clock rd) (c_tg c') = Inr (t, clk, c_tg c', [])" "rd_wait rd = Wait_events [(fd, ev)]"
  shows "dispatch os cs rd tmo c = Inr (EDN_OK, t, c')"
  using assms by (simp add: dispatch_def)

lemma no_timers: "t_queue g = [] \<Longrightarrow> timer_dispatch clock g = Inr (- 1, clock, g, [])"
  by (simp add: timer_dispatch_def dispatch_loop.simps min_timeout_def)

text \<open>A report for a registered event: what the loop leaves behind, for any conversion of the mask.\<close>

lemma round_report:
  assumes "GetEvent fd c = Inr (Some (Io a))" "ev_fd (c_ios c a) = fd" "fd \<noteq> c_sigfd c" "IsPersist (c_ios c a)"
    "ConvertEvents ev (c_ios c a) = (r, e)" "real_events (c_ios c a) = 0" "c_has_tg c"
    "timer_dispatch (rd_clock rd) (c_tg c) = Inr (t, clk, c_tg c, [])" "rd_wait rd = Wait_events [(fd, ev)]"
  obtains c' where "dispatch os cs rd tmo c = Inr (EDN_OK, t, c')" "c_pool c' = c_pool c @ [T_handler (Io a)]"
    "c_ios c' a = e\<lparr>real_events := r, ev_status := ACTIVE\<rparr>"
    "c_list c' = c_list c" "c_table c' = c_table c" "c_tg c' = c_tg c" "c_has_tg c' = c_has_tg c"
proof -
  note act = ActiveEvent_io [OF assms(1) _ assms(4,5)]
  have fd: "GetFd (Io a) c \<noteq> c_sigfd c" using assms(2,3) by (simp add: GetFd_def)
  have "real_events e = 0" using ConvertEvents_real [of ev "c_ios c a"] assms(5,6) by simp
  then show thesis
    by (intro that [OF dispatch_one [OF act(1) [OF fd] assms(3) _ _ assms(9)]])
      (use act(2) [OF fd] assms(7,8) in \<open>simp_all add: SetRealEvents_def\<close>)
qed

text \<open>The handler: the event is idle and unmarked again, its tasks are at the end of the pool.\<close>

lemma run_io_handler_eq:
  "run_io_handler a w = (upd_io a (\<lambda>e. e\<lparr>real_events := 0, ev_status := IDLE\<rparr>) w)
    \<lparr>w_ctx := (w_ctx (upd_io a (\<lambda>e. e\<lparr>real_events := 0, ev_status := IDLE\<rparr>) w))
      \<lparr>c_pool := c_pool (w_ctx w) @ map (T_io a) (handler_tasks (io_at a w))\<rparr>\<rparr>"
  by (simp add: run_io_handler_def io_handler_def event_handler_def upd_io_def set_io_def Let_def)

lemma run_io_handler_sel [simp]:
  "io_at b (run_io_handler a w) = (if b = a then (io_at a w)\<lparr>real_events := 0, ev_status := IDLE\<rparr> else io_at b w)"
  "c_pool (w_ctx (run_io_handler a w)) = c_pool (w_ctx w) @ map (T_io a) (handler_tasks (io_at a w))"
  "c_list (w_ctx (run_io_handler a w)) = c_list (w_ctx w)" "c_table (w_ctx (run_io_handler a w)) = c_table (w_ctx w)"
  "c_tg (w_ctx (run_io_handler a w)) = c_tg (w_ctx w)" "c_has_tg (w_ctx (run_io_handler a w)) = c_has_tg (w_ctx w)"
  "w_table (run_io_handler a w) = w_table w" "w_send (run_io_handler a w) = w_send w" "w_wire (run_io_handler a w) = w_wire w"
  "w_cbs (run_io_handler a w) = w_cbs w" "w_recv (run_io_handler a w) = w_recv w" "w_data (run_io_handler a w) = w_data w"
  by (simp_all add: run_io_handler_eq)

lemma take_task_sel [simp]:
  "c_ios (w_ctx (take_task i w)) = c_ios (w_ctx w)" "c_list (w_ctx (take_task i w)) = c_list (w_ctx w)"
  "c_table (w_ctx (take_task i w)) = c_table (w_ctx w)" "c_tg (w_ctx (take_task i w)) = c_tg (w_ctx w)"
  "c_has_tg (w_ctx (take_task i w)) = c_has_tg (w_ctx w)" "w_table (take_task i w) = w_table w"
  "w_send (take_task i w) = w_send w" "w_wire (take_task i w) = w_wire w" "w_cbs (take_task i w) = w_cbs w"
  "w_recv (take_task i w) = w_recv w" "w_data (take_task i w) = w_data w"
  "c_pool (w_ctx w) = t # ts \<Longrightarrow> c_pool (w_ctx (take_task 0 w)) = ts"
  by (simp_all add: take_task_def)

text \<open>What a task does after its callback: the event asks for what the task's kind says and is registered again.\<close>

lemma rearm_done:
  assumes "0 \<le> fd_at a w"
  obtains w' where "rearm env a t w = Inr w'" "io_at a w' = task_rearm t (io_at a w)" "c_tg (w_ctx w') = c_tg (w_ctx w)"
    "c_pool (w_ctx w') = c_pool (w_ctx w)" "c_list (w_ctx w') = c_list (w_ctx w)" "c_table (w_ctx w') = c_table (w_ctx w)"
    "w_table w' = w_table w" "w_cbs w' = w_cbs w" "w_recv w' = w_recv w" "w_data w' = w_data w" "w_wire w' = w_wire w"
proof -
  let ?w = "upd_io a (task_rearm t) w"
  have "0 \<le> fd_at a ?w" using assms by (cases t) (simp_all add: SetEvents_def)
  then obtain ret ctls where "add_again env a ?w = Inr (ret, ?w\<lparr>w_ctx := (w_ctx ?w)\<lparr>c_ctl := c_ctl (w_ctx ?w) @ ctls\<rparr>\<rparr>)"
    by (rule add_again_io)
  then have "rearm env a t w = Inr (?w\<lparr>w_ctx := (w_ctx ?w)\<lparr>c_ctl := c_ctl (w_ctx ?w) @ ctls\<rparr>\<rparr>)" by (simp add: rearm_def)
  then show thesis by (rule that) simp_all
qed

section \<open>The write task\<close>

lemma write_task_sent:
  assumes "as_connect (io_at a w) = Some p" "output_buffer p = Some b" "out_inv b" "accounted b" "content b \<noteq> []"
    "SendAtMost (w_send w (fd_at a w)) b = Inr (ret, b', out, rest)" "0 \<le> ret" "0 \<le> fd_at a w"
    "opt_cb b' = Some cb" "low_water_mark b' = 0"
  obtains w' where "run_io_task no_user env a (Write_task On_write) w = Inr w'"
    "w_wire w' (fd_at a w) = w_wire w (fd_at a w) @ out" "w_cbs w' = w_cbs w @ [(cb, EDN_OK)]"
proof -
  obtain w1 where w1: "on_write env a w = Inr (EDN_OK, w1)" "w_wire w1 (fd_at a w) = w_wire w (fd_at a w) @ out"
    "w_cbs w1 = w_cbs w @ [(cb, EDN_OK)]" "fd_at a w1 = fd_at a w"
    using on_write_sent [OF assms(1-7), of env] assms(9,10) by (auto simp: GetLowWaterMark_def)
  have "0 \<le> fd_at a w1" using w1(4) assms(8) by simp
  then obtain w2 where w2: "rearm env a (Write_task On_write) w1 = Inr w2" "w_wire w2 = w_wire w1" "w_cbs w2 = w_cbs w1"
    by (rule rearm_done)
  show thesis by (rule that [of w2]) (use w1 w2 in \<open>simp_all add: run_io_task_def run_cb_def\<close>)
qed

text \<open>C2: A message sent on an idle connection goes all the way: after \<open>edn_send_data\<close> one round of the loop that reports
  the descriptor writable leaves one task in the pool, the event's handler; the handler leaves one, the write
  task; and the write task puts the message on the wire and reports it to the callback.\<close>

theorem message_reaches_wire:
  assumes "wf_config (e_cfg env)" "ctx_inv (w_ctx w)" "find_conn cid w = Inr (Some a)" "as_connect (io_at a w) = Some p"
    "output_buffer p = Some b" "out_ready (e_cfg env) b" "low_water_mark b = 0" "fits_block (e_cfg env) d"
    "connect_status (io_at a w) \<in> {CS_CONNECTED, CS_READ, CS_WRITE}" "0 \<le> cid" "cid \<noteq> c_sigfd (w_ctx w)"
    "IsPersist (io_at a w)" "real_events (io_at a w) = 0" "write_cb (io_at a w) = On_write"
    "t_queue (c_tg (w_ctx w)) = []" "c_has_tg (w_ctx w)" "c_pool (w_ctx w) = []"
    "w_send w cid = Ret k # rest" "length d \<le> nat k" "rd_wait rd = Wait_events [(cid, EPOLLOUT)]"
  shows "\<exists>w1 c2 w3 w4. edn_send_data env cid (Some d) (int (length d)) cb w = Inr (EDN_OK, w1)
    \<and> dispatch (e_os env) cs rd tmo (w_ctx w1) = Inr (EDN_OK, - 1, c2) \<and> c_pool c2 = [T_handler (Io a)]
    \<and> run_pool_task env (T_handler (Io a)) (take_task 0 (w1\<lparr>w_ctx := c2\<rparr>)) = Inr w3
    \<and> c_pool (w_ctx w3) = [T_io a (Write_task On_write)]
    \<and> run_pool_task env (T_io a (Write_task On_write)) (take_task 0 w3) = Inr w4
    \<and> w_wire w4 cid = w_wire w cid @ d \<and> w_cbs w4 = w_cbs w @ [(cb, EDN_OK)]"
proof -
  have fd: "fd_at a w = cid" by (rule find_conn_fd(1) [OF assms(3,2)])
  have len: "0 < length d" "int (length d) < 1073741824" using assms(1,8) by (auto simp: fits_block_def wf_config_def)
  have z: "0 \<le> fd_at a w" using fd assms(10) by simp
  obtain ret w1 b1 where w1: "SendData env a (Some d) (length d) (Some cb) w = Inr (ret, w1)"
    "as_connect (io_at a w1) = Some (p\<lparr>output_buffer := Some b1\<rparr>)" "out_inv b1" "accounted b1" "content b1 = d"
    "buf_head b1 = Some 0" "buf_capacity b1 = buf_capacity b" "opt_cb b1 = Some cb" "low_water_mark b1 = low_water_mark b"
    "has (ev_events (io_at a w1)) EV_WRITE" "fd_at a w1 = fd_at a w" "w_wire w1 = w_wire w" "w_cbs w1 = w_cbs w"
    "w_send w1 = w_send w"
    by (rule SendData_ready [OF assms(1,4,5,6,8,9) z, of "Some cb"])
  note f = SendData_frame [OF w1(1) z]
  have send: "edn_send_data env cid (Some d) (int (length d)) cb w = Inr (EDN_OK, w1)"
    using len assms(3) w1(1) by (simp add: edn_send_data_def)
  have "GetEvent cid (w_ctx w1) = Inr (Some (Io a))"
    using GetEvent_same [of "w_ctx w1" "w_ctx w" cid] f(1,2) assms(3) by (simp add: find_conn_Some)
  moreover have "cid \<noteq> c_sigfd (w_ctx w1)" "IsPersist (io_at a w1)" "connect_status (io_at a w1) \<noteq> CS_CONNECTING"
    "real_events (io_at a w1) = 0" "t_queue (c_tg (w_ctx w1)) = []" "c_has_tg (w_ctx w1)" "fd_at a w1 = cid"
    using f assms fd w1(11) by auto
  moreover have "timer_dispatch (rd_clock rd) (c_tg (w_ctx w1)) = Inr (- 1, rd_clock rd, c_tg (w_ctx w1), [])"
    using f(4) assms(15) by (simp add: no_timers)
  ultimately obtain c2 where c2: "dispatch (e_os env) cs rd tmo (w_ctx w1) = Inr (EDN_OK, - 1, c2)"
    "c_pool c2 = c_pool (w_ctx w1) @ [T_handler (Io a)]"
    "c_ios c2 a = (SetEvents EV_WRITE False ((io_at a w1)\<lparr>connect_status := CS_WRITE\<rparr>))\<lparr>real_events := EV_WRITE, ev_status := ACTIVE\<rparr>"
    using round_report [OF _ _ _ _ ConvertEvents_writable, where fd = cid and c = "w_ctx w1" and a = a and rd = rd
        and os = "e_os env" and cs = cs and tmo = tmo] assms(20) by blast
  have p2: "c_pool c2 = [T_handler (Io a)]" using c2(2) f(3) assms(17) by simp
  let ?w2 = "take_task 0 (w1\<lparr>w_ctx := c2\<rparr>)"
  let ?w3 = "run_io_handler a ?w2"
  have cb: "write_cb (io_at a w1) = On_write" using f(9) assms(14) by (simp add: io_cbs_def)
  have p3: "c_pool (w_ctx ?w3) = [T_io a (Write_task On_write)]"
    by (simp add: p2 c2(3) cb SetEvents_def handler_tasks_def has_def)
  let ?w = "take_task 0 ?w3"
  have s: "as_connect (io_at a ?w) = Some (p\<lparr>output_buffer := Some b1\<rparr>)" "fd_at a ?w = cid" "w_send ?w = w_send w"
    "w_wire ?w = w_wire w" "w_cbs ?w = w_cbs w"
    by (simp_all add: c2(3) SetEvents_def w1(2,11-14) fd)
  have cap: "buf_capacity b1 = size_of_int (buffer_len (e_cfg env))" using w1(7) assms(6) by (simp add: out_ready_def)
  obtain b2 where b2: "SendAtMost (Ret k # rest) b1 = Inr (int (length d), b2, d, rest)" "opt_cb b2 = Some cb" "low_water_mark b2 = 0"
    using drain_written [OF w1(3,4,6) cap, of k rest] assms(7,19) w1(5,8,9) by auto
  obtain w4 where w4: "run_io_task no_user env a (Write_task On_write) ?w = Inr w4"
    "w_wire w4 (fd_at a ?w) = w_wire ?w (fd_at a ?w) @ d" "w_cbs w4 = w_cbs ?w @ [(cb, EDN_OK)]"
  proof (rule write_task_sent [OF s(1) _ w1(3,4) _ _ _ _ b2(2,3)])
    show "SendAtMost (w_send ?w (fd_at a ?w)) b1 = Inr (int (length d), b2, d, rest)"
      using s(2,3) assms(18) b2(1) by simp
  qed (use w1(5) len s(2) assms(10) in auto)
  show ?thesis
    using send c2(1) p2 p3 w4 s
    by (intro exI [of _ w1] exI [of _ c2] exI [of _ ?w3] exI [of _ w4]) (simp add: run_pool_task_def)
qed

text \<open>The connection of the other witnesses, its timer gone.\<close>

definition quiet_world :: world where
  "quiet_world = (sample_world CS_CONNECTED)\<lparr>w_send := (\<lambda>_. [Ret 100]),
     w_ctx := (w_ctx (sample_world CS_CONNECTED))\<lparr>c_tg := EdnTimerGroup (\<lambda>a. EdnTimer (int a + 3) 1000 50 False (Some a))\<rparr>\<rparr>"

lemma quiet_sel:
  "io_at a quiet_world = sample_conn CS_CONNECTED" "c_table (w_ctx quiet_world) = [5 \<mapsto> 0]" "c_list (w_ctx quiet_world) = [(0, Io 0)]"
  "c_sigfd (w_ctx quiet_world) = 3" "t_queue (c_tg (w_ctx quiet_world)) = []" "c_has_tg (w_ctx quiet_world)"
  "c_pool (w_ctx quiet_world) = []" "w_send quiet_world 5 = [Ret 100]" "w_wire quiet_world 5 = []" "w_cbs quiet_world = []"
  by (simp_all add: quiet_world_def sample_world_def EdnTimerGroup_def)

lemma quiet_inv: "ctx_inv (w_ctx quiet_world)"
proof -
  have "reg_same (w_ctx (sample_world CS_CONNECTED)) (w_ctx quiet_world)"
    unfolding quiet_world_def by simp (rule reg_same_tg, simp add: EdnTimerGroup_def)
  with sample_world_inv show ?thesis by (simp add: ctx_inv_same)
qed

theorem message_reaches_wire_witness:
  "\<exists>w1 c2 w3 w4. edn_send_data sample_env 5 (Some [1, 2]) 2 9 quiet_world = Inr (EDN_OK, w1)
    \<and> dispatch (e_os sample_env) True \<lparr>rd_wait = Wait_events [(5, EPOLLOUT)], rd_pipes = [], rd_clock = []\<rparr> 0 (w_ctx w1)
        = Inr (EDN_OK, - 1, c2)
    \<and> run_pool_task sample_env (T_handler (Io 0)) (take_task 0 (w1\<lparr>w_ctx := c2\<rparr>)) = Inr w3
    \<and> run_pool_task sample_env (T_io 0 (Write_task On_write)) (take_task 0 w3) = Inr w4
    \<and> w_wire w4 5 = [1, 2] \<and> w_cbs w4 = [(9, EDN_OK)]"
proof -
  have f: "find_conn 5 quiet_world = Inr (Some 0)"
    by (simp add: find_conn_Some GetEvent_def node_at_def quiet_sel sample_conn_def)
  have p: "as_connect (io_at 0 quiet_world) = Some \<lparr>input_buffer = Some fresh_buffer,
      output_buffer = Some (SetCallback_opt (Some 7) fresh_buffer), connect_info = EDN_CONNECT_INFO_INIT, conn_timer = Some 0\<rparr>"
    by (simp add: quiet_sel sample_conn_def)
  have l: "low_water_mark (SetCallback_opt (Some 7) fresh_buffer) = 0" by (simp add: fresh_buffer_def EdnBuffer_def)
  have i: "IsPersist (io_at 0 quiet_world)" "real_events (io_at 0 quiet_world) = 0" "write_cb (io_at 0 quiet_world) = On_write"
    "connect_status (io_at 0 quiet_world) = CS_CONNECTED"
    by (simp_all add: quiet_sel sample_conn_def ready_connect_def bare_connect_def io_event.defs dyn_io.defs EdnIOEvent_def
        EdnIOEvent_cbs_def io_events_mask_def IsPersist_def has_def Let_def)
  have d: "fits_block default_config [1, 2]" by (simp add: fits_block_def)
  from message_reaches_wire [OF _ quiet_inv f p _ _ l, of sample_env "[1, 2]" 100 "[]"
      "\<lparr>rd_wait = Wait_events [(5, EPOLLOUT)], rd_pipes = [], rd_clock = []\<rparr>" 9 True 0]
  show ?thesis using i d by (auto simp: quiet_sel)
qed

end
