(* ===== verification/Edn_System_Connect.thy ===== *)
theory Edn_System_Connect
  imports Edn_System_Delivery
begin

text \<open>
  A connection from the call that opens it to its establishment, through every component: the event loop, the
  event's handler in the pool, the connect task the handler enqueues, the connection table and the timer group.
\<close>

section \<open>The report\<close>

lemma ConvertEvents_connected:
  "connect_status e = CS_CONNECTING \<Longrightarrow>
     ConvertEvents EPOLLOUT e = (EV_CONNECT OR EV_WRITE, SetEvents EV_WRITE False (e\<lparr>connect_status := CS_WRITE\<rparr>))"
  by (simp add: ConvertEvents_def has_def)

section \<open>The establishment\<close>

text \<open>C4: A connection that is established before its timer is due: one round of the loop that reports its descriptor
  writable leaves one task in the pool, the event's handler; the handler leaves two, the connect task before the
  write task; and the connect task ends, enters the descriptor in the connection table, takes the connect timer out
  of the armed ones and forgets it, and leaves the connection registered and in a status in which data is accepted,
  all without running a callback of the user.\<close>

theorem connection_established:
  assumes "ctx_inv (w_ctx w)" "find_conn cid w = Inr (Some a)" "0 \<le> cid" "cid \<noteq> c_sigfd (w_ctx w)"
    "as_connect (io_at a w) = Some p" "conn_timer p = Some t" "timer_ok a w" "tg_inv (c_tg (w_ctx w))"
    "IsPersist (io_at a w)" "connect_status (io_at a w) = CS_CONNECTING" "real_events (io_at a w) = 0"
    "conn_cb (io_at a w) = On_conn" "write_cb (io_at a w) = On_write"
    "c_pool (w_ctx w) = []" "table_ok (e_hs env) (e_hi env) (w_table w)"
    "timer_dispatch (rd_clock rd) (c_tg (w_ctx w)) = Inr (tmo', clk, c_tg (w_ctx w), [])"
    "rd_wait rd = Wait_events [(cid, EPOLLOUT)]"
    "net_peername (e_net env) cid = Some (ra, rp)" "net_sockname (e_net env) cid = Some (la, lp)"
    "inet_ntoa la \<noteq> ''0.0.0.0''"
  shows "\<exists>c1 w2 w3 k. dispatch (e_os env) cs rd tmo (w_ctx w) = Inr (EDN_OK, tmo', c1) \<and> c_pool c1 = [T_handler (Io a)]
    \<and> run_pool_task env (T_handler (Io a)) (take_task 0 (w\<lparr>w_ctx := c1\<rparr>)) = Inr w2
    \<and> c_pool (w_ctx w2) = [T_io a (Conn_task On_conn), T_io a (Write_task On_write)]
    \<and> run_pool_task env (T_io a (Conn_task On_conn)) (take_task 0 w2) = Inr w3
    \<and> c_pool (w_ctx w3) = [T_io a (Write_task On_write)] \<and> w_cbs w3 = w_cbs w
    \<and> table_map (e_hs env) (e_hi env) (w_table w3) = (table_map (e_hs env) (e_hi env) (w_table w))(k \<mapsto> cid)
    \<and> t \<notin> armed (c_tg (w_ctx w3)) \<and> as_connect (io_at a w3) = Some (p\<lparr>connect_info := k, conn_timer := None\<rparr>)
    \<and> find_conn cid w3 = Inr (Some a) \<and> connect_status (io_at a w3) = CS_WRITE"
proof -
  let ?k = "\<lparr>src_ip = Some (inet_ntoa la), src_port = ntohs lp, dst_ip = Some (inet_ntoa la), dst_port = ntohs rp\<rparr>"
  have fd: "fd_at a w = cid" by (rule find_conn_fd(1) [OF assms(2,1)])
  have get: "GetEvent cid (w_ctx w) = Inr (Some (Io a))" using assms(2) by (simp add: find_conn_Some)
  have tg: "c_has_tg (w_ctx w)" using assms(7) by (simp add: timer_ok_def)
  obtain c1 where c1: "dispatch (e_os env) cs rd tmo (w_ctx w) = Inr (EDN_OK, tmo', c1)" "c_pool c1 = c_pool (w_ctx w) @ [T_handler (Io a)]"
    "c_ios c1 a = (SetEvents EV_WRITE False ((io_at a w)\<lparr>connect_status := CS_WRITE\<rparr>))
       \<lparr>real_events := EV_CONNECT OR EV_WRITE, ev_status := ACTIVE\<rparr>"
    "c_list c1 = c_list (w_ctx w)" "c_table c1 = c_table (w_ctx w)" "c_tg c1 = c_tg (w_ctx w)" "c_has_tg c1 = c_has_tg (w_ctx w)"
    by (rule round_report [OF get fd assms(4,9) ConvertEvents_connected [OF assms(10)] assms(11) tg assms(16,17)])
  have p1: "c_pool c1 = [T_handler (Io a)]" using c1(2) assms(14) by simp
  let ?w1 = "take_task 0 (w\<lparr>w_ctx := c1\<rparr>)"
  let ?w2 = "run_io_handler a ?w1"
  have p2: "c_pool (w_ctx ?w2) = [T_io a (Conn_task On_conn), T_io a (Write_task On_write)]"
    by (simp add: p1 c1(3) assms(12,13) handler_tasks_def has_def SetEvents_def)
  let ?w = "take_task 0 ?w2"
  have s: "fd_at a ?w = cid" "as_connect (io_at a ?w) = Some p" "c_tg (w_ctx ?w) = c_tg (w_ctx w)" "c_has_tg (w_ctx ?w)"
    "w_table ?w = w_table w" "w_cbs ?w = w_cbs w" "c_list (w_ctx ?w) = c_list (w_ctx w)" "c_table (w_ctx ?w) = c_table (w_ctx w)"
    "connect_status (io_at a ?w) = CS_WRITE" "c_pool (w_ctx ?w) = [T_io a (Write_task On_write)]"
    using p2 by (simp_all add: c1 SetEvents_def fd assms(5) tg)
  have "timer_ok a ?w" using assms(5,7) s(2-4) by (simp add: timer_ok_def)
  then obtain g h where gh: "on_conn env a ?w = Inr (EDN_OK, SetTimer a None ((upd_conn a (connect_info_update (\<lambda>_. ?k)) ?w)
      \<lparr>w_table := h, w_ctx := (w_ctx (upd_conn a (connect_info_update (\<lambda>_. ?k)) ?w))\<lparr>c_tg := g\<rparr>\<rparr>))"
    "t \<notin> armed g" "table_map (e_hs env) (e_hi env) h = (table_map (e_hs env) (e_hi env) (w_table ?w))(?k \<mapsto> fd_at a ?w)"
    using on_conn_done [OF _ _ assms(20) s(2) assms(6) _ _ _ refl, of env ra rp lp] assms(8,15,18,19) s(1,3,5) by metis
  let ?wc = "SetTimer a None ((upd_conn a (connect_info_update (\<lambda>_. ?k)) ?w)
      \<lparr>w_table := h, w_ctx := (w_ctx (upd_conn a (connect_info_update (\<lambda>_. ?k)) ?w))\<lparr>c_tg := g\<rparr>\<rparr>)"
  have c: "0 \<le> fd_at a ?wc" "io_at a ?wc = (io_at a ?w)\<lparr>as_connect := Some (p\<lparr>connect_info := ?k, conn_timer := None\<rparr>)\<rparr>"
    using assms(3) s(1,2) by (simp_all add: SetTimer_def)
  obtain w3 where w3: "rearm env a (Conn_task On_conn) ?wc = Inr w3" "io_at a w3 = SetEvents EV_READ True (io_at a ?wc)"
    "c_tg (w_ctx w3) = g" "c_pool (w_ctx w3) = [T_io a (Write_task On_write)]" "c_list (w_ctx w3) = c_list (w_ctx w)"
    "c_table (w_ctx w3) = c_table (w_ctx w)" "w_table w3 = h" "w_cbs w3 = w_cbs w"
    by (rule rearm_done [OF c(1), of env "Conn_task On_conn"]) (use s in \<open>auto simp: SetTimer_def\<close>)
  have t: "run_pool_task env (T_io a (Conn_task On_conn)) ?w = Inr w3"
    by (simp add: run_pool_task_def run_io_task_def run_cb_def gh(1) w3(1))
  have "find_conn cid w3 = Inr (Some a)"
    using GetEvent_same [OF w3(5,6), of cid] get by (simp add: find_conn_Some w3(2) c(2))
  then show ?thesis
    using c1(1) p1 p2 t w3(2-) c(2) gh(2,3) s
    by (intro exI [of _ c1] exI [of _ ?w2] exI [of _ w3] exI [of _ ?k]) (simp add: run_pool_task_def SetEvents_def)
qed

theorem connection_established_witness:
  "\<exists>c1 w2 w3. dispatch sample_os True \<lparr>rd_wait = Wait_events [(5, EPOLLOUT)], rd_pipes = [], rd_clock = [1000, 1001]\<rparr> 0
        (w_ctx (sample_world CS_CONNECTING)) = Inr (EDN_OK, 49, c1)
    \<and> run_pool_task sample_env (T_handler (Io 0)) (take_task 0 ((sample_world CS_CONNECTING)\<lparr>w_ctx := c1\<rparr>)) = Inr w2
    \<and> run_pool_task sample_env (T_io 0 (Conn_task On_conn)) (take_task 0 w2) = Inr w3
    \<and> 0 \<notin> armed (c_tg (w_ctx w3)) \<and> find_conn 5 w3 = Inr (Some 0)"
proof -
  let ?w = "sample_world CS_CONNECTING"
  have p: "as_connect (io_at 0 ?w) = Some \<lparr>input_buffer = Some fresh_buffer,
      output_buffer = Some (SetCallback_opt (Some 7) fresh_buffer), connect_info = EDN_CONNECT_INFO_INIT, conn_timer = Some 0\<rparr>" by simp
  have t: "timer_dispatch [1000, 1001] (c_tg (w_ctx ?w)) = Inr (49, [], c_tg (w_ctx ?w), [])"
    by (simp add: timer_dispatch_def dispatch_loop.simps min_timeout_def EdnTimer_def wrap32_def)
  have i: "IsPersist (io_at 0 ?w)" "real_events (io_at 0 ?w) = 0"
    by (simp_all add: sample_conn_def ready_connect_def bare_connect_def io_event.defs dyn_io.defs EdnIOEvent_def
        EdnIOEvent_cbs_def io_events_mask_def IsPersist_def has_def Let_def)
  have e: "5 \<noteq> c_sigfd (w_ctx ?w)" "c_pool (w_ctx ?w) = []" by (simp_all add: sample_world_def)
  note est = connection_established [where env = sample_env and w = ?w and cid = 5 and a = 0 and t = 0 and tmo' = 49 and clk = "[]"
      and rd = "\<lparr>rd_wait = Wait_events [(5, EPOLLOUT)], rd_pipes = [], rd_clock = [1000, 1001]\<rparr>" and cs = True and tmo = 0,
      OF sample_world_inv sample_find _ e(1) p _ sample_timer_ok sample_tg_inv i(1) _ i(2) _ _ e(2) _ _ _ sample_names(1,2)]
  show ?thesis using est t by (simp add: sample_names) blast
qed

end
