(* ===== verification/Edn_System_Receipt.thy ===== *)
theory Edn_System_Receipt
  imports Edn_System_Delivery
begin

text \<open>
  A message from the wire to the user's handler, through every component: the event loop, the event's handler in the
  pool, the read task the handler enqueues and the input buffer.
\<close>

section \<open>The read task\<close>

lemma ConvertEvents_readable:
  "ConvertEvents EPOLLIN e = (EV_READ, SetEvents EV_READ False (e\<lparr>connect_status := CS_READ\<rparr>))"
  by (simp add: ConvertEvents_def has_def)

lemma on_read_whole:
  assumes "wf_config (e_cfg env)" "as_connect (io_at a w) = Some p" "input_buffer p = Some b" "idle_input (e_cfg env) k b"
    "d \<noteq> []" "int (length d) + 48 < min_buffer_node_len (e_cfg env)" "k < 2147483648" "5 \<le> e_fuel env"
    "net_fionread (e_net env) (fd_at a w) = Ret (int (length d))" "w_recv w (fd_at a w) = Recv_data d # Recv_err EAGAIN # rest"
  obtains b' where "idle_input (e_cfg env) (Suc k) b'" "handle_data_cb b' = handle_data_cb b"
    "on_read env a w = Inr (EDN_OK, upd_conn a (\<lambda>p. p\<lparr>input_buffer := Some b'\<rparr>)
       (w\<lparr>w_recv := (w_recv w)(fd_at a w := rest), w_data := w_data w @ [(d, int (length d))]\<rparr>))"
proof -
  obtain b' where b': "RecvAtMost (e_cfg env) (e_fuel env) (int (length d)) (Recv_data d # Recv_err EAGAIN # rest) b
      = Inr (int (length d), b', rest, [(d, int (length d))])" "idle_input (e_cfg env) (Suc k) b'"
    "handle_data_cb b' = handle_data_cb b"
    using recv_cycle [OF assms(1,4-8), of rest] by blast
  show thesis
    using that [OF b'(2,3)] assms(2,3,9,10) by (simp add: on_read_def GetReadableBytes_def b'(1))
qed

section \<open>The receipt\<close>



end
