(* ===== verification/Edn_Thread_Pool.thy ===== *)
theory Edn_Thread_Pool
  imports Edn_Prelude
begin

text \<open>
  The thread pool (\<open>core/edn_thread_pool.h\<close>, \<open>core/edn_thread_pool.cpp\<close>) as interleaved steps of its
  workers, of the threads that call \<open>enqueue\<close> and of the destructor. Tasks are names.

  What runs under \<open>queue_mutex\<close> is one step, except that \<open>condition.wait\<close> is two: a worker that finds
  the predicate false still holds the mutex (\<open>W_wait\<close>) before it blocks and lets go of it. The
  destructor sets \<open>stop\<close> and notifies without the mutex. \<open>enqueue\<close> notifies after it has released the
  mutex: \<open>p_notify\<close> counts the calls of \<open>notify_one\<close> still to come. The last two fields record the
  tasks accepted and the tasks taken, in order.
\<close>

datatype worker_pc = W_check | W_wait | W_blocked | W_run nat | W_exit

datatype dtor_pc = D_none | D_notify | D_join | D_done

record pool =
  p_tasks :: "nat list"
  p_stop :: bool
  p_mutex :: "nat option"
  p_workers :: "worker_pc list"
  p_notify :: nat
  p_dtor :: dtor_pc
  p_submitted :: "nat list"
  p_started :: "nat list"

definition EdnThreadPool :: "nat \<Rightarrow> pool" where
  "EdnThreadPool n =
     \<lparr>p_tasks = [], p_stop = False, p_mutex = None, p_workers = replicate n W_check, p_notify = 0,
      p_dtor = D_none, p_submitted = [], p_started = []\<rparr>"

definition enqueue :: "nat \<Rightarrow> pool \<Rightarrow> fault + pool" where
  "enqueue t p =
     (if p_stop p then Inl Enqueue_on_stopped
      else Inr (p\<lparr>p_tasks := p_tasks p @ [t], p_notify := p_notify p + 1, p_submitted := p_submitted p @ [t]\<rparr>))"

definition set_worker :: "nat \<Rightarrow> worker_pc \<Rightarrow> pool \<Rightarrow> pool" where
  "set_worker i w p = p\<lparr>p_workers := (p_workers p)[i := w]\<rparr>"

text \<open>The body of a worker from taking the mutex: the predicate, the exit, the next task.\<close>

definition worker_check :: "nat \<Rightarrow> pool \<Rightarrow> pool" where
  "worker_check i p =
     (if p_stop p \<or> p_tasks p \<noteq> [] then
        if p_stop p \<and> p_tasks p = [] then set_worker i W_exit p
        else set_worker i (W_run (hd (p_tasks p)))
               (p\<lparr>p_tasks := tl (p_tasks p), p_started := p_started p @ [hd (p_tasks p)]\<rparr>)
      else (set_worker i W_wait p)\<lparr>p_mutex := Some i\<rparr>)"

definition wake :: "worker_pc \<Rightarrow> worker_pc" where
  "wake w = (if w = W_blocked then W_check else w)"

text \<open>
  The steps. \<open>Notify_one i\<close> wakes worker \<open>i\<close>, the library's choice among the blocked ones, and is a
  no-op when none is blocked. \<open>Spurious i\<close> is a wake-up nobody asked for.
\<close>

datatype pool_act =
    Enqueue nat
  | Notify_one nat
  | Worker_check nat
  | Worker_block nat
  | Worker_finish nat
  | Spurious nat
  | Dtor_stop
  | Dtor_notify
  | Dtor_join

definition worker_at :: "pool \<Rightarrow> nat \<Rightarrow> worker_pc \<Rightarrow> bool" where
  "worker_at p i w \<longleftrightarrow> i < length (p_workers p) \<and> p_workers p ! i = w"

fun pool_step :: "pool_act \<Rightarrow> pool \<Rightarrow> pool option" where
  "pool_step (Enqueue t) p =
     (if p_mutex p \<noteq> None then None
      else case enqueue t p of Inl f \<Rightarrow> Some p | Inr p' \<Rightarrow> Some p')"
| "pool_step (Notify_one i) p =
     (if p_notify p = 0 then None
      else if worker_at p i W_blocked then Some (set_worker i W_check (p\<lparr>p_notify := p_notify p - 1\<rparr>))
      else if W_blocked \<notin> set (p_workers p) then Some (p\<lparr>p_notify := p_notify p - 1\<rparr>)
      else None)"
| "pool_step (Worker_check i) p =
     (if worker_at p i W_check \<and> p_mutex p = None then Some (worker_check i p) else None)"
| "pool_step (Worker_block i) p =
     (if worker_at p i W_wait then Some ((set_worker i W_blocked p)\<lparr>p_mutex := None\<rparr>) else None)"
| "pool_step (Worker_finish i) p =
     (if i < length (p_workers p) then
        (case p_workers p ! i of W_run t \<Rightarrow> Some (set_worker i W_check p) | _ \<Rightarrow> None)
      else None)"
| "pool_step (Spurious i) p = (if worker_at p i W_blocked then Some (set_worker i W_check p) else None)"
| "pool_step Dtor_stop p =
     (if p_dtor p = D_none then Some (p\<lparr>p_stop := True, p_dtor := D_notify\<rparr>) else None)"
| "pool_step Dtor_notify p =
     (if p_dtor p = D_notify then Some (p\<lparr>p_workers := map wake (p_workers p), p_dtor := D_join\<rparr>) else None)"
| "pool_step Dtor_join p =
     (if p_dtor p = D_join \<and> set (p_workers p) \<subseteq> {W_exit} then Some (p\<lparr>p_dtor := D_done\<rparr>) else None)"

inductive pool_reachable :: "nat \<Rightarrow> pool \<Rightarrow> bool" for n :: nat where
  start: "pool_reachable n (EdnThreadPool n)"
| step: "pool_reachable n p \<Longrightarrow> pool_step a p = Some p' \<Longrightarrow> pool_reachable n p'"

fun pool_run :: "pool_act list \<Rightarrow> pool \<Rightarrow> pool option" where
  "pool_run [] p = Some p"
| "pool_run (a # as) p = (case pool_step a p of None \<Rightarrow> None | Some p' \<Rightarrow> pool_run as p')"

text \<open>No step but a spurious wake-up (or a further \<open>enqueue\<close>) can happen.\<close>

definition pool_stuck :: "pool \<Rightarrow> bool" where
  "pool_stuck p \<longleftrightarrow> (\<forall>a. (\<forall>t. a \<noteq> Enqueue t) \<longrightarrow> (\<forall>i. a \<noteq> Spurious i) \<longrightarrow> pool_step a p = None)"

end
