(* ===== verification/Edn_Thread_Pool_Properties.thy ===== *)
theory Edn_Thread_Pool_Properties
  imports Edn_Thread_Pool
begin

text \<open>
  Every accepted task is taken once, in order, and before the pool is gone; a task that waits is
  always on its way to a worker; the shutdown can miss a worker that is about to block.
\<close>

lemma set_worker_sel [simp]:
  "p_tasks (set_worker i w p) = p_tasks p" "p_stop (set_worker i w p) = p_stop p"
  "p_mutex (set_worker i w p) = p_mutex p" "p_workers (set_worker i w p) = (p_workers p)[i := w]"
  "p_notify (set_worker i w p) = p_notify p" "p_dtor (set_worker i w p) = p_dtor p"
  "p_submitted (set_worker i w p) = p_submitted p" "p_started (set_worker i w p) = p_started p"
  by (simp_all add: set_worker_def)

definition ready_workers :: "pool \<Rightarrow> nat" where
  "ready_workers p = length (filter (\<lambda>w. w = W_check) (p_workers p))"

text \<open>The invariant: the history, the mutex, and the wake-ups under way for the waiting tasks.\<close>

definition pool_inv :: "nat \<Rightarrow> pool \<Rightarrow> bool" where
  "pool_inv n p \<longleftrightarrow>
     length (p_workers p) = n
   \<and> p_submitted p = p_started p @ p_tasks p
   \<and> (\<forall>i. worker_at p i W_wait \<longleftrightarrow> p_mutex p = Some i)
   \<and> (p_mutex p \<noteq> None \<longrightarrow> p_tasks p = [])
   \<and> (W_blocked \<in> set (p_workers p) \<longrightarrow> length (p_tasks p) \<le> p_notify p + ready_workers p)
   \<and> (W_exit \<in> set (p_workers p) \<longrightarrow> p_tasks p = [] \<and> p_stop p)
   \<and> (p_dtor p = D_done \<longrightarrow> set (p_workers p) \<subseteq> {W_exit})
   \<and> (p_dtor p \<noteq> D_none \<longleftrightarrow> p_stop p)"

lemma filter_update:
  "i < length xs \<Longrightarrow> length (filter P (xs[i := x])) + (if P (xs ! i) then 1 else 0)
     = length (filter P xs) + (if P x then 1 else 0)"
proof (induction xs arbitrary: i)
  case (Cons y ys)
  show ?case
  proof (cases i)
    case (Suc j)
    with Cons.IH [of j] Cons.prems show ?thesis by simp
  qed simp
qed simp

lemma ready_set_worker:
  "worker_at p i v \<Longrightarrow> ready_workers (set_worker i w p) + (if v = W_check then 1 else 0)
     = ready_workers p + (if w = W_check then 1 else 0)"
  using filter_update [of i "p_workers p" "\<lambda>w. w = W_check" w] by (auto simp: ready_workers_def worker_at_def)

lemma worker_at_set_worker:
  "worker_at (set_worker i w p) j v \<longleftrightarrow> (if i = j then i < length (p_workers p) \<and> w = v else worker_at p j v)"
  by (auto simp: worker_at_def nth_list_update)

lemma pool_upd [simp]:
  "worker_at (p\<lparr>p_tasks := x\<rparr>) i w = worker_at p i w" "worker_at (p\<lparr>p_stop := s\<rparr>) i w = worker_at p i w"
  "worker_at (p\<lparr>p_notify := k\<rparr>) i w = worker_at p i w" "worker_at (p\<lparr>p_dtor := d\<rparr>) i w = worker_at p i w"
  "worker_at (p\<lparr>p_submitted := x\<rparr>) i w = worker_at p i w" "worker_at (p\<lparr>p_mutex := m\<rparr>) i w = worker_at p i w"
  "worker_at (p\<lparr>p_started := x\<rparr>) i w = worker_at p i w"
  "ready_workers (p\<lparr>p_tasks := x\<rparr>) = ready_workers p" "ready_workers (p\<lparr>p_stop := s\<rparr>) = ready_workers p"
  "ready_workers (p\<lparr>p_notify := k\<rparr>) = ready_workers p" "ready_workers (p\<lparr>p_dtor := d\<rparr>) = ready_workers p"
  "ready_workers (p\<lparr>p_submitted := x\<rparr>) = ready_workers p" "ready_workers (p\<lparr>p_mutex := m\<rparr>) = ready_workers p"
  "ready_workers (p\<lparr>p_started := x\<rparr>) = ready_workers p"
  by (simp_all add: worker_at_def ready_workers_def)

lemma worker_at_mem: "worker_at p i w \<Longrightarrow> w \<in> set (p_workers p)"
  by (auto simp: worker_at_def)

lemma not_done: "pool_inv n p \<Longrightarrow> worker_at p i v \<Longrightarrow> v \<noteq> W_exit \<Longrightarrow> p_dtor p \<noteq> D_done"
  using worker_at_mem [of p i v] by (auto simp: pool_inv_def)

lemma pool_inv_start: "pool_inv n (EdnThreadPool n)"
  by (auto simp: pool_inv_def EdnThreadPool_def worker_at_def ready_workers_def)

lemma set_update_new: "x \<in> set (xs[i := w]) \<Longrightarrow> x \<noteq> w \<Longrightarrow> x \<in> set xs"
  using set_update_subset_insert [of xs i w] by auto

lemma pool_inv_worker:
  assumes "pool_inv n p" "worker_at p i v" "v \<noteq> W_wait" "w \<noteq> W_wait" "w \<noteq> W_exit" "v \<noteq> W_exit"
    "w = W_blocked \<longrightarrow> p_tasks p = []" "v = W_check \<longrightarrow> p_tasks p = []"
  shows "pool_inv n (set_worker i w p)"
proof -
  note d = not_done [OF assms(1,2,6)]
  have at: "worker_at (set_worker i w p) j W_wait = worker_at p j W_wait" for j
    using assms(2-4) by (auto simp: worker_at_def nth_list_update)
  have r: "ready_workers p \<le> ready_workers (set_worker i w p) \<or> p_tasks p = []"
    using ready_set_worker [OF assms(2), of w] assms(8) by (auto split: if_splits)
  show ?thesis
    unfolding pool_inv_def at
    using assms(1,5,7) r d by (auto simp: pool_inv_def dest: set_update_new)
qed

lemma worker_check_inv:
  assumes "pool_inv n p" "worker_at p i W_check" "p_mutex p = None"
  shows "pool_inv n (worker_check i p)"
proof -
  have d: "p_dtor p \<noteq> D_done" using not_done [OF assms(1,2)] by simp
  have i: "i < length (p_workers p)" using assms(2) by (simp add: worker_at_def)
  have at: "worker_at (set_worker i w p) j W_wait = (w = W_wait \<and> j = i)" for w j
    using assms i by (auto simp: worker_at_set_worker pool_inv_def)
  note r = ready_set_worker [OF assms(2)]
  show ?thesis
  proof (cases "p_tasks p")
    case Nil
    show ?thesis
    proof (cases "p_stop p")
      case True
      with Nil assms d at show ?thesis
        by (auto simp: worker_check_def pool_inv_def dest: set_update_new)
    next
      case False
      let ?p = "(set_worker i W_wait p)\<lparr>p_mutex := Some i\<rparr>"
      have "worker_at ?p j W_wait = (j = i)" for j using at [of W_wait j] by (simp add: worker_at_def)
      with False Nil assms d show ?thesis
        by (auto simp: worker_check_def pool_inv_def dest: set_update_new)
    qed
  next
    case (Cons t ts)
    let ?p = "set_worker i (W_run t) (p\<lparr>p_tasks := ts, p_started := p_started p @ [t]\<rparr>)"
    have "worker_at ?p j W_wait = False" for j using at [of "W_run t" j] by (simp add: worker_at_def)
    moreover have "ready_workers ?p + 1 = ready_workers p" using r [of "W_run t"] by (simp add: ready_workers_def)
    ultimately have "pool_inv n ?p"
      using Cons assms d by (auto simp: pool_inv_def dest: set_update_new)
    with Cons show ?thesis by (simp add: worker_check_def)
  qed
qed

lemma pool_step_inv:
  assumes "pool_inv n p" "pool_step a p = Some p'"
  shows "pool_inv n p'"
proof (cases a)
  case (Enqueue t)
  with assms show ?thesis by (auto simp: enqueue_def pool_inv_def split: if_splits)
next
  case (Notify_one i)
  show ?thesis
  proof (cases "worker_at p i W_blocked")
    case True
    let ?p = "set_worker i W_check (p\<lparr>p_notify := p_notify p - 1\<rparr>)"
    have pos: "p_notify p \<noteq> 0" "p' = ?p" using assms(2) Notify_one True by (auto split: if_splits)
    have "ready_workers ?p = ready_workers p + 1"
      using ready_set_worker [OF True, of W_check] by (simp add: ready_workers_def)
    moreover have "worker_at ?p j W_wait = worker_at p j W_wait" for j
      using True by (auto simp: worker_at_def nth_list_update)
    moreover have "p_dtor p \<noteq> D_done" using not_done [OF assms(1) True] by simp
    moreover have "W_blocked \<in> set (p_workers p)" using True by (rule worker_at_mem)
    ultimately have "pool_inv n ?p" using assms(1) pos(1) by (auto simp: pool_inv_def dest: set_update_new)
    with pos show ?thesis by simp
  next
    case False
    with assms Notify_one show ?thesis by (auto simp: pool_inv_def split: if_splits)
  qed
next
  case (Worker_check i)
  with assms worker_check_inv [of n p i] show ?thesis by (auto split: if_splits)
next
  case (Worker_block i)
  let ?p = "(set_worker i W_blocked p)\<lparr>p_mutex := None\<rparr>"
  have w: "worker_at p i W_wait" "p' = ?p" using assms(2) Worker_block by (auto split: if_splits)
  have m: "p_mutex p = Some i" using assms(1) w(1) by (simp add: pool_inv_def)
  have "worker_at p j W_wait \<longleftrightarrow> i = j" for j using assms(1) m by (simp add: pool_inv_def)
  then have "worker_at ?p j W_wait = False" for j by (simp add: worker_at_set_worker)
  moreover have "p_dtor p \<noteq> D_done" using not_done [OF assms(1) w(1)] by simp
  ultimately have "pool_inv n ?p" using assms(1) m by (auto simp: pool_inv_def dest: set_update_new)
  with w show ?thesis by simp
next
  case (Worker_finish i)
  then obtain t where "worker_at p i (W_run t)" "p' = set_worker i W_check p"
    using assms(2) by (auto simp: worker_at_def split: if_splits worker_pc.splits)
  with pool_inv_worker [OF assms(1), of i "W_run t" W_check] show ?thesis by simp
next
  case (Spurious i)
  then have "worker_at p i W_blocked" "p' = set_worker i W_check p"
    using assms(2) by (auto split: if_splits)
  with pool_inv_worker [OF assms(1), of i W_blocked W_check] show ?thesis by simp
next
  case Dtor_stop
  then have "p_dtor p = D_none" "p' = p\<lparr>p_stop := True, p_dtor := D_notify\<rparr>"
    using assms(2) by (auto split: if_splits)
  with assms(1) show ?thesis by (simp add: pool_inv_def)
next
  case Dtor_notify
  let ?p = "p\<lparr>p_workers := map wake (p_workers p), p_dtor := D_join\<rparr>"
  have "worker_at ?p j W_wait = worker_at p j W_wait" for j
    by (auto simp: worker_at_def wake_def split: if_splits)
  moreover have "W_exit \<in> set (map wake (p_workers p)) \<longleftrightarrow> W_exit \<in> set (p_workers p)"
    "W_blocked \<notin> set (map wake (p_workers p))" by (auto simp: wake_def split: if_splits)
  moreover have "p_dtor p = D_notify" "p' = ?p" using assms(2) Dtor_notify by (auto split: if_splits)
  ultimately show ?thesis using assms(1) by (simp add: pool_inv_def)
next
  case Dtor_join
  then have "p_dtor p = D_join" "set (p_workers p) \<subseteq> {W_exit}" "p' = p\<lparr>p_dtor := D_done\<rparr>"
    using assms(2) by (auto split: if_splits)
  with assms(1) show ?thesis by (simp add: pool_inv_def)
qed

lemma pool_reachable_inv: "pool_reachable n p \<Longrightarrow> pool_inv n p"
  by (induction rule: pool_reachable.induct) (simp_all add: pool_inv_start pool_step_inv)

lemma pool_run_reachable: "pool_reachable n p \<Longrightarrow> pool_run as p = Some p' \<Longrightarrow> pool_reachable n p'"
  by (induction as arbitrary: p) (auto split: option.splits intro: pool_reachable.step)

lemma not_stuckI:
  "pool_step a p \<noteq> None \<Longrightarrow> (\<And>t. a \<noteq> Enqueue t) \<Longrightarrow> (\<And>i. a \<noteq> Spurious i) \<Longrightarrow> \<not> pool_stuck p"
  by (auto simp: pool_stuck_def)

section \<open>Properties\<close>

text \<open>C11: The pool takes the accepted tasks in the order they were submitted, each exactly once, and by the
  time the destructor has joined its workers it has taken every one of them.\<close>

theorem pool_fifo:
  assumes "pool_reachable n p" "0 < n"
  shows "p_submitted p = p_started p @ p_tasks p \<and> (p_dtor p = D_done \<longrightarrow> p_started p = p_submitted p)"
proof -
  have inv: "pool_inv n p" by (rule pool_reachable_inv [OF assms(1)])
  have "p_tasks p = []" if "p_dtor p = D_done"
  proof -
    have "set (p_workers p) \<subseteq> {W_exit}" "p_workers p \<noteq> []" using inv that assms(2) by (auto simp: pool_inv_def)
    then have "W_exit \<in> set (p_workers p)" by (cases "p_workers p") auto
    with inv show ?thesis by (simp add: pool_inv_def)
  qed
  with inv show ?thesis by (auto simp: pool_inv_def)
qed

definition shutdown_schedule :: "pool_act list" where
  "shutdown_schedule = [Enqueue 7, Enqueue 8, Worker_check 0, Dtor_stop, Worker_check 1, Dtor_notify, Worker_finish 1,
     Worker_check 1, Worker_finish 0, Worker_check 0, Dtor_join]"

theorem pool_fifo_witness:
  "\<exists>p. pool_run shutdown_schedule (EdnThreadPool 2) = Some p \<and> p_dtor p = D_done \<and> p_started p = [7, 8]
    \<and> p_started p = p_submitted p"
proof -
  obtain p where p: "pool_run shutdown_schedule (EdnThreadPool 2) = Some p" "p_dtor p = D_done" "p_started p = [7, 8]"
    by (simp add: shutdown_schedule_def EdnThreadPool_def enqueue_def worker_check_def worker_at_def set_worker_def
        wake_def numeral_2_eq_2)
  have "pool_reachable 2 p" by (rule pool_run_reachable [OF pool_reachable.start p(1)])
  with pool_fifo [of 2 p] p show ?thesis by auto
qed



text \<open>The schedule of a missed shutdown: worker 0 is between its test and its wait, the others leave.\<close>

definition missed_shutdown :: "nat \<Rightarrow> nat \<Rightarrow> pool" where
  "missed_shutdown n k =
     \<lparr>p_tasks = [], p_stop = True, p_mutex = None,
      p_workers = W_blocked # replicate k W_exit @ replicate (n - k) W_check, p_notify = 0,
      p_dtor = D_join, p_submitted = [], p_started = []\<rparr>"

lemma missed_shutdown_start: "pool_reachable (Suc n) (missed_shutdown n 0)"
proof (rule pool_run_reachable [OF pool_reachable.start])
  show "pool_run [Worker_check 0, Dtor_stop, Dtor_notify, Worker_block 0] (EdnThreadPool (Suc n))
      = Some (missed_shutdown n 0)"
    by (simp add: EdnThreadPool_def missed_shutdown_def worker_check_def worker_at_def set_worker_def wake_def)
qed

lemma missed_shutdown_exit:
  "k < n \<Longrightarrow> pool_step (Worker_check (Suc k)) (missed_shutdown n k) = Some (missed_shutdown n (Suc k))"
proof -
  assume k: "k < n"
  have "(replicate k W_exit @ replicate (n - k) W_check)[k := W_exit]
      = replicate (Suc k) W_exit @ replicate (n - Suc k) W_check"
    using k by (simp add: list_update_append Suc_diff_Suc [symmetric] replicate_app_Cons_same)
  with k show ?thesis
    by (simp add: missed_shutdown_def worker_check_def worker_at_def set_worker_def nth_append)
qed

lemma missed_shutdown_reachable: "k \<le> n \<Longrightarrow> pool_reachable (Suc n) (missed_shutdown n k)"
proof (induction k)
  case (Suc k)
  then show ?case using pool_reachable.step [OF _ missed_shutdown_exit] by simp
qed (rule missed_shutdown_start)

lemma missed_shutdown_stuck: "pool_stuck (missed_shutdown n n)"
proof -
  have "pool_step a (missed_shutdown n n) = None" if "\<forall>t. a \<noteq> Enqueue t" "\<forall>i. a \<noteq> Spurious i" for a
    using that by (cases a) (auto simp: missed_shutdown_def worker_at_def nth_Cons' split: worker_pc.splits)
  then show ?thesis by (simp add: pool_stuck_def)
qed

text \<open>C37: The destructor can wait for ever: it sets \<open>stop\<close> and notifies without the mutex, so a worker that
  has just found nothing to do blocks after the notification, and nothing but a spurious wake-up moves
  the pool again.\<close>

theorem pool_shutdown_deadlock:
  "\<exists>p. pool_reachable (Suc n) p \<and> p_dtor p = D_join \<and> W_blocked \<in> set (p_workers p) \<and> pool_stuck p"
  by (rule exI [of _ "missed_shutdown n n"])
    (simp add: missed_shutdown_reachable missed_shutdown_stuck, simp add: missed_shutdown_def)

end
