(* ===== verification/Edn_Napi.thy ===== *)
theory Edn_Napi
  imports Edn_Prelude
begin

text \<open>
  The entry point of the native module (\<open>napi_init.cpp\<close>, beside \<open>src/\<close>): the function it exports to ArkTS and its
  registration. It does not use the rest of the library.

  The N-API runtime is a parameter: \<open>'v\<close> are its values, \<open>'i\<close> the information about a call, \<open>'d\<close> the doubles and
  \<open>n_plus\<close> their sum. \<open>napi_get_cb_info\<close> fills \<open>args\<close> with as many values as asked for, \<open>undefined\<close> ones where the
  caller passed fewer. \<open>napi_get_value_double\<close> stores a double if the value is a number and leaves the variable alone
  otherwise, and no status is looked at.
\<close>

record ('v, 'i, 'd) napi =
  n_cb_info :: "'i \<Rightarrow> nat \<Rightarrow> 'v list"
  n_value_double :: "'v \<Rightarrow> 'd option"
  n_create_double :: "'d \<Rightarrow> 'v"
  n_plus :: "'d \<Rightarrow> 'd \<Rightarrow> 'd"

section \<open>The exported function\<close>

text \<open>\<open>g0\<close> and \<open>g1\<close> are what the uninitialised locals \<open>value0\<close> and \<open>value1\<close> hold.\<close>

definition Add :: "('v, 'i, 'd) napi \<Rightarrow> 'd \<Rightarrow> 'd \<Rightarrow> 'i \<Rightarrow> 'v" where
  "Add n g0 g1 info =
     (let args = n_cb_info n info 2;
          value0 = (case n_value_double n (args ! 0) of Some d \<Rightarrow> d | None \<Rightarrow> g0);
          value1 = (case n_value_double n (args ! 1) of Some d \<Rightarrow> d | None \<Rightarrow> g1)
      in n_create_double n (n_plus n value0 value1))"

section \<open>Registration\<close>

text \<open>The functions the file hands out by address, a property of the exports, and the module's record.\<close>

datatype napi_callback = Cb_Add

record napi_property_descriptor =
  utf8name :: string
  prop_method :: napi_callback

datatype napi_init = Fn_Init

record napi_module =
  nm_version :: int
  nm_flags :: nat
  nm_filename :: "string option"
  nm_register_func :: napi_init
  nm_modname :: string

text \<open>What the runtime is told.\<close>

datatype 'v napi_call =
    Define_properties 'v "napi_property_descriptor list"
  | Module_register napi_module

definition Init :: "'v \<Rightarrow> 'v \<times> 'v napi_call list" where
  "Init exports = (exports, [Define_properties exports [\<lparr>utf8name = ''add'', prop_method = Cb_Add\<rparr>]])"

definition demoModule :: napi_module where
  "demoModule = \<lparr>nm_version = 1, nm_flags = 0, nm_filename = None, nm_register_func = Fn_Init, nm_modname = ''entry''\<rparr>"

definition RegisterEntryModule :: "'v napi_call list" where
  "RegisterEntryModule = [Module_register demoModule]"

text \<open>The runtime calls what is registered: the module's function on a fresh object, and an exported function.\<close>

primrec run_init :: "napi_init \<Rightarrow> 'v \<Rightarrow> 'v \<times> 'v napi_call list" where
  "run_init Fn_Init exports = Init exports"

primrec run_callback :: "napi_callback \<Rightarrow> ('v, 'i, 'd) napi \<Rightarrow> 'd \<Rightarrow> 'd \<Rightarrow> 'i \<Rightarrow> 'v" where
  "run_callback Cb_Add n = Add n"

primrec exported :: "string \<Rightarrow> napi_property_descriptor list \<Rightarrow> napi_callback option" where
  "exported s [] = None"
| "exported s (d # ds) = (if utf8name d = s then Some (prop_method d) else exported s ds)"

primrec registered :: "'v napi_call \<Rightarrow> napi_module option" where
  "registered (Define_properties v ds) = None"
| "registered (Module_register m) = Some m"

text \<open>The module exports its sum under the name the declarations of the ArkTS side give it.\<close>

lemma add_exported:
  assumes "n_cb_info n info 2 = [x, y]" "n_value_double n x = Some d" "n_value_double n y = Some e"
  shows "\<exists>m ds cb. map registered (RegisterEntryModule :: 'v napi_call list) = [Some m]
    \<and> run_init (nm_register_func m) (exports :: 'v) = (exports, [Define_properties exports ds])
    \<and> exported ''add'' ds = Some cb \<and> run_callback cb n g0 g1 info = n_create_double n (n_plus n d e)"
  using assms by (simp add: RegisterEntryModule_def demoModule_def Init_def Add_def)

text \<open>An argument that is no number is not refused: the sum is one with the uninitialised variable.\<close>

lemma add_garbage:
  assumes "n_cb_info n info 2 = [x, y]" "n_value_double n x = Some d" "n_value_double n y = None"
  shows "Add n g0 g1 info = n_create_double n (n_plus n d g1)"
  using assms by (simp add: Add_def)

end
